(* ===== verification/Prelude.thy ===== *)
theory Prelude
  imports
    "HOL-Library.Word"
    "HOL-Library.AList"
    "HOL-Library.List_Lexorder"
    "HOL-Library.Char_ord"
begin

text \<open>
  Shared vocabulary of the development: the machine types of the Rust sources, the few
  operations of the Rust standard library the sources use on integers, iterators, slices
  and hash maps, and the lemmas and hint collections the component theories share.

  A \<open>HashMap\<close> is an association list with distinct keys. The order of the list is the
  iteration order, which Rust leaves unspecified; where the code iterates over a map a
  component theory shows that the result does not depend on it.
\<close>

named_theorems word_nat \<open>reading word arithmetic as arithmetic on natural numbers\<close>
named_theorems alist_simps \<open>lookup after an update of an association list\<close>

section \<open>Machine types\<close>

type_synonym u32 = "32 word"
type_synonym u64 = "64 word"
type_synonym usize = "64 word"
type_synonym uuid = "128 word"

text \<open>An \<open>Instant\<close> and a \<open>Duration\<close> are counts of nanoseconds; \<open>duration_since\<close>
  saturates at zero, as subtraction of natural numbers does.\<close>

type_synonym instant = nat
type_synonym duration = nat

section \<open>Saturating and checked arithmetic on words\<close>

definition saturating_sub :: "'l::len word \<Rightarrow> 'l word \<Rightarrow> 'l word" where
  "saturating_sub a b = (if b \<le> a then a - b else 0)"

definition saturating_add :: "'l::len word \<Rightarrow> 'l word \<Rightarrow> 'l word" where
  "saturating_add a b = (if unat a + unat b < 2 ^ LENGTH('l) then a + b else - 1)"

definition saturating_mul :: "'l::len word \<Rightarrow> 'l word \<Rightarrow> 'l word" where
  "saturating_mul a b = (if unat a * unat b < 2 ^ LENGTH('l) then a * b else - 1)"

definition checked_mul :: "'l::len word \<Rightarrow> 'l word \<Rightarrow> 'l word option" where
  "checked_mul a b = (if unat a * unat b < 2 ^ LENGTH('l) then Some (a * b) else None)"

definition checked_div :: "'l::len word \<Rightarrow> 'l word \<Rightarrow> 'l word option" where
  "checked_div a b = (if b = 0 then None else Some (a div b))"

lemma unat_less_exp: "unat (w :: 'l::len word) < 2 ^ LENGTH('l)"
  by (rule unsigned_less)

lemma unat_plus1_less [word_nat]:
  fixes a b :: "'l::len word"
  assumes "a < b"
  shows "unat (a + 1) = Suc (unat a)"
proof -
  have "Suc (unat a) < 2 ^ LENGTH('l)"
    using assms unat_less_exp [of b] unfolding word_less_nat_alt by linarith
  then show ?thesis
    by (simp add: unat_word_ariths)
qed

lemma plus1_le_of_less:
  fixes a b :: "'l::len word"
  assumes "a < b"
  shows "a + 1 \<le> b"
  using assms by (simp add: word_le_nat_alt word_less_nat_alt unat_plus1_less [OF assms])

lemma unat_minus1_pos [word_nat]:
  fixes a :: "'l::len word"
  shows "a \<noteq> 0 \<Longrightarrow> unat (a - 1) = unat a - 1"
  by (simp add: unat_minus_one)

lemma unat_max_word: "unat (- 1 :: 'l::len word) = 2 ^ LENGTH('l) - 1"
  by (simp add: unsigned_minus_1_eq_mask mask_eq_exp_minus_1)

lemma unat_saturating_sub [word_nat]: "unat (saturating_sub a b) = unat a - unat b"
  by (simp add: saturating_sub_def word_le_nat_alt unat_sub)

lemma saturating_sub_plus1: "saturating_sub (a + 1) 1 = (a :: 'l::len word)" if "a < b" for b
proof -
  have "unat (saturating_sub (a + 1) 1) = unat a"
    by (simp add: unat_saturating_sub unat_plus1_less [OF that])
  then show ?thesis by (simp add: word_unat_eq_iff)
qed

lemma unat_saturating_add [word_nat]:
  "unat (saturating_add a b) = min (unat a + unat b) (2 ^ LENGTH('l) - 1)"
  for a b :: "'l::len word"
  by (auto simp: saturating_add_def unat_word_ariths unat_max_word min_def)

lemma unat_saturating_mul [word_nat]:
  "unat (saturating_mul a b) = min (unat a * unat b) (2 ^ LENGTH('l) - 1)"
  for a b :: "'l::len word"
proof (cases "unat a * unat b < 2 ^ LENGTH('l)")
  case True
  then have "unat a * unat b \<le> 2 ^ LENGTH('l) - 1" by linarith
  with True show ?thesis by (simp add: saturating_mul_def unat_word_ariths min_absorb1)
next
  case False
  then have "2 ^ LENGTH('l) - 1 \<le> unat a * unat b" by linarith
  with False show ?thesis by (simp add: saturating_mul_def unat_max_word min_absorb2)
qed

section \<open>Iterators\<close>

text \<open>\<open>collect::<Result<Vec<_>, _>>()\<close>: the first error, or all the values.\<close>

fun collect_results :: "('e + 'a) list \<Rightarrow> 'e + 'a list" where
  "collect_results [] = Inr []"
| "collect_results (Inl e # rs) = Inl e"
| "collect_results (Inr x # rs) =
     (case collect_results rs of Inl e \<Rightarrow> Inl e | Inr xs \<Rightarrow> Inr (x # xs))"

lemma collect_results_InrD: "collect_results rs = Inr xs \<Longrightarrow> rs = map Inr xs"
  by (induction rs arbitrary: xs rule: collect_results.induct) (auto split: sum.splits)

lemma collect_results_map_Inr [simp]: "collect_results (map Inr xs) = Inr xs"
  by (induction xs) auto

lemma collect_results_Inr_iff: "collect_results rs = Inr xs \<longleftrightarrow> rs = map Inr xs"
  by (auto dest: collect_results_InrD)

lemma collect_results_Inl_iff:
  "collect_results rs = Inl e \<longleftrightarrow> (\<exists>xs rs'. rs = map Inr xs @ Inl e # rs')"
proof (induction rs rule: collect_results.induct)
  case (2 e' rs)
  have "\<exists>xs rs'. Inl e' # rs = map Inr xs @ Inl e' # rs'"
    by (rule exI [of _ "[]"]) simp
  then show ?case by (auto simp: Cons_eq_append_conv map_eq_Cons_conv)
next
  case (3 x rs)
  have "(\<exists>xs rs'. Inr x # rs = map Inr xs @ Inl e # rs') \<longleftrightarrow>
        (\<exists>xs rs'. rs = map Inr xs @ Inl e # rs')"
    by (auto simp: Cons_eq_append_conv map_eq_Cons_conv) (metis list.simps(9))
  with 3 show ?case by (auto split: sum.splits)
qed simp

text \<open>\<open>Iterator::min_by_key\<close>: the first of the elements with the least key.\<close>

fun min_by_key :: "('a \<Rightarrow> 'k::linorder) \<Rightarrow> 'a list \<Rightarrow> 'a option" where
  "min_by_key f [] = None"
| "min_by_key f (x # xs) =
     (case min_by_key f xs of
        None \<Rightarrow> Some x
      | Some y \<Rightarrow> if f x \<le> f y then Some x else Some y)"

lemma min_by_key_None [simp]: "min_by_key f xs = None \<longleftrightarrow> xs = []"
  by (cases xs) (auto split: option.splits if_splits)

lemma min_by_key_Some:
  "min_by_key f xs = Some y \<Longrightarrow> y \<in> set xs \<and> (\<forall>x \<in> set xs. f y \<le> f x)"
proof (induction xs arbitrary: y)
  case (Cons x xs)
  then show ?case
    by (fastforce split: option.splits if_splits)
qed simp

lemma min_by_key_cong_set:
  assumes "set xs = set ys" and "inj_on f (set xs)"
  shows "min_by_key f xs = min_by_key f ys"
proof (cases "min_by_key f xs")
  case None
  with assms(1) show ?thesis by (metis min_by_key_None set_empty)
next
  case (Some a)
  with assms(1) obtain b where b: "min_by_key f ys = Some b"
    by (metis min_by_key_None not_Some_eq set_empty)
  have "a \<in> set xs" "b \<in> set xs" "f a \<le> f b" "f b \<le> f a"
    using min_by_key_Some [OF Some] min_by_key_Some [OF b] assms(1) by auto
  then have "a = b" using assms(2) by (auto dest: inj_onD)
  with Some b show ?thesis by simp
qed

text \<open>\<open>Iterator::position\<close>, \<open>Vec::remove\<close>, and \<open>iter_mut().find(..)\<close> followed by a change of
  the element found.\<close>

fun find_position :: "('a \<Rightarrow> bool) \<Rightarrow> 'a list \<Rightarrow> nat option" where
  "find_position P [] = None"
| "find_position P (x # xs) = (if P x then Some 0 else map_option Suc (find_position P xs))"

definition remove_nth :: "nat \<Rightarrow> 'a list \<Rightarrow> 'a list" where
  "remove_nth i xs = take i xs @ drop (Suc i) xs"

fun update_first :: "('a \<Rightarrow> bool) \<Rightarrow> ('a \<Rightarrow> 'a) \<Rightarrow> 'a list \<Rightarrow> 'a list" where
  "update_first P f [] = []"
| "update_first P f (x # xs) = (if P x then f x # xs else x # update_first P f xs)"

lemma find_position_None: "find_position P xs = None \<longleftrightarrow> (\<forall>x \<in> set xs. \<not> P x)"
  by (induction xs) auto

lemma find_position_Some:
  "find_position P xs = Some i \<Longrightarrow> i < length xs \<and> P (xs ! i) \<and> (\<forall>j < i. \<not> P (xs ! j))"
proof (induction xs arbitrary: i)
  case (Cons x xs)
  then show ?case by (fastforce simp: less_Suc_eq_0_disj split: if_splits)
qed simp

lemma remove_nth_filter:
  assumes "distinct (map f xs)" and "find_position (\<lambda>x. f x = k) xs = Some i"
  shows "remove_nth i xs = filter (\<lambda>x. f x \<noteq> k) xs"
  using assms
proof (induction xs arbitrary: i)
  case (Cons x xs)
  show ?case
  proof (cases "f x = k")
    case True
    with Cons.prems have "filter (\<lambda>x. f x \<noteq> k) xs = xs" by (auto simp: filter_id_conv image_iff)
    with True Cons.prems show ?thesis by (simp add: remove_nth_def)
  next
    case False
    with Cons show ?thesis by (auto simp: remove_nth_def)
  qed
qed simp

lemma find_append: "find P (xs @ ys) = (case find P xs of Some x \<Rightarrow> Some x | None \<Rightarrow> find P ys)"
  by (induction xs) auto

lemma find_filter: "(\<And>x. P x \<Longrightarrow> Q x) \<Longrightarrow> find P (filter Q xs) = find P xs"
  by (induction xs) auto

lemma find_filter_none: "(\<And>x. P x \<Longrightarrow> \<not> Q x) \<Longrightarrow> find P (filter Q xs) = None"
  by (induction xs) auto

lemma find_distinct:
  "distinct (map f xs) \<Longrightarrow> find (\<lambda>x. f x = k) xs = Some x \<longleftrightarrow> x \<in> set xs \<and> f x = k"
  by (induction xs) auto

lemma map_update_first: "(\<And>x. f (g x) = f x) \<Longrightarrow> map f (update_first P g xs) = map f xs"
  by (induction xs) auto

lemma update_first_const:
  "distinct (map f xs) \<Longrightarrow> x \<in> set xs \<Longrightarrow> f x = k \<Longrightarrow>
   update_first (\<lambda>y. f y = k) (\<lambda>_. g x) xs = update_first (\<lambda>y. f y = k) g xs"
  by (induction xs) auto

lemma set_update_first: "set (update_first P g xs) \<subseteq> set xs \<union> g ` {x \<in> set xs. P x}"
  by (induction xs) auto

lemma find_update_first:
  "(\<And>x. P x \<Longrightarrow> P (g x)) \<Longrightarrow> find P (update_first P g xs) = map_option g (find P xs)"
  by (induction xs) auto

lemma find_update_first_other:
  "(\<And>x. P x \<Longrightarrow> \<not> Q x \<and> \<not> Q (g x)) \<Longrightarrow> find Q (update_first P g xs) = find Q xs"
  by (induction xs) auto

text \<open>\<open>sort\<close> followed by \<open>dedup\<close>.\<close>

lemma sorted_distinct_remdups_adj: "sorted xs \<Longrightarrow> distinct (remdups_adj xs)"
  for xs :: "'a::linorder list"
  by (induction xs rule: remdups_adj.induct) force+

section \<open>Hash maps as association lists\<close>

abbreviation al_keys :: "('k \<times> 'v) list \<Rightarrow> 'k list" where
  "al_keys m \<equiv> map fst m"

abbreviation al_values :: "('k \<times> 'v) list \<Rightarrow> 'v list" where
  "al_values m \<equiv> map snd m"

text \<open>\<open>get_mut\<close> followed by an assignment: the entry is updated in place, if it exists.\<close>

definition al_modify :: "'k \<Rightarrow> ('v \<Rightarrow> 'v) \<Rightarrow> ('k \<times> 'v) list \<Rightarrow> ('k \<times> 'v) list" where
  "al_modify k f m = map (\<lambda>(k', v). (k', if k' = k then f v else v)) m"

text \<open>\<open>values_mut\<close>: every value is updated in place.\<close>

definition al_map :: "('v \<Rightarrow> 'v) \<Rightarrow> ('k \<times> 'v) list \<Rightarrow> ('k \<times> 'v) list" where
  "al_map f m = map (\<lambda>(k, v). (k, f v)) m"

text \<open>\<open>retain\<close>: only the entries that satisfy the predicate stay.\<close>

definition al_retain :: "('k \<Rightarrow> 'v \<Rightarrow> bool) \<Rightarrow> ('k \<times> 'v) list \<Rightarrow> ('k \<times> 'v) list" where
  "al_retain P m = filter (\<lambda>(k, v). P k v) m"

lemma al_keys_modify [simp]: "al_keys (al_modify k f m) = al_keys m"
  by (simp add: al_modify_def case_prod_beta o_def)

lemma al_keys_map [simp]: "al_keys (al_map f m) = al_keys m"
  by (simp add: al_map_def case_prod_beta o_def)

lemma distinct_al_retain [simp]: "distinct (al_keys m) \<Longrightarrow> distinct (al_keys (al_retain P m))"
  by (simp add: al_retain_def distinct_map_filter)

lemma map_of_al_modify [alist_simps]:
  "map_of (al_modify k f m) k' = (if k' = k then map_option f (map_of m k) else map_of m k')"
  by (induction m) (auto simp: al_modify_def)

lemma map_of_al_map [alist_simps]: "map_of (al_map f m) k = map_option f (map_of m k)"
  by (induction m) (auto simp: al_map_def)

lemma map_of_al_retain [alist_simps]:
  "distinct (al_keys m) \<Longrightarrow>
   map_of (al_retain P m) k = (case map_of m k of None \<Rightarrow> None | Some v \<Rightarrow> if P k v then Some v else None)"
  by (induction m) (auto simp: al_retain_def map_of_eq_None_iff split: option.splits)

lemma map_of_al_update [alist_simps]:
  "map_of (AList.update k v m) k' = (if k' = k then Some v else map_of m k')"
  by (simp add: update_conv)

lemma map_of_al_delete [alist_simps]:
  "map_of (AList.delete k m) k' = (if k' = k then None else map_of m k')"
  by (simp add: delete_conv)

lemma al_modify_compose: "al_modify k f (al_modify k g m) = al_modify k (f \<circ> g) m"
  by (simp add: al_modify_def case_prod_beta o_def)

lemma al_modify_cong_id:
  assumes "distinct (al_keys m)" and "\<And>v. map_of m k = Some v \<Longrightarrow> f v = v"
  shows "al_modify k f m = m"
proof -
  have "(case e of (k', v) \<Rightarrow> (k', if k' = k then f v else v)) = e" if "e \<in> set m" for e
  proof (cases e)
    case (Pair k' v)
    with that assms(1) have "map_of m k' = Some v" by simp
    with assms(2) Pair show ?thesis by auto
  qed
  then show ?thesis by (simp add: al_modify_def map_idI)
qed

lemma map_of_al_keys: "map_of m k = None \<longleftrightarrow> k \<notin> set (al_keys m)"
  by (simp add: map_of_eq_None_iff)

lemma set_al_values: "distinct (al_keys m) \<Longrightarrow> v \<in> set (al_values m) \<longleftrightarrow> (\<exists>k. map_of m k = Some v)"
  by (force simp: map_of_eq_Some_iff)

text \<open>Lookups stay lookups: they are not turned into membership in the list.\<close>

declare map_of_eq_Some_iff [simp del]

lemma al_update_new: "k \<notin> set (al_keys m) \<Longrightarrow> AList.update k v m = m @ [(k, v)]"
  by (induction m) auto

end
