(* ===== verification/Rust_Str.thy ===== *)
theory Rust_Str
  imports Prelude
begin

text \<open>
  Strings and byte slices. A Rust \<open>String\<close> or \<open>&str\<close> is its UTF-8 encoding, a list of
  characters read as bytes; a \<open>Vec<u8>\<close> has the same type. The functions of the standard
  library the sources use are defined on that encoding: searching, splitting, prefixes,
  trimming of Unicode white space, lines, ASCII case, UTF-8 validation.
\<close>

type_synonym bytes = "char list"

section \<open>Searching\<close>

text \<open>
  \<open>find_sub p xs\<close> is the least index at which \<open>p\<close> occurs in \<open>xs\<close>: \<open>str::find\<close>, and
  \<open>windows(n).position(|w| w == p)\<close> for a pattern of length \<open>n\<close>.
\<close>

fun strip_prefix :: "'a list \<Rightarrow> 'a list \<Rightarrow> 'a list option" where
  "strip_prefix [] ys = Some ys"
| "strip_prefix (x # xs) [] = None"
| "strip_prefix (x # xs) (y # ys) = (if x = y then strip_prefix xs ys else None)"

definition starts_with :: "'a list \<Rightarrow> 'a list \<Rightarrow> bool" where
  "starts_with p xs \<longleftrightarrow> strip_prefix p xs \<noteq> None"

fun find_sub :: "'a list \<Rightarrow> 'a list \<Rightarrow> nat option" where
  "find_sub p [] = (if p = [] then Some 0 else None)"
| "find_sub p (x # xs) =
     (if starts_with p (x # xs) then Some 0 else map_option Suc (find_sub p xs))"

lemma strip_prefix_Some_iff: "strip_prefix p xs = Some ys \<longleftrightarrow> xs = p @ ys"
  by (induction p xs rule: strip_prefix.induct) auto

lemma strip_prefix_append [simp]: "strip_prefix p (p @ ys) = Some ys"
  by (simp add: strip_prefix_Some_iff)

lemma starts_with_iff: "starts_with p xs \<longleftrightarrow> (\<exists>ys. xs = p @ ys)"
  by (auto simp: starts_with_def strip_prefix_Some_iff)

lemma starts_with_append [simp]: "starts_with p (p @ ys)"
  by (auto simp: starts_with_iff)

lemma find_sub_Some:
  "find_sub p xs = Some n \<Longrightarrow> xs = take n xs @ p @ drop (n + length p) xs \<and> n + length p \<le> length xs"
proof (induction xs arbitrary: n)
  case (Cons x xs)
  show ?case
  proof (cases "starts_with p (x # xs)")
    case True
    then obtain ys where "x # xs = p @ ys" by (auto simp: starts_with_iff)
    moreover from this have "length p \<le> length (x # xs)" by simp
    moreover have "n = 0" using True Cons.prems by simp
    ultimately show ?thesis by auto
  next
    case False
    with Cons.prems obtain m where "find_sub p xs = Some m" "n = Suc m" by auto
    with Cons.IH [of m] show ?thesis by auto
  qed
qed (auto split: if_splits)

lemma find_sub_None_iff: "find_sub p xs = None \<longleftrightarrow> (\<forall>us vs. xs \<noteq> us @ p @ vs)"
proof (induction xs)
  case (Cons x xs)
  then show ?case
    by (auto simp: starts_with_iff) (metis append_Cons append_Nil list.sel(3) neq_Nil_conv tl_append2)+
qed auto

text \<open>Text that follows a match does not move it.\<close>

lemma starts_with_extend: "starts_with p xs \<Longrightarrow> starts_with p (xs @ ys)"
  by (auto simp: starts_with_iff)

lemma find_sub_append: "find_sub p xs = Some n \<Longrightarrow> find_sub p (xs @ ys) = Some n"
proof (induction xs arbitrary: n)
  case Nil
  then show ?case by (cases ys) (auto simp: starts_with_def split: if_splits)
next
  case (Cons x xs)
  from Cons.prems have p: "length p \<le> Suc (length xs)"
    using find_sub_Some [OF Cons.prems] by (simp del: find_sub.simps)
  show ?case
  proof (cases "starts_with p (x # xs)")
    case True
    then have "starts_with p (x # xs @ ys)" using starts_with_extend [OF True, of ys] by simp
    with True Cons.prems show ?thesis by simp
  next
    case False
    have "\<not> starts_with p (x # xs @ ys)"
      using False p by (auto simp: starts_with_iff append_eq_append_conv2 simp flip: append_Cons)
    with False Cons show ?thesis by auto
  qed
qed

text \<open>A match can be placed: the prefix contains no earlier one.\<close>

definition occurs :: "'a list \<Rightarrow> 'a list \<Rightarrow> bool" where
  "occurs p xs \<longleftrightarrow> find_sub p xs \<noteq> None"

lemma occurs_iff: "occurs p xs \<longleftrightarrow> (\<exists>us vs. xs = us @ p @ vs)"
  by (auto simp: occurs_def find_sub_None_iff)

lemma find_sub_first:
  "find_sub p xs = Some n \<Longrightarrow> m < n \<Longrightarrow> \<not> starts_with p (drop m xs)"
proof (induction xs arbitrary: n m)
  case (Cons x xs)
  then show ?case by (cases m) (auto split: if_splits)
qed (auto split: if_splits)

lemma find_sub_eqI:
  assumes "starts_with p (drop n xs)" and "\<And>m. m < n \<Longrightarrow> \<not> starts_with p (drop m xs)" and "p \<noteq> []"
  shows "find_sub p xs = Some n"
  using assms
proof (induction xs arbitrary: n)
  case Nil
  then show ?case by (auto simp: starts_with_iff)
next
  case (Cons x xs)
  show ?case
  proof (cases n)
    case 0
    with Cons.prems show ?thesis by simp
  next
    case (Suc k)
    have "find_sub p xs = Some k"
    proof (rule Cons.IH)
      show "starts_with p (drop k xs)" using Cons.prems(1) Suc by simp
      show "\<not> starts_with p (drop m xs)" if "m < k" for m
        using Cons.prems(2) [of "Suc m"] that Suc by simp
    qed (rule Cons.prems(3))
    moreover have "\<not> starts_with p (x # xs)"
      using Cons.prems(2) [of 0] Suc by simp
    ultimately show ?thesis using Suc by simp
  qed
qed

text \<open>A pattern whose first character does not recur in it is found right behind any text that
  does not contain it.\<close>

lemma find_sub_place:
  assumes "c \<notin> set p" and "\<not> occurs (c # p) us"
  shows "find_sub (c # p) (us @ (c # p) @ vs) = Some (length us)"
proof (rule find_sub_eqI)
  fix m
  assume m: "m < length us"
  show "\<not> starts_with (c # p) (drop m (us @ (c # p) @ vs))"
  proof
    assume "starts_with (c # p) (drop m (us @ (c # p) @ vs))"
    then obtain rest where eq: "drop m us @ (c # p) @ vs = (c # p) @ rest"
      using m by (auto simp: starts_with_iff)
    consider q where "drop m us = (c # p) @ q" | q where "c # p = drop m us @ q" "q @ rest = (c # p) @ vs"
      using append_eq_append_conv2 [THEN iffD1, OF eq] by metis
    then show False
    proof cases
      case 1
      then have "us = take m us @ (c # p) @ q" by (metis append_take_drop_id)
      with assms(2) show False unfolding occurs_iff by blast
    next
      case 2
      show False
      proof (cases q)
        case Nil
        with 2(1) have "us = take m us @ (c # p) @ []" by (metis append.right_neutral append_take_drop_id)
        with assms(2) show False unfolding occurs_iff by blast
      next
        case (Cons d q')
        with 2(2) have "d = c" by simp
        moreover have "drop m us \<noteq> []" using m by simp
        ultimately have "c \<in> set p" using 2(1) Cons by (cases "drop m us") auto
        with assms(1) show False by simp
      qed
    qed
  qed
qed (auto simp: starts_with_iff)

section \<open>Trimming and splitting\<close>

text \<open>
  The UTF-8 encodings of the characters with the Unicode property \<open>White_Space\<close>, which
  \<open>str::trim\<close> and \<open>str::trim_start\<close> remove.
\<close>

definition white_space :: "bytes list" where
  "white_space =
     [[CHR 0x09], [CHR 0x0A], [CHR 0x0B], [CHR 0x0C], [CHR 0x0D], [CHR 0x20],
      [CHR 0xC2, CHR 0x85], [CHR 0xC2, CHR 0xA0], [CHR 0xE1, CHR 0x9A, CHR 0x80],
      [CHR 0xE2, CHR 0x80, CHR 0x80], [CHR 0xE2, CHR 0x80, CHR 0x81],
      [CHR 0xE2, CHR 0x80, CHR 0x82], [CHR 0xE2, CHR 0x80, CHR 0x83],
      [CHR 0xE2, CHR 0x80, CHR 0x84], [CHR 0xE2, CHR 0x80, CHR 0x85],
      [CHR 0xE2, CHR 0x80, CHR 0x86], [CHR 0xE2, CHR 0x80, CHR 0x87],
      [CHR 0xE2, CHR 0x80, CHR 0x88], [CHR 0xE2, CHR 0x80, CHR 0x89],
      [CHR 0xE2, CHR 0x80, CHR 0x8A], [CHR 0xE2, CHR 0x80, CHR 0xA8],
      [CHR 0xE2, CHR 0x80, CHR 0xA9], [CHR 0xE2, CHR 0x80, CHR 0xAF],
      [CHR 0xE2, CHR 0x81, CHR 0x9F], [CHR 0xE3, CHR 0x80, CHR 0x80]]"

fun strip_any :: "'a list list \<Rightarrow> 'a list \<Rightarrow> 'a list option" where
  "strip_any [] s = None"
| "strip_any (p # ps) s = (case strip_prefix p s of Some r \<Rightarrow> Some r | None \<Rightarrow> strip_any ps s)"

function trim_with :: "'a list list \<Rightarrow> 'a list \<Rightarrow> 'a list" where
  "trim_with ps s =
     (case strip_any ps s of
        None \<Rightarrow> s
      | Some r \<Rightarrow> if length r < length s then trim_with ps r else s)"
  by pat_completeness auto
termination by (relation "measure (\<lambda>(ps, s). length s)") auto

declare trim_with.simps [simp del]

definition trim_start :: "string \<Rightarrow> string" where
  "trim_start s = trim_with white_space s"

text \<open>The end is trimmed on the reversed text: on valid UTF-8 a suffix that is the encoding
  of a character is that character.\<close>

definition trim_end :: "string \<Rightarrow> string" where
  "trim_end s = rev (trim_with (map rev white_space) (rev s))"

definition str_trim :: "string \<Rightarrow> string" where
  "str_trim s = trim_end (trim_start s)"

text \<open>\<open>trim_end_matches('/')\<close>.\<close>

definition trim_end_slashes :: "string \<Rightarrow> string" where
  "trim_end_slashes s = rev (dropWhile (\<lambda>c. c = CHR ''/'') (rev s))"

text \<open>\<open>split_once\<close> on one character.\<close>

definition split_once :: "char \<Rightarrow> string \<Rightarrow> (string \<times> string) option" where
  "split_once c s =
     (if c \<in> set s then Some (takeWhile (\<lambda>d. d \<noteq> c) s, tl (dropWhile (\<lambda>d. d \<noteq> c) s)) else None)"

text \<open>\<open>str::lines\<close>: the pieces ended by a newline, without the newline and without one
  carriage return before it; a last piece without a newline is a line of its own, its
  carriage return kept.\<close>

definition strip_cr :: "string \<Rightarrow> string" where
  "strip_cr l = (if l \<noteq> [] \<and> last l = CHR 0x0D then butlast l else l)"

fun lines_acc :: "string \<Rightarrow> string \<Rightarrow> string list" where
  "lines_acc acc [] = (if acc = [] then [] else [rev acc])"
| "lines_acc acc (c # cs) =
     (if c = CHR 0x0A then strip_cr (rev acc) # lines_acc [] cs else lines_acc (c # acc) cs)"

definition str_lines :: "string \<Rightarrow> string list" where
  "str_lines s = lines_acc [] s"

text \<open>\<open>[..].join(sep)\<close>.\<close>

fun str_join :: "string \<Rightarrow> string list \<Rightarrow> string" where
  "str_join sep [] = []"
| "str_join sep [x] = x"
| "str_join sep (x # y # xs) = x @ sep @ str_join sep (y # xs)"

section \<open>ASCII classes and case\<close>

definition in_range :: "nat \<Rightarrow> nat \<Rightarrow> char \<Rightarrow> bool" where
  "in_range lo hi c \<longleftrightarrow> lo \<le> (of_char c :: nat) \<and> (of_char c :: nat) \<le> hi"

definition is_ascii_digit :: "char \<Rightarrow> bool" where
  "is_ascii_digit c \<longleftrightarrow> in_range 0x30 0x39 c"

definition is_ascii_alphanumeric :: "char \<Rightarrow> bool" where
  "is_ascii_alphanumeric c \<longleftrightarrow> is_ascii_digit c \<or> in_range 0x41 0x5A c \<or> in_range 0x61 0x7A c"

definition is_ascii_hexdigit :: "char \<Rightarrow> bool" where
  "is_ascii_hexdigit c \<longleftrightarrow> is_ascii_digit c \<or> in_range 0x41 0x46 c \<or> in_range 0x61 0x66 c"

definition to_ascii_lower :: "char \<Rightarrow> char" where
  "to_ascii_lower c = (if in_range 0x41 0x5A c then char_of ((of_char c :: nat) + 32) else c)"

definition to_ascii_lowercase :: "string \<Rightarrow> string" where
  "to_ascii_lowercase s = map to_ascii_lower s"

definition eq_ignore_ascii_case :: "string \<Rightarrow> string \<Rightarrow> bool" where
  "eq_ignore_ascii_case a b \<longleftrightarrow> to_ascii_lowercase a = to_ascii_lowercase b"

definition to_ascii_upper :: "char \<Rightarrow> char" where
  "to_ascii_upper c = (if in_range 0x61 0x7A c then char_of ((of_char c :: nat) - 32) else c)"

section \<open>UTF-8\<close>

text \<open>\<open>str::from_utf8\<close> accepts the sequences of the Unicode standard's table of well-formed
  byte sequences.\<close>

abbreviation is_cont :: "char \<Rightarrow> bool" where
  "is_cont c \<equiv> in_range 0x80 0xBF c"

definition utf8_three :: "char \<Rightarrow> char \<Rightarrow> bool" where
  "utf8_three a b \<longleftrightarrow>
     in_range 0xE0 0xE0 a \<and> in_range 0xA0 0xBF b \<or>
     (in_range 0xE1 0xEC a \<or> in_range 0xEE 0xEF a) \<and> is_cont b \<or>
     in_range 0xED 0xED a \<and> in_range 0x80 0x9F b"

definition utf8_four :: "char \<Rightarrow> char \<Rightarrow> bool" where
  "utf8_four a b \<longleftrightarrow>
     in_range 0xF0 0xF0 a \<and> in_range 0x90 0xBF b \<or>
     in_range 0xF1 0xF3 a \<and> is_cont b \<or>
     in_range 0xF4 0xF4 a \<and> in_range 0x80 0x8F b"

text \<open>The length of the well-formed character the bytes start with.\<close>

fun utf8_char :: "bytes \<Rightarrow> nat option" where
  "utf8_char [] = None"
| "utf8_char [a] = (if in_range 0 0x7F a then Some 1 else None)"
| "utf8_char [a, b] =
     (if in_range 0 0x7F a then Some 1
      else if in_range 0xC2 0xDF a \<and> is_cont b then Some 2 else None)"
| "utf8_char [a, b, c] =
     (if in_range 0 0x7F a then Some 1
      else if in_range 0xC2 0xDF a \<and> is_cont b then Some 2
      else if utf8_three a b \<and> is_cont c then Some 3 else None)"
| "utf8_char (a # b # c # d # _) =
     (if in_range 0 0x7F a then Some 1
      else if in_range 0xC2 0xDF a \<and> is_cont b then Some 2
      else if utf8_three a b \<and> is_cont c then Some 3
      else if utf8_four a b \<and> is_cont c \<and> is_cont d then Some 4 else None)"

lemma utf8_char_inside: "utf8_char s = Some n \<Longrightarrow> 0 < n \<and> n \<le> length s"
  by (induction s rule: utf8_char.induct) (auto split: if_splits)

function utf8_valid :: "bytes \<Rightarrow> bool" where
  "utf8_valid s \<longleftrightarrow>
     s = [] \<or> (case utf8_char s of None \<Rightarrow> False | Some n \<Rightarrow> utf8_valid (drop n s))"
  by pat_completeness auto
termination
  by (relation "measure length") (auto dest: utf8_char_inside)

declare utf8_valid.simps [simp del]

lemma utf8_valid_Nil [simp]: "utf8_valid []"
  by (simp add: utf8_valid.simps)

lemma utf8_valid_char: "utf8_char s = Some n \<Longrightarrow> utf8_valid s \<longleftrightarrow> utf8_valid (drop n s)"
  by (subst utf8_valid.simps) auto

lemma utf8_valid_ascii [simp]: "in_range 0 0x7F a \<Longrightarrow> utf8_valid (a # s) \<longleftrightarrow> utf8_valid s"
  by (subst utf8_valid_char [of _ 1]) (induction "a # s" rule: utf8_char.induct, auto)

text \<open>Two lead bytes of different classes never agree, so more bytes do not change a character.\<close>

lemma utf8_lead_disjoint:
  "utf8_three a b \<Longrightarrow> \<not> in_range 0 0x7F a \<and> \<not> in_range 0xC2 0xDF a"
  by (auto simp: utf8_three_def in_range_def)

lemma utf8_char_append: "utf8_char s = Some n \<Longrightarrow> utf8_char (s @ r) = Some n"
proof (induction s rule: utf8_char.induct)
  case (2 a)
  then show ?case by (cases "a # r" rule: utf8_char.cases) (auto split: if_splits)
next
  case (3 a b)
  then show ?case by (cases "a # b # r" rule: utf8_char.cases) (auto split: if_splits)
next
  case (4 a b c)
  then show ?case by (cases r) (auto split: if_splits)
qed auto

lemma utf8_valid_append: "utf8_valid a \<Longrightarrow> utf8_valid (a @ b) \<longleftrightarrow> utf8_valid b"
proof (induction a rule: utf8_valid.induct)
  case (1 a)
  show ?case
  proof (cases "a = []")
    case False
    with "1.prems" obtain n where n: "utf8_char a = Some n" "utf8_valid (drop n a)"
      by (subst (asm) utf8_valid.simps) (auto split: option.splits)
    then have "utf8_valid (drop n a @ b) \<longleftrightarrow> utf8_valid b"
      using False "1.IH" by blast
    then show ?thesis
      using utf8_valid_char [OF utf8_char_append [OF n(1)], of b] utf8_char_inside [OF n(1)] by simp
  qed simp
qed

text \<open>\<open>String::from_utf8_lossy\<close>: the longest prefix of an ill-formed sequence that could start a
  character, or else one byte, becomes one replacement character.\<close>

fun utf8_error_len :: "bytes \<Rightarrow> nat" where
  "utf8_error_len (a # b # rest) =
     (if utf8_three a b then 2
      else if utf8_four a b then (case rest of c # _ \<Rightarrow> if is_cont c then 3 else 2 | [] \<Rightarrow> 2)
      else 1)"
| "utf8_error_len _ = 1"

lemma utf8_error_len_pos: "0 < utf8_error_len s"
  by (cases s rule: utf8_error_len.cases) (auto split: list.split)

function utf8_lossy :: "bytes \<Rightarrow> string" where
  "utf8_lossy s =
     (if s = [] then []
      else case utf8_char s of
        Some n \<Rightarrow> take n s @ utf8_lossy (drop n s)
      | None \<Rightarrow> CHR 0xEF # CHR 0xBF # CHR 0xBD # utf8_lossy (drop (utf8_error_len s) s))"
  by pat_completeness auto
termination
  by (relation "measure length") (auto dest: utf8_char_inside simp: utf8_error_len_pos)

declare utf8_lossy.simps [simp del]

lemma utf8_lossy_valid: "utf8_valid s \<Longrightarrow> utf8_lossy s = s"
proof (induction s rule: utf8_valid.induct)
  case (1 s)
  show ?case
  proof (cases "s = []")
    case True
    then show ?thesis by (simp add: utf8_lossy.simps)
  next
    case False
    with "1.prems" obtain n where "utf8_char s = Some n" "utf8_valid (drop n s)"
      by (subst (asm) utf8_valid.simps) (auto split: option.splits)
    with False "1.IH" show ?thesis by (subst utf8_lossy.simps) simp
  qed
qed

text \<open>\<open>chars().take(n).collect()\<close> of a well-formed string.\<close>

primrec utf8_take :: "nat \<Rightarrow> string \<Rightarrow> string" where
  "utf8_take 0 s = []"
| "utf8_take (Suc n) s = (case utf8_char s of Some k \<Rightarrow> take k s @ utf8_take n (drop k s) | None \<Rightarrow> [])"

text \<open>\<open>chars()\<close> of a well-formed string, each character by its bytes.\<close>

function utf8_chars :: "string \<Rightarrow> bytes list" where
  "utf8_chars s = (case utf8_char s of Some n \<Rightarrow> take n s # utf8_chars (drop n s) | None \<Rightarrow> [])"
  by pat_completeness auto
termination
  by (relation "measure length") (auto dest: utf8_char_inside)

declare utf8_chars.simps [simp del]

lemma utf8_char_take: "utf8_char s = Some n \<Longrightarrow> utf8_char (take n s) = Some n"
  by (induction s rule: utf8_char.induct) (auto split: if_splits)

lemma utf8_chars_char: "c \<in> set (utf8_chars s) \<Longrightarrow> utf8_char c = Some (length c) \<and> c \<noteq> []"
proof (induction s rule: utf8_chars.induct)
  case (1 s)
  from "1.prems" obtain n where n: "utf8_char s = Some n" and c: "c = take n s \<or> c \<in> set (utf8_chars (drop n s))"
    using utf8_chars.simps [of s] by (auto split: option.splits)
  from c show ?case
  proof
    assume "c = take n s"
    then show ?thesis using utf8_char_inside [OF n] utf8_char_take [OF n] by (auto simp: min_def)
  qed (rule "1.IH" [OF n])
qed

lemma utf8_chars_cons: "utf8_char c = Some (length c) \<Longrightarrow> utf8_chars (c @ s) = c # utf8_chars s"
  by (subst utf8_chars.simps) (simp add: utf8_char_append)

lemma utf8_chars_concat:
  "\<forall>c \<in> set cs. utf8_char c = Some (length c) \<Longrightarrow> utf8_chars (concat cs @ s) = cs @ utf8_chars s"
  by (induction cs) (simp_all add: utf8_chars_cons)

lemma utf8_chars_ascii: "list_all (in_range 0 0x7F) s \<Longrightarrow> utf8_chars s = map (\<lambda>c. [c]) s"
proof (induction s)
  case (Cons c s)
  then have "utf8_char [c] = Some (length [c])" by simp
  from utf8_chars_cons [OF this, of s] Cons show ?case by simp
qed (simp add: utf8_chars.simps)

text \<open>The horizontal ellipsis of the status lines.\<close>

definition ellipsis :: string where
  "ellipsis = [CHR 0xE2, CHR 0x80, CHR 0xA6]"

section \<open>Debug formatting\<close>

text \<open>
  \<open>{:?}\<close> of a string: quotes, backslash and control characters are escaped. Characters
  outside ASCII are kept (Rust also escapes the few of them that are not printable).
\<close>

definition hex_digit :: "nat \<Rightarrow> char" where
  "hex_digit n = (if n < 10 then char_of (0x30 + n) else char_of (0x57 + n))"

definition hex_str :: "nat \<Rightarrow> string" where
  "hex_str n = (if n < 16 then [hex_digit n] else [hex_digit (n div 16), hex_digit (n mod 16)])"

definition escape_debug :: "char \<Rightarrow> string" where
  "escape_debug c =
     (if c = CHR 0x22 then [CHR 0x5C, CHR 0x22]
      else if c = CHR 0x5C then [CHR 0x5C, CHR 0x5C]
      else if c = CHR 0x0A then [CHR 0x5C, CHR ''n'']
      else if c = CHR 0x0D then [CHR 0x5C, CHR ''r'']
      else if c = CHR 0x09 then [CHR 0x5C, CHR ''t'']
      else if c = CHR 0x00 then [CHR 0x5C, CHR ''0'']
      else if in_range 0x01 0x1F c \<or> c = CHR 0x7F
        then CHR 0x5C # ''u{'' @ hex_str (of_char c) @ ''}''
      else [c])"

definition str_debug :: "string \<Rightarrow> string" where
  "str_debug s = CHR 0x22 # concat (map escape_debug s) @ [CHR 0x22]"

section \<open>Decimal numbers\<close>

fun show_nat :: "nat \<Rightarrow> string" where
  "show_nat n =
     (if n < 10 then [char_of (48 + n)] else show_nat (n div 10) @ [char_of (48 + n mod 10)])"

declare show_nat.simps [simp del]

text \<open>The value of a text of decimal digits; the text of a number has the number as its value.\<close>

definition digit_value :: "char \<Rightarrow> nat" where
  "digit_value c = of_char c - 48"

definition decimal_value :: "string \<Rightarrow> nat" where
  "decimal_value ds = foldl (\<lambda>n c. 10 * n + digit_value c) 0 ds"

lemma decimal_value_snoc: "decimal_value (ds @ [c]) = 10 * decimal_value ds + digit_value c"
  by (simp add: decimal_value_def)

lemma digit_char:
  assumes "n < 10"
  shows "digit_value (char_of (48 + n)) = n" "is_ascii_digit (char_of (48 + n))"
  using assms by (simp_all add: digit_value_def is_ascii_digit_def in_range_def of_char_of take_bit_nat_def)

lemma show_nat_digits:
  "show_nat n \<noteq> [] \<and> list_all is_ascii_digit (show_nat n) \<and> decimal_value (show_nat n) = n"
proof (induction n rule: show_nat.induct)
  case (1 n)
  show ?case
  proof (cases "n < 10")
    case True
    then show ?thesis
      using digit_char [OF True] by (simp add: show_nat.simps [of n] decimal_value_def)
  next
    case False
    then have "show_nat n = show_nat (n div 10) @ [char_of (48 + n mod 10)]" by (simp add: show_nat.simps [of n])
    then show ?thesis
      using "1.IH" [OF False] digit_char [of "n mod 10"] by (simp add: decimal_value_snoc)
  qed
qed

end
