(* ===== verification/Core_Types.thy ===== *)
theory Core_Types
  imports Rust_Str
begin

text \<open>
  The data types of \<open>crates/decompute-core/src/chat.rs\<close> and \<open>models.rs\<close>: chat messages,
  tool definitions and calls, model manifests, hardware. The fields carry the initials of
  their struct as a prefix. \<open>json_value\<close> has the public variants of \<open>serde_json::Value\<close>
  that the sources match on; a number is opaque text. Parsing and printing JSON are
  parameters of the definitions that use them.
\<close>

section \<open>JSON values\<close>

datatype json_value =
    JNull
  | JBool bool
  | JNumber string
  | JString string
  | JArray "json_value list"
  | JObject "(string \<times> json_value) list"

definition is_object :: "json_value \<Rightarrow> bool" where
  "is_object v = (case v of JObject _ \<Rightarrow> True | _ \<Rightarrow> False)"

text \<open>\<open>Value::get\<close> with a string key, and \<open>Value::as_str\<close>.\<close>

definition json_get :: "string \<Rightarrow> json_value \<Rightarrow> json_value option" where
  "json_get k v = (case v of JObject fields \<Rightarrow> map_of fields k | _ \<Rightarrow> None)"

definition as_str :: "json_value \<Rightarrow> string option" where
  "as_str v = (case v of JString s \<Rightarrow> Some s | _ \<Rightarrow> None)"

lemma is_object_JObject [simp]: "is_object (JObject fs)"
  by (simp add: is_object_def)

lemma is_object_iff: "is_object v \<longleftrightarrow> (\<exists>fs. v = JObject fs)"
  by (cases v) (auto simp: is_object_def)

section \<open>Chat messages and tools\<close>

datatype chat_role = System | User | Assistant | Tool

datatype tool_type = Function

record function_definition =
  fd_name :: string
  fd_description :: "string option"
  fd_parameters :: json_value

record tool_definition =
  td_kind :: tool_type
  td_function :: function_definition

record function_call =
  fc_name :: string
  fc_arguments :: json_value

record tool_call =
  tc_id :: string
  tc_kind :: tool_type
  tc_function :: function_call

record chat_message =
  cm_role :: chat_role
  cm_content :: string
  cm_tool_calls :: "tool_call list"
  cm_tool_call_id :: "string option"

datatype finish_reason = Stop | ToolCalls

section \<open>Models and hardware\<close>

record model_file =
  mf_path :: string
  mf_sha256 :: string

record model_manifest =
  mm_id :: string
  mm_architecture :: string
  mm_revision :: string
  mm_quantization :: "string option"
  mm_files :: "model_file list"

datatype acceleration = Cpu | Metal | Cuda

record hardware_info =
  hw_architecture :: string
  hw_total_memory_bytes :: u64
  hw_available_memory_bytes :: u64
  hw_acceleration :: acceleration

end
