(* ===== verification/Tool_History.thy ===== *)
theory Tool_History
  imports Core_Types
begin

text \<open>
  \<open>validate_tool_history\<close> of \<open>crates/decompute-core/src/chat.rs\<close>: the check of the
  assistant/tool message protocol that the coordinator and the worker run before inference.
  The loop's two collections are the queue \<open>pending\<close> and the set \<open>pending_ids\<close>. The
  specification reads a history as a word of calls, results and barriers; the lemmas show
  that the loop accepts exactly the words in which the results answer the calls in order.
\<close>

section \<open>The code\<close>

datatype tool_history_error =
    ToolCallsOnNonAssistant
  | EmptyToolCallId
  | DuplicateToolCallId
  | AssistantHasToolCallId
  | UndeclaredTool string
  | MissingToolCallId
  | ToolResultHasToolCalls
  | InvalidToolArguments
  | ToolResultOutOfOrder (expected: string) (actual: string)
  | UnknownToolCallId string
  | UnresolvedToolCalls

fun tool_history_error_to_string :: "tool_history_error \<Rightarrow> string" where
  "tool_history_error_to_string ToolCallsOnNonAssistant =
     ''tool calls are only valid on assistant messages''"
| "tool_history_error_to_string EmptyToolCallId = ''tool call ids must be non-empty''"
| "tool_history_error_to_string DuplicateToolCallId =
     ''tool call ids must be unique within a response''"
| "tool_history_error_to_string AssistantHasToolCallId =
     ''assistant messages may not include tool_call_id''"
| "tool_history_error_to_string (UndeclaredTool n) =
     ''tool call name '' @ str_debug n @ '' was not declared''"
| "tool_history_error_to_string MissingToolCallId = ''tool results must include a tool_call_id''"
| "tool_history_error_to_string ToolResultHasToolCalls = ''tool results may not include tool_calls''"
| "tool_history_error_to_string InvalidToolArguments = ''tool call arguments must be a JSON object''"
| "tool_history_error_to_string (ToolResultOutOfOrder e a) =
     ''tool result '' @ str_debug a @ '' must follow tool call '' @ str_debug e"
| "tool_history_error_to_string (UnknownToolCallId i) =
     ''tool result references unknown or already-consumed call '' @ str_debug i"
| "tool_history_error_to_string UnresolvedToolCalls = ''tool call history has unresolved calls''"

text \<open>The inner loop over the calls of one assistant message.\<close>

fun check_calls ::
  "string set \<Rightarrow> tool_call list \<Rightarrow> string set \<Rightarrow> string list \<Rightarrow> string set \<Rightarrow>
   tool_history_error + string list \<times> string set" where
  "check_calls declared [] response_ids pending pending_ids = Inr (pending, pending_ids)"
| "check_calls declared (call # calls) response_ids pending pending_ids =
     (if tc_id call = [] then Inl EmptyToolCallId
      else if tc_id call \<in> response_ids \<or> tc_id call \<in> pending_ids then Inl DuplicateToolCallId
      else if fc_name (tc_function call) \<notin> declared
        then Inl (UndeclaredTool (fc_name (tc_function call)))
      else if \<not> is_object (fc_arguments (tc_function call)) then Inl InvalidToolArguments
      else check_calls declared calls (insert (tc_id call) response_ids)
             (pending @ [tc_id call]) (insert (tc_id call) pending_ids))"

definition check_tool_result ::
  "chat_message \<Rightarrow> string list \<Rightarrow> string set \<Rightarrow> tool_history_error + string list \<times> string set" where
  "check_tool_result m pending pending_ids =
     (if cm_tool_calls m \<noteq> [] then Inl ToolResultHasToolCalls
      else case cm_tool_call_id m of
        None \<Rightarrow> Inl MissingToolCallId
      | Some i \<Rightarrow>
          if i = [] then Inl MissingToolCallId
          else case pending of
            [] \<Rightarrow> Inl (UnknownToolCallId i)
          | e # rest \<Rightarrow>
              if e \<noteq> i
              then (if i \<in> pending_ids then Inl (ToolResultOutOfOrder e i)
                    else Inl (UnknownToolCallId i))
              else Inr (rest, pending_ids - {i}))"

definition check_message ::
  "string set \<Rightarrow> chat_message \<Rightarrow> string list \<Rightarrow> string set \<Rightarrow>
   tool_history_error + string list \<times> string set" where
  "check_message declared m pending pending_ids =
     (case cm_role m of
        Assistant \<Rightarrow>
          if cm_tool_call_id m \<noteq> None then Inl AssistantHasToolCallId
          else check_calls declared (cm_tool_calls m) {} pending pending_ids
      | Tool \<Rightarrow> check_tool_result m pending pending_ids
      | _ \<Rightarrow>
          if cm_tool_calls m \<noteq> [] \<or> cm_tool_call_id m \<noteq> None then Inl ToolCallsOnNonAssistant
          else if pending \<noteq> [] then Inl UnresolvedToolCalls
          else Inr (pending, pending_ids))"

fun check_messages ::
  "string set \<Rightarrow> chat_message list \<Rightarrow> string list \<Rightarrow> string set \<Rightarrow>
   tool_history_error + string list \<times> string set" where
  "check_messages declared [] pending pending_ids = Inr (pending, pending_ids)"
| "check_messages declared (m # ms) pending pending_ids =
     (case check_message declared m pending pending_ids of
        Inl e \<Rightarrow> Inl e
      | Inr (pending', pending_ids') \<Rightarrow> check_messages declared ms pending' pending_ids')"

definition declared_names :: "tool_definition list \<Rightarrow> string set" where
  "declared_names tools = set (map (\<lambda>tool. fd_name (td_function tool)) tools)"

definition validate_tool_history ::
  "chat_message list \<Rightarrow> tool_definition list \<Rightarrow> tool_history_error + unit" where
  "validate_tool_history messages tools =
     (case check_messages (declared_names tools) messages [] {} of
        Inl e \<Rightarrow> Inl e
      | Inr (pending, _) \<Rightarrow> if pending = [] then Inr () else Inl UnresolvedToolCalls)"

section \<open>The two collections agree\<close>

text \<open>A call is acceptable on its own: an id, a declared name, an object of arguments.\<close>

definition call_ok :: "string set \<Rightarrow> tool_call \<Rightarrow> bool" where
  "call_ok declared call \<longleftrightarrow>
     tc_id call \<noteq> [] \<and> fc_name (tc_function call) \<in> declared \<and>
     is_object (fc_arguments (tc_function call))"

definition message_ok :: "string set \<Rightarrow> chat_message \<Rightarrow> bool" where
  "message_ok declared m \<longleftrightarrow>
     (case cm_role m of
        Assistant \<Rightarrow> cm_tool_call_id m = None \<and> (\<forall>call \<in> set (cm_tool_calls m). call_ok declared call)
      | Tool \<Rightarrow> cm_tool_calls m = [] \<and> (\<exists>i. cm_tool_call_id m = Some i \<and> i \<noteq> [])
      | _ \<Rightarrow> cm_tool_calls m = [] \<and> cm_tool_call_id m = None)"

lemma check_calls_iff:
  assumes "R \<subseteq> set P"
  shows "check_calls D cs R P (set P) = Inr r \<longleftrightarrow>
    (\<forall>c \<in> set cs. call_ok D c) \<and> distinct (map tc_id cs) \<and> set (map tc_id cs) \<inter> set P = {} \<and>
    r = (P @ map tc_id cs, set (P @ map tc_id cs))"
  using assms
proof (induction cs arbitrary: R P)
  case Nil
  then show ?case by auto
next
  case (Cons c cs)
  have "check_calls D cs (insert (tc_id c) R) (P @ [tc_id c]) (insert (tc_id c) (set P)) = Inr r \<longleftrightarrow>
    (\<forall>c \<in> set cs. call_ok D c) \<and> distinct (map tc_id cs) \<and>
    set (map tc_id cs) \<inter> set (P @ [tc_id c]) = {} \<and>
    r = ((P @ [tc_id c]) @ map tc_id cs, set ((P @ [tc_id c]) @ map tc_id cs))"
    using Cons.IH [of "insert (tc_id c) R" "P @ [tc_id c]"] Cons.prems by (auto simp: insert_commute)
  with Cons.prems show ?case
    by (auto simp: call_ok_def)
qed

section \<open>Specification: words of calls, results and barriers\<close>

datatype history_event = Call string | Result string | Barrier

fun message_events :: "chat_message \<Rightarrow> history_event list" where
  "message_events m =
     (case cm_role m of
        Assistant \<Rightarrow> map (\<lambda>call. Call (tc_id call)) (cm_tool_calls m)
      | Tool \<Rightarrow> [Result (the (cm_tool_call_id m))]
      | _ \<Rightarrow> [Barrier])"

abbreviation history_events :: "chat_message list \<Rightarrow> history_event list" where
  "history_events ms \<equiv> concat (map message_events ms)"

text \<open>The queue automaton: the simplest machine that answers calls in order.\<close>

fun fifo :: "string list \<Rightarrow> history_event list \<Rightarrow> string list option" where
  "fifo q [] = Some q"
| "fifo q (Call i # es) = (if i \<in> set q then None else fifo (q @ [i]) es)"
| "fifo q (Result i # es) =
     (case q of [] \<Rightarrow> None | e # rest \<Rightarrow> if e = i then fifo rest es else None)"
| "fifo q (Barrier # es) = (if q = [] then fifo [] es else None)"

fun calls_of :: "history_event list \<Rightarrow> string list" where
  "calls_of [] = []"
| "calls_of (Call i # es) = i # calls_of es"
| "calls_of (_ # es) = calls_of es"

fun results_of :: "history_event list \<Rightarrow> string list" where
  "results_of [] = []"
| "results_of (Result i # es) = i # results_of es"
| "results_of (_ # es) = results_of es"

text \<open>
  What one event may be after the events \<open>us\<close>, with \<open>q\<close> outstanding at the start: a call id
  is not outstanding, a result answers the oldest outstanding call, a barrier finds none.
\<close>

definition event_allowed :: "string list \<Rightarrow> history_event list \<Rightarrow> history_event \<Rightarrow> bool" where
  "event_allowed q us e \<longleftrightarrow>
     (let issued = q @ calls_of us; answered = length (results_of us) in
      case e of
        Call i \<Rightarrow> i \<notin> set (drop answered issued)
      | Result i \<Rightarrow> answered < length issued \<and> issued ! answered = i
      | Barrier \<Rightarrow> answered = length issued)"

definition answered_in_order :: "string list \<Rightarrow> history_event list \<Rightarrow> bool" where
  "answered_in_order q es \<longleftrightarrow> (\<forall>us e vs. es = us @ e # vs \<longrightarrow> event_allowed q us e)"

lemma answered_in_order_Nil [simp]: "answered_in_order q []"
  by (simp add: answered_in_order_def)

lemma answered_in_order_Cons:
  "answered_in_order q (e # es) \<longleftrightarrow>
   event_allowed q [] e \<and> (\<forall>us e' vs. es = us @ e' # vs \<longrightarrow> event_allowed q (e # us) e')"
  by (auto simp: answered_in_order_def Cons_eq_append_conv)

lemma event_allowed_Call: "event_allowed q (Call i # us) e \<longleftrightarrow> event_allowed (q @ [i]) us e"
  by (simp add: event_allowed_def)

lemma event_allowed_Result: "event_allowed (i # q) (Result i # us) e \<longleftrightarrow> event_allowed q us e"
  by (simp add: event_allowed_def Let_def split: history_event.splits)

lemma event_allowed_Barrier: "event_allowed [] (Barrier # us) e \<longleftrightarrow> event_allowed [] us e"
  by (simp add: event_allowed_def)

lemmas event_allowed_shift = event_allowed_Call event_allowed_Result event_allowed_Barrier

lemma fifo_iff: "(\<exists>q'. fifo q es = Some q') \<longleftrightarrow> answered_in_order q es"
proof (induction q es rule: fifo.induct)
  case (2 q i es)
  then show ?case
    by (auto simp: answered_in_order_Cons event_allowed_Call)
      (auto simp: answered_in_order_def event_allowed_def)
next
  case (3 q i es)
  then show ?case
  proof (cases q)
    case Nil
    then show ?thesis by (simp add: answered_in_order_Cons event_allowed_def)
  next
    case (Cons e rest)
    show ?thesis
    proof (cases "e = i")
      case True
      with Cons 3 show ?thesis
        by (auto simp: answered_in_order_Cons event_allowed_Result)
          (auto simp: answered_in_order_def event_allowed_def)
    next
      case False
      with Cons show ?thesis by (simp add: answered_in_order_Cons event_allowed_def)
    qed
  qed
next
  case (4 q es)
  then show ?case
    by (cases "q = []")
      (auto simp: answered_in_order_Cons event_allowed_Barrier event_allowed_def,
       auto simp: answered_in_order_def event_allowed_def)
qed simp

lemma fifo_balance: "fifo q es = Some q' \<Longrightarrow> q @ calls_of es = results_of es @ q'"
  by (induction q es rule: fifo.induct) (auto split: if_splits list.splits)

lemma fifo_append:
  "fifo q (us @ vs) = (case fifo q us of None \<Rightarrow> None | Some q' \<Rightarrow> fifo q' vs)"
  by (induction q us rule: fifo.induct) (auto split: list.splits)

lemma fifo_distinct: "fifo q es = Some q' \<Longrightarrow> distinct q \<Longrightarrow> distinct q'"
  by (induction q es rule: fifo.induct) (auto split: if_splits list.splits)

section \<open>The loop implements the queue\<close>

lemma fifo_calls:
  "fifo q (map (\<lambda>c. Call (tc_id c)) cs) =
     (if distinct (map tc_id cs) \<and> set (map tc_id cs) \<inter> set q = {}
      then Some (q @ map tc_id cs) else None)"
  by (induction cs arbitrary: q) auto

lemma check_message_iff:
  assumes "distinct P"
  shows "check_message D m P (set P) = Inr (P', I') \<longleftrightarrow>
    message_ok D m \<and> fifo P (message_events m) = Some P' \<and> I' = set P'"
proof (cases "cm_role m")
  case Assistant
  then show ?thesis
    by (auto simp: check_message_def message_ok_def check_calls_iff fifo_calls)
next
  case Tool
  with assms show ?thesis
    by (auto simp: check_message_def check_tool_result_def message_ok_def
        split: option.splits list.splits if_splits)
qed (auto simp: check_message_def message_ok_def)

lemma check_messages_iff:
  assumes "distinct P"
  shows "check_messages D ms P (set P) = Inr (P', I') \<longleftrightarrow>
    (\<forall>m \<in> set ms. message_ok D m) \<and> fifo P (history_events ms) = Some P' \<and> I' = set P'"
  using assms
proof (induction ms arbitrary: P)
  case Nil
  then show ?case by auto
next
  case (Cons m ms)
  show ?case
  proof (cases "check_message D m P (set P)")
    case (Inl e)
    then have "\<not> (message_ok D m \<and> (\<exists>q. fifo P (message_events m) = Some q))"
      using check_message_iff [OF Cons.prems, of D m] by (metis Inl_Inr_False)
    with Inl show ?thesis
      by (auto simp: fifo_append simp del: message_events.simps split: option.splits)
  next
    case (Inr r)
    then obtain Q J where r: "check_message D m P (set P) = Inr (Q, J)" by (cases r) auto
    then have m: "message_ok D m" "fifo P (message_events m) = Some Q" "J = set Q"
      using check_message_iff [OF Cons.prems] by auto
    moreover have "distinct Q" using fifo_distinct [OF m(2)] Cons.prems by simp
    ultimately show ?thesis
      using r Cons.IH by (auto simp: fifo_append simp del: message_events.simps)
  qed
qed

lemma check_messages_append:
  "check_messages D (ms @ ns) P I =
     (case check_messages D ms P I of Inl e \<Rightarrow> Inl e | Inr (P', I') \<Rightarrow> check_messages D ns P' I')"
  by (induction ms arbitrary: P I) (auto split: sum.splits prod.splits)

lemma validate_tool_history_fifo:
  "validate_tool_history ms tools = Inr () \<longleftrightarrow>
     (\<forall>m \<in> set ms. message_ok (declared_names tools) m) \<and> fifo [] (history_events ms) = Some []"
proof -
  have eq: "check_messages (declared_names tools) ms [] {} = Inr (P', I') \<longleftrightarrow>
      (\<forall>m \<in> set ms. message_ok (declared_names tools) m) \<and>
      fifo [] (history_events ms) = Some P' \<and> I' = set P'" for P' I'
    using check_messages_iff [of "[]" "declared_names tools" ms P' I'] by simp
  show ?thesis
  proof (cases "check_messages (declared_names tools) ms [] {}")
    case (Inl e)
    with eq [of "[]" "{}"] show ?thesis by (simp add: validate_tool_history_def)
  next
    case (Inr r)
    then obtain P I where r: "check_messages (declared_names tools) ms [] {} = Inr (P, I)"
      by (cases r) auto
    with eq [of P I] eq [of "[]" "{}"] show ?thesis
      by (auto simp: validate_tool_history_def)
  qed
qed

text \<open>
  C12. \<open>validate_tool_history\<close> accepts a history exactly when every message is well formed
  for its role, every result answers the oldest call still outstanding (and every user or
  system message finds none outstanding, and no call reuses an outstanding id), and at the
  end the ids of the results are the ids of the calls, in the same order.
\<close>

theorem validate_tool_history_correct:
  "validate_tool_history ms tools = Inr () \<longleftrightarrow>
     (\<forall>m \<in> set ms. message_ok (declared_names tools) m) \<and>
     answered_in_order [] (history_events ms) \<and>
     results_of (history_events ms) = calls_of (history_events ms)"
proof -
  have "fifo [] (history_events ms) = Some [] \<longleftrightarrow>
      answered_in_order [] (history_events ms) \<and>
      results_of (history_events ms) = calls_of (history_events ms)"
    using fifo_iff [of "[]" "history_events ms"] fifo_balance [of "[]" "history_events ms"] by auto
  then show ?thesis by (simp add: validate_tool_history_fifo)
qed

section \<open>The errors\<close>

text \<open>
  After a well-formed prefix the state of the loop is the queue of outstanding calls, so
  the answer to the next message depends on that queue alone.
\<close>

lemma validate_after_prefix:
  assumes "\<forall>m \<in> set pre. message_ok (declared_names tools) m"
    and "fifo [] (history_events pre) = Some q"
  shows "validate_tool_history (pre @ m # post) tools =
    (case check_message (declared_names tools) m q (set q) of
       Inl e \<Rightarrow> Inl e
     | Inr (P, I) \<Rightarrow>
         (case check_messages (declared_names tools) post P I of
            Inl e \<Rightarrow> Inl e
          | Inr (P', _) \<Rightarrow> if P' = [] then Inr () else Inl UnresolvedToolCalls))"
proof -
  have "check_messages (declared_names tools) pre [] {} = Inr (q, set q)"
    using assms check_messages_iff [of "[]" "declared_names tools" pre q "set q"] by simp
  then show ?thesis
    by (auto simp: validate_tool_history_def check_messages_append split: sum.splits prod.splits)
qed

text \<open>
  After any well-formed prefix with outstanding calls \<open>e # rest\<close>, a tool result for an
  id other than \<open>e\<close> is rejected, whatever follows: as out of order (naming both ids) when its
  id is outstanding behind \<open>e\<close>, as unknown otherwise.
\<close>

theorem wrong_result_rejected:
  assumes "\<forall>m \<in> set pre. message_ok (declared_names tools) m"
    and "fifo [] (history_events pre) = Some (e # rest)"
    and "cm_role m = Tool" "cm_tool_calls m = []" "cm_tool_call_id m = Some i" "i \<noteq> []" "i \<noteq> e"
  shows "validate_tool_history (pre @ m # post) tools =
    Inl (if i \<in> set rest then ToolResultOutOfOrder e i else UnknownToolCallId i)"
  using assms(3-)
  by (auto simp: validate_after_prefix [OF assms(1,2)] check_message_def check_tool_result_def)

section \<open>Sample messages\<close>

definition demo_tool :: "string \<Rightarrow> tool_definition" where
  "demo_tool n =
     \<lparr>td_kind = Function,
      td_function = \<lparr>fd_name = n, fd_description = None, fd_parameters = JObject []\<rparr>\<rparr>"

definition demo_call :: "string \<Rightarrow> string \<Rightarrow> tool_call" where
  "demo_call i n =
     \<lparr>tc_id = i, tc_kind = Function, tc_function = \<lparr>fc_name = n, fc_arguments = JObject []\<rparr>\<rparr>"

definition demo_message :: "chat_role \<Rightarrow> tool_call list \<Rightarrow> string option \<Rightarrow> chat_message" where
  "demo_message r calls i =
     \<lparr>cm_role = r, cm_content = [], cm_tool_calls = calls, cm_tool_call_id = i\<rparr>"

lemmas demo_defs = demo_tool_def demo_call_def demo_message_def

text \<open>
  Two calls outstanding, the second answered first.\<close>

theorem wrong_result_rejected_witness:
  "validate_tool_history
     [demo_message Assistant [demo_call ''a'' ''f'', demo_call ''b'' ''f''] None,
      demo_message Tool [] (Some ''b'')] [demo_tool ''f''] =
   Inl (ToolResultOutOfOrder ''a'' ''b'')"
  using wrong_result_rejected
    [of "[demo_message Assistant [demo_call ''a'' ''f'', demo_call ''b'' ''f''] None]"
      "[demo_tool ''f'']" "''a''" "[''b'']" "demo_message Tool [] (Some ''b'')" "''b''" "[]"]
  by (simp add: demo_defs message_ok_def call_ok_def declared_names_def)


theorem validate_tool_history_correct_witness:
  "validate_tool_history
     [demo_message Assistant [demo_call ''a'' ''f''] None, demo_message Tool [] (Some ''a'')]
     [demo_tool ''f''] = Inr ()"
proof -
  have "answered_in_order [] [Call ''a'', Result ''a'']"
    using fifo_iff [of "[]" "[Call ''a'', Result ''a'']"] by simp
  then show ?thesis
    using validate_tool_history_correct
      [of "[demo_message Assistant [demo_call ''a'' ''f''] None, demo_message Tool [] (Some ''a'')]" "[demo_tool ''f'']"]
    by (simp add: demo_defs message_ok_def call_ok_def declared_names_def)
qed

end
