(* ===== verification/Protocol.thy ===== *)
theory Protocol
  imports Tool_History
begin

text \<open>
  The network types of \<open>crates/protocol/src\<close> and the request validation of
  \<open>requests.rs\<close>: model capabilities, worker registration and heartbeats, generation
  requests, responses and stream events, \<open>validate_tools\<close> and \<open>normalize_messages\<close>.
\<close>

section \<open>Workers and models\<close>

datatype model_status = Loaded | Loading | Unavailable

record model_capability =
  mc_id :: string
  mc_status :: model_status
  mc_manifest_sha256 :: "string option"

datatype worker_state = Available | Busy | Draining | Offline

record worker_capabilities =
  wc_node_id :: string
  wc_models :: "model_capability list"
  wc_active_requests :: usize
  wc_max_requests :: usize
  wc_state :: worker_state
  wc_hardware :: hardware_info

record register_worker_request =
  rw_address :: string
  rw_capabilities :: worker_capabilities

record heartbeat_request =
  hb_capabilities :: worker_capabilities

section \<open>Generation requests\<close>

record generate_request =
  gr_request_id :: uuid
  gr_session_id :: "uuid option"
  gr_model :: string
  gr_prompt :: "string option"
  gr_messages :: "chat_message list option"
  gr_template :: "string option"
  gr_tools :: "tool_definition list"
  gr_max_tokens :: usize

record generate_response =
  gp_request_id :: uuid
  gp_worker_id :: string
  gp_model :: string
  gp_text :: string
  gp_input_tokens :: usize
  gp_output_tokens :: usize
  gp_tool_calls :: "tool_call list"
  gp_finish_reason :: finish_reason

datatype generation_stream_event =
    TextDelta string
  | Completed usize usize "tool_call list" finish_reason
  | StreamError string

section \<open>Validation\<close>

datatype request_validation_error =
    ExactlyOneOfPromptOrMessages
  | EmptyMessages
  | InvalidToolName
  | DuplicateToolName
  | InvalidToolParameters
  | InvalidToolHistory string

fun request_validation_error_to_string :: "request_validation_error \<Rightarrow> string" where
  "request_validation_error_to_string ExactlyOneOfPromptOrMessages =
     ''provide exactly one of prompt or messages''"
| "request_validation_error_to_string EmptyMessages = ''messages must not be empty''"
| "request_validation_error_to_string InvalidToolName =
     ''tool name must use ASCII letters, digits, underscores, or hyphens''"
| "request_validation_error_to_string DuplicateToolName = ''tool names must be unique''"
| "request_validation_error_to_string InvalidToolParameters =
     ''tool parameters must be a JSON object''"
| "request_validation_error_to_string (InvalidToolHistory s) = ''invalid tool history: '' @ s"

definition tool_name_byte :: "char \<Rightarrow> bool" where
  "tool_name_byte b \<longleftrightarrow> is_ascii_alphanumeric b \<or> b = CHR ''_'' \<or> b = CHR ''-''"

fun validate_tools_loop ::
  "string set \<Rightarrow> tool_definition list \<Rightarrow> request_validation_error + unit" where
  "validate_tools_loop names [] = Inr ()"
| "validate_tools_loop names (tool # tools) =
     (let name = fd_name (td_function tool) in
      if name = [] \<or> \<not> list_all tool_name_byte name then Inl InvalidToolName
      else if name \<in> names then Inl DuplicateToolName
      else if \<not> is_object (fd_parameters (td_function tool)) then Inl InvalidToolParameters
      else validate_tools_loop (insert name names) tools)"

definition validate_tools :: "tool_definition list \<Rightarrow> request_validation_error + unit" where
  "validate_tools tools = validate_tools_loop {} tools"

definition normalize_messages ::
  "string option \<Rightarrow> chat_message list option \<Rightarrow> request_validation_error + chat_message list" where
  "normalize_messages prompt messages =
     (case (prompt, messages) of
        (Some p, None) \<Rightarrow>
          Inr [\<lparr>cm_role = User, cm_content = p, cm_tool_calls = [], cm_tool_call_id = None\<rparr>]
      | (None, Some ms) \<Rightarrow> if ms \<noteq> [] then Inr ms else Inl EmptyMessages
      | _ \<Rightarrow> Inl ExactlyOneOfPromptOrMessages)"

definition normalized_messages ::
  "generate_request \<Rightarrow> request_validation_error + chat_message list" where
  "normalized_messages r = normalize_messages (gr_prompt r) (gr_messages r)"

definition request_validate_tools :: "generate_request \<Rightarrow> request_validation_error + unit" where
  "request_validate_tools r = validate_tools (gr_tools r)"

definition validate_tool_history_messages ::
  "generate_request \<Rightarrow> chat_message list \<Rightarrow> request_validation_error + unit" where
  "validate_tool_history_messages r ms =
     (case validate_tool_history ms (gr_tools r) of
        Inl e \<Rightarrow> Inl (InvalidToolHistory (tool_history_error_to_string e))
      | Inr u \<Rightarrow> Inr u)"

definition request_validate_tool_history ::
  "generate_request \<Rightarrow> request_validation_error + unit" where
  "request_validate_tool_history r =
     (case normalized_messages r of
        Inl e \<Rightarrow> Inl e
      | Inr ms \<Rightarrow> validate_tool_history_messages r ms)"

section \<open>What the validation accepts, and its first error\<close>

definition tool_name_ok :: "string \<Rightarrow> bool" where
  "tool_name_ok n \<longleftrightarrow> n \<noteq> [] \<and> list_all tool_name_byte n"

abbreviation tool_name :: "tool_definition \<Rightarrow> string" where
  "tool_name tool \<equiv> fd_name (td_function tool)"

text \<open>The verdict on one tool, given the names seen before it.\<close>

definition tool_verdict :: "string set \<Rightarrow> tool_definition \<Rightarrow> request_validation_error option" where
  "tool_verdict names tool =
     (if \<not> tool_name_ok (tool_name tool) then Some InvalidToolName
      else if tool_name tool \<in> names then Some DuplicateToolName
      else if \<not> is_object (fd_parameters (td_function tool)) then Some InvalidToolParameters
      else None)"

lemma validate_tools_loop_Cons:
  "validate_tools_loop names (tool # tools) =
     (case tool_verdict names tool of
        Some e \<Rightarrow> Inl e
      | None \<Rightarrow> validate_tools_loop (insert (tool_name tool) names) tools)"
  by (auto simp: tool_verdict_def tool_name_ok_def Let_def)

lemma validate_tools_loop_Inl:
  "validate_tools_loop names tools = Inl e \<longleftrightarrow>
     (\<exists>i < length tools. tool_verdict (names \<union> tool_name ` set (take i tools)) (tools ! i) = Some e \<and>
        (\<forall>j < i. tool_verdict (names \<union> tool_name ` set (take j tools)) (tools ! j) = None))"
proof (induction tools arbitrary: names)
  case Nil
  then show ?case by simp
next
  case (Cons t ts)
  show ?case
  proof (cases "tool_verdict names t")
    case None
    have "validate_tools_loop names (t # ts) = Inl e \<longleftrightarrow>
        validate_tools_loop (insert (tool_name t) names) ts = Inl e"
      using None by (simp add: validate_tools_loop_Cons del: validate_tools_loop.simps)
    also note Cons.IH
    also have "(\<exists>i < length ts. tool_verdict (insert (tool_name t) names \<union> tool_name ` set (take i ts)) (ts ! i) = Some e \<and>
        (\<forall>j < i. tool_verdict (insert (tool_name t) names \<union> tool_name ` set (take j ts)) (ts ! j) = None)) \<longleftrightarrow>
      (\<exists>i < length (t # ts). tool_verdict (names \<union> tool_name ` set (take i (t # ts))) ((t # ts) ! i) = Some e \<and>
        (\<forall>j < i. tool_verdict (names \<union> tool_name ` set (take j (t # ts))) ((t # ts) ! j) = None))"
      using None by (simp add: Ex_less_Suc2 All_less_Suc2)
    finally show ?thesis .
  next
    case (Some d)
    then show ?thesis
      by (auto simp: validate_tools_loop_Cons Ex_less_Suc2 All_less_Suc2 simp del: validate_tools_loop.simps)
  qed
qed

lemma validate_tools_loop_Inr:
  "validate_tools_loop names tools = Inr () \<longleftrightarrow>
     (\<forall>t \<in> set tools. tool_name_ok (tool_name t) \<and> is_object (fd_parameters (td_function t))) \<and>
     distinct (map tool_name tools) \<and> set (map tool_name tools) \<inter> names = {}"
  by (induction tools arbitrary: names) (auto simp: tool_name_ok_def Let_def)

text \<open>
  \<open>validate_tools\<close> accepts a list of tools exactly when every name is a non-empty word of
  ASCII letters, digits, underscores and hyphens, the names are pairwise distinct and every
  \<open>parameters\<close> is a JSON object; otherwise it returns the verdict on the first tool that
  fails, judged against the names before it.
\<close>

theorem validate_tools_correct:
  "(validate_tools tools = Inr () \<longleftrightarrow>
      (\<forall>t \<in> set tools. tool_name_ok (tool_name t) \<and> is_object (fd_parameters (td_function t))) \<and>
      distinct (map tool_name tools)) \<and>
   (validate_tools tools = Inl e \<longleftrightarrow>
      (\<exists>i < length tools. tool_verdict (tool_name ` set (take i tools)) (tools ! i) = Some e \<and>
         (\<forall>j < i. tool_verdict (tool_name ` set (take j tools)) (tools ! j) = None)))"
  unfolding validate_tools_def
  by (simp add: validate_tools_loop_Inr validate_tools_loop_Inl)

lemma normalize_messages_Inr_iff:
  "normalize_messages p ms = Inr ns \<longleftrightarrow>
     (\<exists>s. p = Some s \<and> ms = None \<and>
        ns = [\<lparr>cm_role = User, cm_content = s, cm_tool_calls = [], cm_tool_call_id = None\<rparr>]) \<or>
     (p = None \<and> ms = Some ns \<and> ns \<noteq> [])"
  by (auto simp: normalize_messages_def split: option.splits)

lemma normalize_messages_nonempty: "normalize_messages p ms = Inr ns \<Longrightarrow> ns \<noteq> []"
  by (auto simp: normalize_messages_Inr_iff)

lemma normalize_messages_idem:
  "normalize_messages p ms = Inr ns \<Longrightarrow> normalize_messages None (Some ns) = Inr ns"
  by (auto simp: normalize_messages_Inr_iff)

lemma normalize_messages_Inl_iff:
  "normalize_messages p ms = Inl e \<longleftrightarrow>
     (e = EmptyMessages \<and> p = None \<and> ms = Some []) \<or>
     (e = ExactlyOneOfPromptOrMessages \<and> (p = None \<longleftrightarrow> ms = None))"
  by (auto simp: normalize_messages_def split: option.splits)


lemma demo_name_byte: "tool_name_byte (CHR ''f'')"
  by code_simp

theorem validate_tools_correct_witness:
  "validate_tools [demo_tool ''f'', demo_tool ''ff''] = Inr () \<and>
   validate_tools [demo_tool ''f'', demo_tool ''f''] = Inl DuplicateToolName"
proof
  show "validate_tools [demo_tool ''f'', demo_tool ''ff''] = Inr ()"
    using conjunct1 [OF validate_tools_correct [of "[demo_tool ''f'', demo_tool ''ff'']" DuplicateToolName]]
    by (simp add: tool_name_ok_def demo_name_byte demo_tool_def)
  show "validate_tools [demo_tool ''f'', demo_tool ''f''] = Inl DuplicateToolName"
    using conjunct2 [OF validate_tools_correct [of "[demo_tool ''f'', demo_tool ''f'']" DuplicateToolName]]
    by (rule iffD2) (rule exI [of _ 1], simp add: tool_name_ok_def demo_name_byte demo_tool_def tool_verdict_def)
qed

end
