(* ===== verification/Scheduler.thy ===== *)
theory Scheduler
  imports Protocol
begin

text \<open>
  \<open>select_worker\<close> and \<open>acceleration_rank\<close> of \<open>crates/coordinator/src/scheduler.rs\<close> on the
  \<open>WorkerRecord\<close> of \<open>registry.rs\<close>, and the interface \<open>scheduler\<close> that the registry relies
  on: a choice among the eligible workers, made whenever there is one, that does not depend
  on the order in which the hash map yields its values.
\<close>

section \<open>Worker records\<close>

record worker_record =
  wr_id :: string
  wr_address :: string
  wr_models :: "model_capability list"
  wr_active_requests :: usize
  wr_max_requests :: usize
  wr_last_heartbeat :: instant
  wr_state :: worker_state
  wr_hardware :: hardware_info

section \<open>The selection key\<close>

text \<open>
  The key of \<open>min_by_key\<close>: the rank of the accelerator, the active requests and the worker
  id, compared in this order (ids byte by byte).
\<close>

datatype selection_key =
  Selection_Key (key_rank: nat) (key_active: usize) (key_id: string)

definition selection_key_le :: "selection_key \<Rightarrow> selection_key \<Rightarrow> bool" where
  "selection_key_le a b \<longleftrightarrow>
     key_rank a < key_rank b \<or>
     key_rank a = key_rank b \<and>
       (key_active a < key_active b \<or>
        key_active a = key_active b \<and> key_id a \<le> key_id b)"

instantiation selection_key :: linorder
begin

definition less_eq_selection_key :: "selection_key \<Rightarrow> selection_key \<Rightarrow> bool" where
  "less_eq_selection_key = selection_key_le"

definition less_selection_key :: "selection_key \<Rightarrow> selection_key \<Rightarrow> bool" where
  "less_selection_key a b \<longleftrightarrow> a \<le> b \<and> \<not> b \<le> (a :: selection_key)"

instance
proof
  fix a b c :: selection_key
  show "a < b \<longleftrightarrow> a \<le> b \<and> \<not> b \<le> a"
    by (simp add: less_selection_key_def)
  show "a \<le> a"
    by (simp add: less_eq_selection_key_def selection_key_le_def)
  show "a \<le> b \<Longrightarrow> b \<le> c \<Longrightarrow> a \<le> c"
    by (auto simp: less_eq_selection_key_def selection_key_le_def)
  show "a \<le> b \<Longrightarrow> b \<le> a \<Longrightarrow> a = b"
    by (cases a; cases b) (auto simp: less_eq_selection_key_def selection_key_le_def)
  show "a \<le> b \<or> b \<le> a"
    by (auto simp: less_eq_selection_key_def selection_key_le_def)
qed

end

section \<open>Selection\<close>

definition acceleration_rank :: "acceleration \<Rightarrow> nat" where
  "acceleration_rank a = (case a of Metal \<Rightarrow> 0 | Cuda \<Rightarrow> 0 | Cpu \<Rightarrow> 1)"

definition has_loaded_model :: "worker_record \<Rightarrow> string \<Rightarrow> bool" where
  "has_loaded_model worker requested \<longleftrightarrow>
     list_ex (\<lambda>model. mc_id model = requested \<and> mc_status model = Loaded) (wr_models worker)"

definition worker_key :: "worker_record \<Rightarrow> selection_key" where
  "worker_key worker =
     Selection_Key (acceleration_rank (hw_acceleration (wr_hardware worker)))
       (wr_active_requests worker) (wr_id worker)"

definition select_worker :: "worker_record list \<Rightarrow> string \<Rightarrow> worker_record option" where
  "select_worker workers requested =
     min_by_key worker_key
       (filter (\<lambda>w. wr_active_requests w < wr_max_requests w)
         (filter (\<lambda>w. has_loaded_model w requested)
           (filter (\<lambda>w. wr_state w = Available) workers)))"

text \<open>\<open>eligible\<close> of \<open>registry.rs\<close>, the test for a session's preferred worker.\<close>

definition eligible :: "worker_record \<Rightarrow> string \<Rightarrow> bool" where
  "eligible worker model \<longleftrightarrow>
     wr_state worker = Available \<and>
     wr_active_requests worker < wr_max_requests worker \<and>
     list_ex (\<lambda>candidate. mc_id candidate = model \<and> mc_status candidate = Loaded) (wr_models worker)"

lemma select_worker_eligible:
  "select_worker workers model = min_by_key worker_key (filter (\<lambda>w. eligible w model) workers)"
  by (simp add: select_worker_def eligible_def has_loaded_model_def conj_commute conj_left_commute)

section \<open>The interface\<close>

locale scheduler =
  fixes select :: "'w list \<Rightarrow> 'm \<Rightarrow> 'w option"
    and ok :: "'w \<Rightarrow> 'm \<Rightarrow> bool"
    and ident :: "'w \<Rightarrow> 'i"
  assumes select_sound: "select ws m = Some w \<Longrightarrow> w \<in> set ws \<and> ok w m"
    and select_complete: "select ws m = None \<Longrightarrow> w \<in> set ws \<Longrightarrow> \<not> ok w m"
    and select_order: "set ws = set ws' \<Longrightarrow> inj_on ident (set ws) \<Longrightarrow> select ws m = select ws' m"
begin

lemma select_None_iff: "select ws m = None \<longleftrightarrow> (\<forall>w \<in> set ws. \<not> ok w m)"
  using select_sound select_complete by (metis not_None_eq)

lemma select_exists: "w \<in> set ws \<Longrightarrow> ok w m \<Longrightarrow> \<exists>w'. select ws m = Some w'"
  using select_complete by fastforce

lemma select_singleton: "ok w m \<Longrightarrow> select [w] m = Some w"
  using select_sound [of "[w]" m] select_exists [of w "[w]" m] by auto

lemma select_rev: "distinct (map ident ws) \<Longrightarrow> select (rev ws) m = select ws m"
  by (rule select_order) (auto simp: distinct_map)

end

lemma worker_key_inj: "inj_on wr_id W \<Longrightarrow> inj_on worker_key W"
  by (auto simp: inj_on_def worker_key_def)

interpretation sched: scheduler select_worker eligible wr_id
proof
  fix ws ws' :: "worker_record list" and m :: string and w :: worker_record
  show "select_worker ws m = Some w \<Longrightarrow> w \<in> set ws \<and> eligible w m"
    unfolding select_worker_eligible by (drule min_by_key_Some) auto
  show "select_worker ws m = None \<Longrightarrow> w \<in> set ws \<Longrightarrow> \<not> eligible w m"
    unfolding select_worker_eligible by (auto simp: filter_empty_conv)
  show "select_worker ws m = select_worker ws' m"
    if "set ws = set ws'" and "inj_on wr_id (set ws)"
    unfolding select_worker_eligible
  proof (rule min_by_key_cong_set)
    show "set (filter (\<lambda>w. eligible w m) ws) = set (filter (\<lambda>w. eligible w m) ws')"
      using that(1) by auto
    show "inj_on worker_key (set (filter (\<lambda>w. eligible w m) ws))"
      using that(2) by (intro worker_key_inj) (auto simp: inj_on_def)
  qed
qed

lemma select_worker_least:
  "select_worker ws m = Some w \<Longrightarrow> w' \<in> set ws \<Longrightarrow> eligible w' m \<Longrightarrow> worker_key w \<le> worker_key w'"
  unfolding select_worker_eligible by (drule min_by_key_Some) auto


text \<open>
  The selected worker is registered and eligible, and no eligible worker precedes it: Metal and
  CUDA come before the CPU, then the fewer active requests, then the smaller id. None is
  selected only if no worker is eligible, and the order of the workers does not matter.
\<close>

theorem select_worker_correct:
  "(select_worker workers model = None \<longleftrightarrow> (\<forall>w \<in> set workers. \<not> eligible w model)) \<and>
   (\<forall>w. select_worker workers model = Some w \<longrightarrow>
      w \<in> set workers \<and> eligible w model \<and>
      (\<forall>w' \<in> set workers. eligible w' model \<longrightarrow>
         (let rank = (\<lambda>w. acceleration_rank (hw_acceleration (wr_hardware w)))
          in rank w < rank w' \<or>
             rank w = rank w' \<and>
               (wr_active_requests w < wr_active_requests w' \<or>
                wr_active_requests w = wr_active_requests w' \<and> wr_id w \<le> wr_id w')))) \<and>
   (\<forall>workers'. set workers' = set workers \<and> inj_on wr_id (set workers) \<longrightarrow>
      select_worker workers' model = select_worker workers model)"
proof (intro conjI allI impI)
  fix w assume sel: "select_worker workers model = Some w"
  then show "w \<in> set workers" "eligible w model" using sched.select_sound by blast+
  show "\<forall>w' \<in> set workers. eligible w' model \<longrightarrow>
         (let rank = (\<lambda>w. acceleration_rank (hw_acceleration (wr_hardware w)))
          in rank w < rank w' \<or>
             rank w = rank w' \<and>
               (wr_active_requests w < wr_active_requests w' \<or>
                wr_active_requests w = wr_active_requests w' \<and> wr_id w \<le> wr_id w'))"
    using select_worker_least [OF sel]
    by (fastforce simp: worker_key_def less_eq_selection_key_def selection_key_le_def Let_def)
next
  fix workers' assume "set workers' = set workers \<and> inj_on wr_id (set workers)"
  then show "select_worker workers' model = select_worker workers model"
    by (intro sched.select_order) auto
qed (rule sched.select_None_iff)

definition demo_record :: "string \<Rightarrow> usize \<Rightarrow> acceleration \<Rightarrow> worker_record" where
  "demo_record i active acc =
     \<lparr>wr_id = i, wr_address = [],
      wr_models = [\<lparr>mc_id = ''m'', mc_status = Loaded, mc_manifest_sha256 = None\<rparr>],
      wr_active_requests = active, wr_max_requests = 2, wr_last_heartbeat = 0,
      wr_state = Available, wr_hardware =
      \<lparr>hw_architecture = [], hw_total_memory_bytes = 0, hw_available_memory_bytes = 0,
       hw_acceleration = acc\<rparr>\<rparr>"

lemma demo_selection:
  "map_option wr_id (select_worker [demo_record ''c'' 0 Cpu, demo_record ''b'' 1 Metal] ''m'') = Some ''b''"
  "select_worker [demo_record ''a'' 2 Metal] ''m'' = None"
  by code_simp+

theorem select_worker_correct_witness:
  "(\<exists>w. select_worker [demo_record ''c'' 0 Cpu, demo_record ''b'' 1 Metal] ''m'' = Some w \<and>
      wr_id w = ''b'' \<and> eligible w ''m'') \<and>
   \<not> eligible (demo_record ''a'' 2 Metal) ''m''"
proof -
  obtain w where "select_worker [demo_record ''c'' 0 Cpu, demo_record ''b'' 1 Metal] ''m'' = Some w" "wr_id w = ''b''"
    using demo_selection(1) by auto
  moreover from this have "eligible w ''m''"
    using select_worker_correct [of "[demo_record ''c'' 0 Cpu, demo_record ''b'' 1 Metal]" "''m''"] by blast
  moreover have "\<not> eligible (demo_record ''a'' 2 Metal) ''m''"
    using conjunct1 [OF select_worker_correct [of "[demo_record ''a'' 2 Metal]" "''m''"]] demo_selection(2) by simp
  ultimately show ?thesis by blast
qed

end
