(* ===== verification/Interfaces.thy ===== *)
theory Interfaces
  imports Prelude
begin

text \<open>
  The interfaces several components share, as locales. \<open>transition_system\<close> is a relation of
  steps with an invariant, \<open>machine\<close> a step function; the registry, the worker runtime and
  the harness interpret them on their own operations. \<open>slot_pool\<close> is the contract of a bounded
  counter of request slots: the coordinator's worker records and the worker's own counter
  both provide it.
\<close>

section \<open>Invariants of steps\<close>

locale transition_system =
  fixes init :: "'s \<Rightarrow> bool"
    and step :: "'s \<Rightarrow> 's \<Rightarrow> bool"
    and invariant :: "'s \<Rightarrow> bool"
  assumes invariant_init: "init s \<Longrightarrow> invariant s"
    and invariant_step: "invariant s \<Longrightarrow> step s t \<Longrightarrow> invariant t"
begin

lemma invariant_steps: "step\<^sup>*\<^sup>* s t \<Longrightarrow> invariant s \<Longrightarrow> invariant t"
  by (induction rule: rtranclp_induct) (auto intro: invariant_step)

lemma invariant_reachable: "init s \<Longrightarrow> step\<^sup>*\<^sup>* s t \<Longrightarrow> invariant t"
  by (blast intro: invariant_steps invariant_init)

end

locale machine =
  fixes start :: "'s \<Rightarrow> bool"
    and next_state :: "'s \<Rightarrow> 'e \<Rightarrow> 's"
    and safe :: "'s \<Rightarrow> bool"
  assumes safe_start: "start s \<Longrightarrow> safe s"
    and safe_next: "safe s \<Longrightarrow> safe (next_state s e)"
begin

lemma safe_run: "safe s \<Longrightarrow> safe (foldl next_state s es)"
  by (induction es arbitrary: s) (auto intro: safe_next)

lemma safe_from_start: "start s \<Longrightarrow> safe (foldl next_state s es)"
  by (blast intro: safe_run safe_start)

end

sublocale machine \<subseteq> steps: transition_system start "\<lambda>s t. \<exists>e. t = next_state s e" safe
  by unfold_locales (auto intro: safe_start safe_next)

section \<open>Bounded request slots\<close>

locale slot_pool =
  fixes reserve :: "'s \<Rightarrow> 's option"
    and give_back :: "'s \<Rightarrow> 's"
    and used :: "'s \<Rightarrow> nat"
    and capacity :: "'s \<Rightarrow> nat"
  assumes reserve_used: "reserve s = Some t \<Longrightarrow> used t = Suc (used s)"
    and reserve_bound: "reserve s = Some t \<Longrightarrow> used t \<le> capacity t"
    and reserve_capacity: "reserve s = Some t \<Longrightarrow> capacity t = capacity s"
    and give_back_used: "0 < used s \<Longrightarrow> used (give_back s) = used s - 1"
    and give_back_capacity: "capacity (give_back s) = capacity s"
begin

lemma reserve_then_give_back: "reserve s = Some t \<Longrightarrow> used (give_back t) = used s"
  by (simp add: reserve_used give_back_used)

lemma full_pool_refuses: "capacity s \<le> used s \<Longrightarrow> reserve s = None"
  using reserve_used reserve_bound reserve_capacity
  by (metis Suc_le_lessD leD not_None_eq)

text \<open>Any client that gives back no more than it holds keeps the pool within its capacity.\<close>

lemma pool_bounded_step:
  assumes "used s \<le> capacity s"
  shows "reserve s = Some t \<Longrightarrow> used t \<le> capacity t"
    and "0 < used s \<Longrightarrow> used (give_back s) \<le> capacity (give_back s)"
  using assms by (auto simp: reserve_bound give_back_used give_back_capacity)

end

end
