(* ===== verification/Registry.thy ===== *)
theory Registry
  imports Scheduler Interfaces
begin

text \<open>
  The worker registry of \<open>crates/coordinator/src/registry.rs\<close>: the table of workers, the
  table of session bindings, and every operation on them. Each method takes its locks for
  its whole body, so one method is one step, except \<open>mark_offline\<close>, which releases the
  worker table before it takes the binding table: its halves are separate steps here.
  \<open>Instant::now()\<close> is an argument.
\<close>

section \<open>State\<close>

record affinity_binding =
  ab_worker_id :: string
  ab_last_used :: instant

record selected_worker =
  sw_id :: string
  sw_address :: string

record registry =
  reg_workers :: "(string \<times> worker_record) list"
  reg_affinity :: "((uuid \<times> string) \<times> affinity_binding) list"

definition registry_default :: registry where
  "registry_default = \<lparr>reg_workers = [], reg_affinity = []\<rparr>"

text \<open>15 minutes.\<close>

definition affinity_ttl :: duration where
  "affinity_ttl = 15 * 60 * 1000000000"

section \<open>Operations\<close>

definition register :: "instant \<Rightarrow> register_worker_request \<Rightarrow> registry \<Rightarrow> registry" where
  "register now request reg =
     (let c = rw_capabilities request in
      reg\<lparr>reg_workers := AList.update (wc_node_id c)
            \<lparr>wr_id = wc_node_id c, wr_address = rw_address request, wr_models = wc_models c,
             wr_active_requests = wc_active_requests c, wr_max_requests = wc_max_requests c,
             wr_last_heartbeat = now, wr_state = wc_state c, wr_hardware = wc_hardware c\<rparr>
            (reg_workers reg)\<rparr>)"

definition heartbeat_record ::
  "instant \<Rightarrow> worker_capabilities \<Rightarrow> worker_record \<Rightarrow> worker_record" where
  "heartbeat_record now c record =
     record\<lparr>wr_models := wc_models c, wr_max_requests := wc_max_requests c,
            wr_active_requests := wc_active_requests c, wr_state := wc_state c,
            wr_hardware := wc_hardware c, wr_last_heartbeat := now\<rparr>"

definition heartbeat ::
  "instant \<Rightarrow> string \<Rightarrow> heartbeat_request \<Rightarrow> registry \<Rightarrow> bool \<times> registry" where
  "heartbeat now i request reg =
     (case map_of (reg_workers reg) i of
        None \<Rightarrow> (False, reg)
      | Some _ \<Rightarrow>
          (True, reg\<lparr>reg_workers :=
             al_modify i (heartbeat_record now (hb_capabilities request)) (reg_workers reg)\<rparr>))"

definition list_workers :: "registry \<Rightarrow> worker_record list" where
  "list_workers reg = al_values (reg_workers reg)"

definition available_models :: "registry \<Rightarrow> string list" where
  "available_models reg =
     remdups_adj (sort (map mc_id
       (filter (\<lambda>model. mc_status model = Loaded)
         (concat (map wr_models
           (filter (\<lambda>worker. wr_state worker \<noteq> Offline) (al_values (reg_workers reg))))))))"

definition preferred_worker ::
  "instant \<Rightarrow> (uuid \<times> string) option \<Rightarrow> registry \<Rightarrow> string option" where
  "preferred_worker now key reg =
     (case key of
        None \<Rightarrow> None
      | Some k \<Rightarrow>
          (case map_of (reg_affinity reg) k of
             None \<Rightarrow> None
           | Some b \<Rightarrow> if now - ab_last_used b \<le> affinity_ttl then Some (ab_worker_id b) else None))"

definition choose_worker ::
  "instant \<Rightarrow> string \<Rightarrow> (uuid \<times> string) option \<Rightarrow> registry \<Rightarrow> string option" where
  "choose_worker now model key reg =
     (case (case preferred_worker now key reg of
              None \<Rightarrow> None
            | Some i \<Rightarrow>
                (case map_of (reg_workers reg) i of
                   Some worker \<Rightarrow> if eligible worker model then Some i else None
                 | None \<Rightarrow> None)) of
        Some i \<Rightarrow> Some i
      | None \<Rightarrow> map_option wr_id (select_worker (al_values (reg_workers reg)) model))"

definition reserve_record :: "worker_record \<Rightarrow> worker_record" where
  "reserve_record worker =
     (let w = worker\<lparr>wr_active_requests := wr_active_requests worker + 1\<rparr> in
      if wr_max_requests w \<le> wr_active_requests w then w\<lparr>wr_state := Busy\<rparr> else w)"

definition select_and_reserve ::
  "instant \<Rightarrow> string \<Rightarrow> uuid option \<Rightarrow> registry \<Rightarrow> selected_worker option \<times> registry" where
  "select_and_reserve now model session_id reg =
     (let key = map_option (\<lambda>i. (i, model)) session_id in
      case choose_worker now model key reg of
        None \<Rightarrow> (None, reg)
      | Some i \<Rightarrow>
          (let reg1 = (case key of
                 None \<Rightarrow> reg
               | Some k \<Rightarrow>
                   reg\<lparr>reg_affinity := AList.update k
                         \<lparr>ab_worker_id = i, ab_last_used = now\<rparr> (reg_affinity reg)\<rparr>) in
           case map_of (reg_workers reg1) i of
             None \<Rightarrow> (None, reg1)
           | Some worker \<Rightarrow>
               (Some \<lparr>sw_id = wr_id worker, sw_address = wr_address worker\<rparr>,
                reg1\<lparr>reg_workers := al_modify i reserve_record (reg_workers reg1)\<rparr>)))"

definition release_record :: "worker_record \<Rightarrow> worker_record" where
  "release_record worker =
     (let w = worker\<lparr>wr_active_requests := saturating_sub (wr_active_requests worker) 1\<rparr> in
      if wr_state w = Busy \<and> wr_active_requests w < wr_max_requests w
      then w\<lparr>wr_state := Available\<rparr> else w)"

definition release :: "string \<Rightarrow> registry \<Rightarrow> registry" where
  "release i reg = reg\<lparr>reg_workers := al_modify i release_record (reg_workers reg)\<rparr>"

definition mark_offline_workers :: "string \<Rightarrow> registry \<Rightarrow> registry" where
  "mark_offline_workers i reg =
     reg\<lparr>reg_workers := al_modify i (\<lambda>w. w\<lparr>wr_state := Offline\<rparr>) (reg_workers reg)\<rparr>"

definition mark_offline_affinity :: "string \<Rightarrow> registry \<Rightarrow> registry" where
  "mark_offline_affinity i reg =
     reg\<lparr>reg_affinity := al_retain (\<lambda>_ b. ab_worker_id b \<noteq> i) (reg_affinity reg)\<rparr>"

definition mark_offline :: "string \<Rightarrow> registry \<Rightarrow> registry" where
  "mark_offline i reg = mark_offline_affinity i (mark_offline_workers i reg)"

definition expire_record :: "instant \<Rightarrow> duration \<Rightarrow> worker_record \<Rightarrow> worker_record" where
  "expire_record now timeout worker =
     (if timeout < now - wr_last_heartbeat worker then worker\<lparr>wr_state := Offline\<rparr> else worker)"

definition expire_at :: "instant \<Rightarrow> duration \<Rightarrow> registry \<Rightarrow> registry" where
  "expire_at now timeout reg =
     (let workers = al_map (expire_record now timeout) (reg_workers reg) in
      \<lparr>reg_workers = workers,
       reg_affinity = al_retain
         (\<lambda>_ b. now - ab_last_used b \<le> affinity_ttl \<and>
                (case map_of workers (ab_worker_id b) of
                   Some worker \<Rightarrow> wr_state worker \<noteq> Offline
                 | None \<Rightarrow> False))
         (reg_affinity reg)\<rparr>)"

section \<open>The invariant\<close>

abbreviation worker_at :: "registry \<Rightarrow> string \<Rightarrow> worker_record option" where
  "worker_at reg i \<equiv> map_of (reg_workers reg) i"

abbreviation binding_at :: "registry \<Rightarrow> uuid \<times> string \<Rightarrow> affinity_binding option" where
  "binding_at reg k \<equiv> map_of (reg_affinity reg) k"

text \<open>Records are filed under their own id, and bindings point to registered workers.\<close>

definition registry_inv :: "registry \<Rightarrow> bool" where
  "registry_inv reg \<longleftrightarrow>
     distinct (al_keys (reg_workers reg)) \<and> distinct (al_keys (reg_affinity reg)) \<and>
     (\<forall>i w. worker_at reg i = Some w \<longrightarrow> wr_id w = i) \<and>
     (\<forall>k b. binding_at reg k = Some b \<longrightarrow> (\<exists>w. worker_at reg (ab_worker_id b) = Some w))"

lemma registry_inv_default: "registry_inv registry_default"
  by (simp add: registry_inv_def registry_default_def)

lemma registry_invD:
  assumes "registry_inv reg"
  shows "distinct (al_keys (reg_workers reg))" "distinct (al_keys (reg_affinity reg))"
    and "worker_at reg i = Some w \<Longrightarrow> wr_id w = i"
    and "binding_at reg k = Some b \<Longrightarrow> \<exists>w. worker_at reg (ab_worker_id b) = Some w"
  using assms unfolding registry_inv_def by blast+

lemma wr_id_updates [simp]:
  "wr_id (heartbeat_record now c w) = wr_id w" "wr_id (reserve_record w) = wr_id w"
  "wr_id (release_record w) = wr_id w" "wr_id (expire_record now d w) = wr_id w"
  by (simp_all add: heartbeat_record_def reserve_record_def release_record_def expire_record_def
      Let_def)

text \<open>Every update of one record in place keeps the invariant if it keeps the id.\<close>

lemma registry_inv_modify:
  assumes "registry_inv reg" and "\<And>w. wr_id (f w) = wr_id w"
  shows "registry_inv (reg\<lparr>reg_workers := al_modify i f (reg_workers reg)\<rparr>)"
  using assms by (auto simp: registry_inv_def map_of_al_modify)

lemma registry_inv_values:
  assumes "registry_inv reg"
  shows "w \<in> set (al_values (reg_workers reg)) \<longleftrightarrow> worker_at reg (wr_id w) = Some w"
proof -
  have "w \<in> set (al_values (reg_workers reg)) \<longleftrightarrow> (\<exists>i. worker_at reg i = Some w)"
    using set_al_values registry_invD(1) [OF assms] by fast
  then show ?thesis using registry_invD(3) [OF assms] by auto
qed

lemma choose_worker_sound:
  assumes "registry_inv reg" and "choose_worker now model key reg = Some i"
  shows "\<exists>w. worker_at reg i = Some w \<and> eligible w model"
proof -
  consider w where "worker_at reg i = Some w" "eligible w model"
    | w where "select_worker (al_values (reg_workers reg)) model = Some w" "wr_id w = i"
    using assms(2) unfolding choose_worker_def
    by (auto split: option.splits if_splits)
  then show ?thesis
  proof cases
    case 2
    with sched.select_sound registry_inv_values [OF assms(1)] show ?thesis by fastforce
  qed auto
qed

lemma choose_worker_None:
  assumes "registry_inv reg" and "choose_worker now model key reg = None"
    and "worker_at reg i = Some w"
  shows "\<not> eligible w model"
proof -
  have "select_worker (al_values (reg_workers reg)) model = None"
    using assms(2) unfolding choose_worker_def by (auto split: option.splits if_splits)
  moreover have "w \<in> set (al_values (reg_workers reg))"
    using assms registry_inv_values registry_invD(3) by metis
  ultimately show ?thesis by (rule sched.select_complete)
qed

text \<open>The binding that a successful selection records, if the request has a session.\<close>

definition bind_session ::
  "instant \<Rightarrow> string \<Rightarrow> uuid option \<Rightarrow> string \<Rightarrow> registry \<Rightarrow> registry" where
  "bind_session now model session i reg =
     (case session of
        None \<Rightarrow> reg
      | Some s \<Rightarrow> reg\<lparr>reg_affinity :=
          AList.update (s, model) \<lparr>ab_worker_id = i, ab_last_used = now\<rparr> (reg_affinity reg)\<rparr>)"

lemma bind_session_workers [simp]: "reg_workers (bind_session now model session i reg) = reg_workers reg"
  by (simp add: bind_session_def split: option.split)

lemma bind_session_affinity:
  "binding_at (bind_session now model session i reg) k =
     (if \<exists>s. session = Some s \<and> k = (s, model)
      then Some \<lparr>ab_worker_id = i, ab_last_used = now\<rparr> else binding_at reg k)"
  by (auto simp: bind_session_def update_conv split: option.split)

lemma registry_inv_bind:
  assumes "registry_inv reg" and "worker_at reg i = Some w"
  shows "registry_inv (bind_session now model session i reg)"
proof -
  have "distinct (al_keys (reg_affinity (bind_session now model session i reg)))"
    using assms(1) by (simp add: registry_inv_def bind_session_def distinct_update split: option.split)
  with assms show ?thesis
    unfolding registry_inv_def bind_session_affinity bind_session_workers by auto
qed

text \<open>The two outcomes of a selection, from which its properties follow.\<close>

lemma select_and_reserve_cases:
  assumes "registry_inv reg"
  obtains (none) "choose_worker now model (map_option (\<lambda>s. (s, model)) session) reg = None"
      "select_and_reserve now model session reg = (None, reg)"
  | (some) i w where
      "choose_worker now model (map_option (\<lambda>s. (s, model)) session) reg = Some i"
      "worker_at reg i = Some w" "wr_id w = i" "eligible w model"
      "select_and_reserve now model session reg =
         (Some \<lparr>sw_id = i, sw_address = wr_address w\<rparr>,
          bind_session now model session i
            (reg\<lparr>reg_workers := al_modify i reserve_record (reg_workers reg)\<rparr>))"
proof (cases "choose_worker now model (map_option (\<lambda>s. (s, model)) session) reg")
  case None
  then show ?thesis by (intro none) (simp_all add: select_and_reserve_def)
next
  case (Some i)
  then obtain w where w: "worker_at reg i = Some w" "eligible w model"
    using choose_worker_sound [OF assms] by blast
  moreover have "wr_id w = i" using registry_invD(3) [OF assms w(1)] .
  ultimately show ?thesis using Some
    by (intro some) (auto simp: select_and_reserve_def bind_session_def Let_def split: option.splits)
qed

section \<open>Every operation keeps the invariant\<close>

datatype registry_op =
    Register instant register_worker_request
  | Heartbeat instant string heartbeat_request
  | SelectAndReserve instant string "uuid option"
  | Release string
  | MarkOfflineWorkers string
  | MarkOfflineAffinity string
  | ExpireAt instant duration

fun registry_step :: "registry \<Rightarrow> registry_op \<Rightarrow> registry" where
  "registry_step reg (Register now request) = register now request reg"
| "registry_step reg (Heartbeat now i request) = snd (heartbeat now i request reg)"
| "registry_step reg (SelectAndReserve now model session) =
     snd (select_and_reserve now model session reg)"
| "registry_step reg (Release i) = release i reg"
| "registry_step reg (MarkOfflineWorkers i) = mark_offline_workers i reg"
| "registry_step reg (MarkOfflineAffinity i) = mark_offline_affinity i reg"
| "registry_step reg (ExpireAt now timeout) = expire_at now timeout reg"

lemma registry_inv_register: "registry_inv reg \<Longrightarrow> registry_inv (register now request reg)"
  by (auto simp: registry_inv_def register_def Let_def update_conv distinct_update split: if_splits)

lemma registry_inv_heartbeat:
  "registry_inv reg \<Longrightarrow> registry_inv (snd (heartbeat now i request reg))"
  by (auto simp: heartbeat_def registry_inv_modify split: option.split)

lemma registry_inv_select:
  assumes "registry_inv reg"
  shows "registry_inv (snd (select_and_reserve now model session reg))"
  using assms
proof (cases rule: select_and_reserve_cases [of reg now model session])
  case none
  with assms show ?thesis by simp
next
  case (some i w)
  have "registry_inv (reg\<lparr>reg_workers := al_modify i reserve_record (reg_workers reg)\<rparr>)"
    using assms by (rule registry_inv_modify) simp
  then have "registry_inv (bind_session now model session i
      (reg\<lparr>reg_workers := al_modify i reserve_record (reg_workers reg)\<rparr>))"
    by (rule registry_inv_bind [where w = "reserve_record w"]) (simp add: map_of_al_modify some)
  with some show ?thesis by simp
qed

lemma registry_inv_release: "registry_inv reg \<Longrightarrow> registry_inv (release i reg)"
  by (simp add: release_def registry_inv_modify)

lemma registry_inv_mark_offline_workers:
  "registry_inv reg \<Longrightarrow> registry_inv (mark_offline_workers i reg)"
  by (simp add: mark_offline_workers_def registry_inv_modify)

lemma registry_inv_mark_offline_affinity:
  "registry_inv reg \<Longrightarrow> registry_inv (mark_offline_affinity i reg)"
  by (auto simp: registry_inv_def mark_offline_affinity_def map_of_al_retain split: option.splits if_splits)

lemma registry_inv_expire: "registry_inv reg \<Longrightarrow> registry_inv (expire_at now timeout reg)"
  by (auto simp: registry_inv_def expire_at_def Let_def map_of_al_map map_of_al_retain
      split: option.splits if_splits)

lemmas registry_inv_ops =
  registry_inv_register registry_inv_heartbeat registry_inv_select registry_inv_release
  registry_inv_mark_offline_workers registry_inv_mark_offline_affinity registry_inv_expire

interpretation reg: machine "\<lambda>reg. reg = registry_default" registry_step registry_inv
proof
  fix reg op
  show "reg = registry_default \<Longrightarrow> registry_inv reg"
    by (simp add: registry_inv_default)
  show "registry_inv reg \<Longrightarrow> registry_inv (registry_step reg op)"
    by (cases op) (simp_all add: registry_inv_ops)
qed

text \<open>
  In every state the coordinator can reach, by any sequence of its operations and
  with the two halves of \<open>mark_offline\<close> interleaved freely, the tables have one entry per key,
  every record is filed under its own id and every session binding names a registered worker.
\<close>

theorem registry_reachable_inv: "registry_inv (foldl registry_step registry_default ops)"
  by (rule reg.safe_from_start) simp

section \<open>Reserving and releasing a slot\<close>

lemma reserve_record_active:
  assumes "eligible w model"
  shows "unat (wr_active_requests (reserve_record w)) = Suc (unat (wr_active_requests w))"
    and "wr_active_requests (reserve_record w) \<le> wr_max_requests w"
    and "wr_max_requests (reserve_record w) = wr_max_requests w"
  using assms by (auto simp: reserve_record_def eligible_def Let_def unat_plus1_less plus1_le_of_less)

lemma reserve_record_state:
  "eligible w model \<Longrightarrow>
   wr_state (reserve_record w) =
     (if unat (wr_max_requests w) \<le> Suc (unat (wr_active_requests w)) then Busy else Available)"
  by (auto simp: reserve_record_def eligible_def Let_def word_le_nat_alt unat_plus1_less)

lemma reserve_record_frame [simp]:
  "wr_address (reserve_record w) = wr_address w" "wr_models (reserve_record w) = wr_models w"
  "wr_last_heartbeat (reserve_record w) = wr_last_heartbeat w"
  by (simp_all add: reserve_record_def Let_def)

lemma release_record_active:
  "unat (wr_active_requests (release_record w)) = unat (wr_active_requests w) - 1"
  "wr_max_requests (release_record w) = wr_max_requests w"
  by (simp_all add: release_record_def Let_def unat_saturating_sub)

lemma release_record_state:
  "wr_state (release_record w) =
     (if wr_state w = Busy \<and> wr_active_requests (release_record w) < wr_max_requests w
      then Available else wr_state w)"
  by (simp add: release_record_def Let_def)

lemma release_reserve_record: "eligible w model \<Longrightarrow> release_record (reserve_record w) = w"
  by (auto simp: release_record_def reserve_record_def eligible_def Let_def saturating_sub_plus1)

interpretation slots: slot_pool
  "\<lambda>w. if eligible w model then Some (reserve_record w) else None" release_record
  "\<lambda>w. unat (wr_active_requests w)" "\<lambda>w. unat (wr_max_requests w)" for model
  by unfold_locales
    (auto simp: reserve_record_active release_record_active simp flip: word_le_nat_alt split: if_splits)

text \<open>
  What \<open>select_and_reserve\<close> promises, said over the tables alone: who can serve a model, who goes
  first, and whom a session sticks to.
\<close>

definition can_serve :: "string \<Rightarrow> worker_record \<Rightarrow> bool" where
  "can_serve model w \<longleftrightarrow>
     wr_state w = Available \<and> unat (wr_active_requests w) < unat (wr_max_requests w) \<and>
     (\<exists>m \<in> set (wr_models w). mc_id m = model \<and> mc_status m = Loaded)"

definition goes_first :: "worker_record \<Rightarrow> worker_record \<Rightarrow> bool" where
  "goes_first w v \<longleftrightarrow>
     (let cpu = (\<lambda>w. hw_acceleration (wr_hardware w) = Cpu)
      in \<not> cpu w \<and> cpu v \<or>
         cpu w = cpu v \<and>
           (unat (wr_active_requests w) < unat (wr_active_requests v) \<or>
            wr_active_requests w = wr_active_requests v \<and> wr_id w \<le> wr_id v))"

definition sticks_to :: "instant \<Rightarrow> string \<Rightarrow> uuid option \<Rightarrow> registry \<Rightarrow> string \<Rightarrow> bool" where
  "sticks_to now model session reg i \<longleftrightarrow>
     (\<exists>sid used w. session = Some sid \<and>
        binding_at reg (sid, model) = Some \<lparr>ab_worker_id = i, ab_last_used = used\<rparr> \<and>
        now - used \<le> 15 * 60 * 1000000000 \<and> worker_at reg i = Some w \<and> can_serve model w)"

definition first_worker :: "string \<Rightarrow> registry \<Rightarrow> string \<Rightarrow> bool" where
  "first_worker model reg i \<longleftrightarrow>
     (\<exists>w. worker_at reg i = Some w \<and> can_serve model w \<and>
        (\<forall>j v. worker_at reg j = Some v \<and> can_serve model v \<longrightarrow> goes_first w v))"

lemma eligible_can_serve: "eligible w model \<longleftrightarrow> can_serve model w"
  by (simp add: eligible_def can_serve_def list_ex_iff word_less_nat_alt)

lemma worker_key_goes_first: "worker_key w \<le> worker_key v \<longleftrightarrow> goes_first w v"
  by (cases "hw_acceleration (wr_hardware w)"; cases "hw_acceleration (wr_hardware v)")
    (simp_all add: worker_key_def goes_first_def less_eq_selection_key_def selection_key_le_def
      acceleration_rank_def word_less_nat_alt)

lemma sticks_to_preferred:
  "sticks_to now model session reg i \<longleftrightarrow>
     preferred_worker now (map_option (\<lambda>s. (s, model)) session) reg = Some i \<and>
     (\<exists>w. worker_at reg i = Some w \<and> eligible w model)"
proof -
  have same: "binding = \<lparr>ab_worker_id = i, ab_last_used = used\<rparr> \<longleftrightarrow> ab_worker_id binding = i \<and> ab_last_used binding = used"
    for binding :: affinity_binding and used
    by (cases binding) simp
  show ?thesis
    by (cases session)
      (auto simp: sticks_to_def preferred_worker_def affinity_ttl_def eligible_can_serve same split: option.split)
qed

lemma choose_worker_spec:
  assumes inv: "registry_inv reg"
    and chosen: "choose_worker now model (map_option (\<lambda>s. (s, model)) session) reg = Some i"
  shows "if \<exists>j. sticks_to now model session reg j then sticks_to now model session reg i else first_worker model reg i"
proof (cases "\<exists>j. sticks_to now model session reg j")
  case True
  with chosen show ?thesis by (auto simp: sticks_to_preferred choose_worker_def)
next
  case False
  then obtain w where w: "select_worker (al_values (reg_workers reg)) model = Some w" "wr_id w = i"
    using chosen by (auto simp: sticks_to_preferred choose_worker_def split: option.splits if_splits)
  have table: "v \<in> set (al_values (reg_workers reg))" if "worker_at reg j = Some v" for j v
    using that registry_inv_values [OF inv] registry_invD(3) [OF inv that] by metis
  have "worker_at reg i = Some w" "eligible w model"
    using sched.select_sound [OF w(1)] registry_inv_values [OF inv] w(2) by auto
  moreover have "goes_first w v" if "worker_at reg j = Some v" "can_serve model v" for j v
    using select_worker_least [OF w(1) table [OF that(1)]] that(2)
    by (simp add: worker_key_goes_first eligible_can_serve)
  ultimately show ?thesis using False by (auto simp: first_worker_def eligible_can_serve)
qed

lemma reserve_record_exact:
  assumes "eligible w model"
  shows "reserve_record w = w\<lparr>wr_active_requests := of_nat (Suc (unat (wr_active_requests w))),
      wr_state := if Suc (unat (wr_active_requests w)) = unat (wr_max_requests w) then Busy else Available\<rparr>"
proof -
  have "unat (wr_active_requests w + 1) = Suc (unat (wr_active_requests w))" "wr_state w = Available"
    and "unat (wr_active_requests w) < unat (wr_max_requests w)"
    using reserve_record_active(1) [OF assms] assms
    by (auto simp: reserve_record_def eligible_def Let_def word_less_nat_alt split: if_splits)
  then show ?thesis
    by (cases w) (auto simp: reserve_record_def Let_def word_le_nat_alt add.commute)
qed

text \<open>
  C5. \<open>select_and_reserve\<close> in a consistent registry. Without a result no registered worker can serve
  the model and nothing changes. With a result the worker is the one the session is bound to, if the binding
  is at most 15 minutes old and that worker can serve; otherwise the first of those that can: accelerated
  before CPU, then fewer active requests, then the smaller id. The answer carries its address, one
  slot of it is taken within its maximum, it turns \<open>Busy\<close> exactly when it is full, and nothing else of
  any record changes; a session is now bound to it for this model, and no other binding changes.
\<close>

theorem select_and_reserve_correct:
  assumes "registry_inv reg"
  shows "case select_and_reserve now model session reg of
      (None, reg') \<Rightarrow> reg' = reg \<and> (\<forall>i w. worker_at reg i = Some w \<longrightarrow> \<not> can_serve model w)
    | (Some s, reg') \<Rightarrow>
        (if \<exists>j. sticks_to now model session reg j then sticks_to now model session reg (sw_id s)
         else first_worker model reg (sw_id s)) \<and>
        (\<exists>w. worker_at reg (sw_id s) = Some w \<and> sw_address s = wr_address w \<and>
           Suc (unat (wr_active_requests w)) \<le> unat (wr_max_requests w) \<and>
           worker_at reg' (sw_id s) = Some (w\<lparr>wr_active_requests := of_nat (Suc (unat (wr_active_requests w))),
             wr_state := if Suc (unat (wr_active_requests w)) = unat (wr_max_requests w) then Busy else Available\<rparr>)) \<and>
        (\<forall>j. j \<noteq> sw_id s \<longrightarrow> worker_at reg' j = worker_at reg j) \<and>
        (\<forall>k. binding_at reg' k =
           (if \<exists>sid. session = Some sid \<and> k = (sid, model)
            then Some \<lparr>ab_worker_id = sw_id s, ab_last_used = now\<rparr> else binding_at reg k))"
  using assms
proof (cases rule: select_and_reserve_cases [of reg now model session])
  case none
  with choose_worker_None [OF assms] show ?thesis by (auto simp flip: eligible_can_serve)
next
  case (some i w)
  have "Suc (unat (wr_active_requests w)) \<le> unat (wr_max_requests w)"
    using some(4) by (simp add: eligible_can_serve can_serve_def)
  with choose_worker_spec [OF assms some(1)] some reserve_record_exact [OF some(4)] show ?thesis
    by (simp add: map_of_al_modify bind_session_affinity)
qed

text \<open>
  A reservation followed by its release leaves the worker table as it was, record for record:
  the counter, and the state that the reservation may have turned to \<open>Busy\<close>.
\<close>

theorem release_undoes_reservation:
  assumes "registry_inv reg" and "select_and_reserve now model session reg = (Some s, reg')"
  shows "reg_workers (release (sw_id s) reg') = reg_workers reg"
  using assms(1)
proof (cases rule: select_and_reserve_cases [of reg now model session])
  case none
  with assms(2) show ?thesis by simp
next
  case (some i w)
  have "al_modify i (release_record \<circ> reserve_record) (reg_workers reg) = reg_workers reg"
    using registry_invD(1) [OF assms(1)]
    by (rule al_modify_cong_id) (use some in \<open>simp add: release_reserve_record\<close>)
  moreover have "reg_workers (release (sw_id s) reg') =
      al_modify i release_record (al_modify i reserve_record (reg_workers reg))"
    using some(5) assms(2) by (auto simp: release_def)
  ultimately show ?thesis by (simp add: al_modify_compose)
qed

section \<open>Session affinity\<close>

text \<open>The worker a session is bound to, when the binding is at most 15 minutes old and the
  worker is eligible; and the worker a request of the session gets.\<close>

definition bound_worker :: "instant \<Rightarrow> string \<Rightarrow> uuid \<Rightarrow> registry \<Rightarrow> worker_record option" where
  "bound_worker now model sid reg =
     (case binding_at reg (sid, model) of
        None \<Rightarrow> None
      | Some b \<Rightarrow>
          (case worker_at reg (ab_worker_id b) of
             None \<Rightarrow> None
           | Some w \<Rightarrow>
               if now - ab_last_used b \<le> affinity_ttl \<and> eligible w model then Some w else None))"

definition session_choice :: "instant \<Rightarrow> string \<Rightarrow> uuid \<Rightarrow> registry \<Rightarrow> worker_record option" where
  "session_choice now model sid reg =
     (case bound_worker now model sid reg of
        Some w \<Rightarrow> Some w
      | None \<Rightarrow> select_worker (list_workers reg) model)"

lemma choose_worker_session:
  assumes "registry_inv reg"
  shows "choose_worker now model (Some (sid, model)) reg =
    map_option wr_id (session_choice now model sid reg)"
proof (cases "binding_at reg (sid, model)")
  case None
  then show ?thesis
    by (simp add: choose_worker_def preferred_worker_def session_choice_def bound_worker_def
        list_workers_def)
next
  case (Some b)
  then obtain w where "worker_at reg (ab_worker_id b) = Some w" "wr_id w = ab_worker_id b"
    using registry_invD(3,4) [OF assms] by blast
  with Some show ?thesis
    by (simp add: choose_worker_def preferred_worker_def session_choice_def bound_worker_def
        list_workers_def)
qed

lemma session_choice_registered:
  assumes "registry_inv reg" and "session_choice now model sid reg = Some w"
  shows "worker_at reg (wr_id w) = Some w"
proof (cases "bound_worker now model sid reg")
  case None
  with assms(2) have "w \<in> set (al_values (reg_workers reg))"
    by (auto simp: session_choice_def list_workers_def dest: sched.select_sound)
  then show ?thesis using registry_inv_values [OF assms(1)] by simp
next
  case (Some w')
  with assms(2) have "bound_worker now model sid reg = Some w" by (simp add: session_choice_def)
  then show ?thesis using registry_invD(3) [OF assms(1)]
    by (auto simp: bound_worker_def split: option.splits if_splits)
qed

text \<open>
  While a session's binding is at most 15 minutes old and its worker is eligible for
  the model, that worker is selected, whatever the others offer, and the binding is renewed;
  in every other case the scheduler's choice is taken and the session is bound to it. The
  bindings of other sessions and models do not change.
\<close>

theorem session_affinity:
  assumes "registry_inv reg"
  shows "case session_choice now model sid reg of
      None \<Rightarrow> select_and_reserve now model (Some sid) reg = (None, reg)
    | Some w \<Rightarrow>
        fst (select_and_reserve now model (Some sid) reg) =
          Some \<lparr>sw_id = wr_id w, sw_address = wr_address w\<rparr> \<and>
        (\<forall>k. binding_at (snd (select_and_reserve now model (Some sid) reg)) k =
           (if k = (sid, model) then Some \<lparr>ab_worker_id = wr_id w, ab_last_used = now\<rparr>
            else binding_at reg k))"
  using assms
proof (cases rule: select_and_reserve_cases [of reg now model "Some sid"])
  case none
  with choose_worker_session [OF assms] show ?thesis by simp
next
  case (some i w)
  with choose_worker_session [OF assms] obtain w' where
    w': "session_choice now model sid reg = Some w'" "wr_id w' = i" by auto
  have "worker_at reg (wr_id w') = Some w'"
    by (rule session_choice_registered [OF assms w'(1)])
  then have "w' = w" using some(2) w'(2) by simp
  with w' some(5) show ?thesis by (simp add: bind_session_affinity)
qed

section \<open>Expiry and offline workers\<close>

lemma set_offline_id: "w\<lparr>wr_state := Offline\<rparr> = w \<longleftrightarrow> wr_state w = Offline"
  by (cases w) auto

text \<open>
  Expiry marks exactly the workers whose last heartbeat is older than the timeout, and
  keeps exactly the bindings used within 15 minutes whose worker is then not offline.
\<close>

theorem expire_at_correct:
  assumes "registry_inv reg"
  shows "(\<forall>i w. worker_at reg i = Some w \<longrightarrow>
       worker_at (expire_at now timeout reg) i =
         Some (if timeout < now - wr_last_heartbeat w then w\<lparr>wr_state := Offline\<rparr> else w)) \<and>
    (\<forall>k b. binding_at (expire_at now timeout reg) k = Some b \<longleftrightarrow>
       binding_at reg k = Some b \<and> now - ab_last_used b \<le> affinity_ttl \<and>
       (\<exists>w. worker_at (expire_at now timeout reg) (ab_worker_id b) = Some w \<and> wr_state w \<noteq> Offline))"
  using registry_invD(2) [OF assms]
  by (auto simp: expire_at_def Let_def map_of_al_map map_of_al_retain expire_record_def
      set_offline_id split: option.splits if_splits)

text \<open>The operations that carry a report of worker \<open>i\<close> itself.\<close>

fun reports :: "string \<Rightarrow> registry_op \<Rightarrow> bool" where
  "reports i (Register now request) \<longleftrightarrow> wc_node_id (rw_capabilities request) = i"
| "reports i (Heartbeat now j request) \<longleftrightarrow> j = i"
| "reports i _ \<longleftrightarrow> False"

definition is_offline :: "string \<Rightarrow> registry \<Rightarrow> bool" where
  "is_offline i reg \<longleftrightarrow> (\<exists>w. worker_at reg i = Some w \<and> wr_state w = Offline)"

lemma release_record_offline: "wr_state w = Offline \<Longrightarrow> wr_state (release_record w) = Offline"
  by (simp add: release_record_state)

lemma is_offline_step:
  assumes "registry_inv reg" and "is_offline i reg" and "\<not> reports i op"
  shows "is_offline i (registry_step reg op)"
proof (cases op)
  case (SelectAndReserve now model session)
  show ?thesis
    using assms(1)
  proof (cases rule: select_and_reserve_cases [of reg now model session])
    case none
    with assms(2) SelectAndReserve show ?thesis by simp
  next
    case (some j w)
    then have "j \<noteq> i" using assms(2) by (auto simp: is_offline_def eligible_def)
    with some assms(2) SelectAndReserve show ?thesis by (simp add: is_offline_def map_of_al_modify)
  qed
next
  case (Register now request)
  with assms show ?thesis by (auto simp: is_offline_def register_def Let_def update_conv)
next
  case (Heartbeat now j request)
  with assms show ?thesis by (auto simp: is_offline_def heartbeat_def map_of_al_modify split: option.split)
next
  case (Release j)
  with assms show ?thesis
    by (auto simp: is_offline_def release_def map_of_al_modify release_record_offline)
next
  case (ExpireAt now timeout)
  obtain w where "worker_at reg i = Some w" "wr_state w = Offline"
    using assms(2) by (auto simp: is_offline_def)
  with ExpireAt show ?thesis
    by (simp add: is_offline_def expire_at_def Let_def map_of_al_map expire_record_def)
qed (use assms in \<open>auto simp: is_offline_def mark_offline_workers_def mark_offline_affinity_def
  map_of_al_modify\<close>)

lemma is_offline_run:
  assumes "registry_inv reg" and "is_offline i reg" and "\<forall>op \<in> set ops. \<not> reports i op"
  shows "is_offline i (foldl registry_step reg ops)"
  using assms by (induction ops arbitrary: reg) (auto intro: is_offline_step reg.safe_next)

lemma is_offline_mark:
  "worker_at reg i \<noteq> None \<Longrightarrow> is_offline i (mark_offline i reg)"
  by (auto simp: is_offline_def mark_offline_def mark_offline_affinity_def mark_offline_workers_def
      map_of_al_modify)

text \<open>
  Once a worker is marked offline, no sequence of selections, releases, expiries and
  further marks brings it back: until it registers or sends a heartbeat itself it is never
  selected, for any model and any session.
\<close>

theorem offline_until_reported:
  assumes "registry_inv reg" and "worker_at reg i \<noteq> None" and "\<forall>op \<in> set ops. \<not> reports i op"
    and "fst (select_and_reserve now model session
           (foldl registry_step (mark_offline i reg) ops)) = Some s"
  shows "sw_id s \<noteq> i"
proof -
  let ?r = "foldl registry_step (mark_offline i reg) ops"
  have "registry_inv (mark_offline i reg)"
    using assms(1) by (simp add: mark_offline_def registry_inv_ops)
  then have inv: "registry_inv ?r" and off: "is_offline i ?r"
    using reg.safe_run is_offline_run [OF _ is_offline_mark [OF assms(2)] assms(3)] by auto
  show ?thesis
    using inv
  proof (cases rule: select_and_reserve_cases [of ?r now model session])
    case none
    with assms(4) show ?thesis by simp
  next
    case (some j w)
    with off assms(4) show ?thesis by (auto simp: is_offline_def eligible_def)
  qed
qed

section \<open>The model list and the order of the tables\<close>

definition loaded_model_ids :: "registry \<Rightarrow> string set" where
  "loaded_model_ids reg =
     {mc_id m | m w. w \<in> set (list_workers reg) \<and> wr_state w \<noteq> Offline \<and>
                     m \<in> set (wr_models w) \<and> mc_status m = Loaded}"

lemma set_available_models: "set (available_models reg) = loaded_model_ids reg"
  by (auto simp: available_models_def loaded_model_ids_def list_workers_def)

text \<open>
  \<open>GET /v1/models\<close> lists, in ascending byte order and without duplicates, exactly the
  ids of the models that some worker not offline has loaded.
\<close>

theorem available_models_correct:
  "available_models reg = sorted_list_of_set (loaded_model_ids reg)"
proof -
  note set_available_models
  moreover have "sorted (available_models reg)" and "distinct (available_models reg)"
    by (simp_all add: available_models_def sorted_remdups_adj sorted_distinct_remdups_adj)
  ultimately show ?thesis
    by (metis sorted_list_of_set.idem_if_sorted_distinct)
qed

text \<open>
  The order in which the hash map yields the workers is immaterial: on any other
  arrangement of the same table the selection and the model list are the same.
\<close>

theorem table_order_immaterial:
  assumes "registry_inv reg" and "distinct (al_keys ws)" and "set ws = set (reg_workers reg)"
  shows "fst (select_and_reserve now model session (reg\<lparr>reg_workers := ws\<rparr>)) =
      fst (select_and_reserve now model session reg) \<and>
    available_models (reg\<lparr>reg_workers := ws\<rparr>) = available_models reg"
proof (rule conjI)
  have lookup: "map_of ws = map_of (reg_workers reg)"
    using assms registry_invD(1) by (metis map_of_inject_set)
  have "inj_on wr_id (set (al_values (reg_workers reg)))"
    using registry_inv_values [OF assms(1)] by (intro inj_onI) (metis option.inject)
  moreover have "set (al_values ws) = set (al_values (reg_workers reg))"
    using assms(3) by simp
  ultimately have "select_worker (al_values ws) model = select_worker (al_values (reg_workers reg)) model"
    by (intro sched.select_order) auto
  then have "choose_worker now model key (reg\<lparr>reg_workers := ws\<rparr>) = choose_worker now model key reg" for key
    by (cases key) (simp_all add: choose_worker_def preferred_worker_def lookup split: option.split)
  then show "fst (select_and_reserve now model session (reg\<lparr>reg_workers := ws\<rparr>)) =
      fst (select_and_reserve now model session reg)"
    by (auto simp: select_and_reserve_def Let_def lookup split: option.splits)
next
  have vals: "set (al_values ws) = set (al_values (reg_workers reg))"
    using assms(3) by simp
  have "loaded_model_ids (reg\<lparr>reg_workers := ws\<rparr>) = loaded_model_ids reg"
    using vals by (simp add: loaded_model_ids_def list_workers_def)
  then show "available_models (reg\<lparr>reg_workers := ws\<rparr>) = available_models reg"
    by (simp add: available_models_correct)
qed

section \<open>Capacity\<close>

definition within_capacity :: "registry \<Rightarrow> bool" where
  "within_capacity reg \<longleftrightarrow>
     (\<forall>i w. worker_at reg i = Some w \<longrightarrow> wr_active_requests w \<le> wr_max_requests w)"

text \<open>A report is sound if it does not claim more active requests than the worker's maximum.\<close>

fun sound_report :: "registry_op \<Rightarrow> bool" where
  "sound_report (Register now request) \<longleftrightarrow>
     wc_active_requests (rw_capabilities request) \<le> wc_max_requests (rw_capabilities request)"
| "sound_report (Heartbeat now i request) \<longleftrightarrow>
     wc_active_requests (hb_capabilities request) \<le> wc_max_requests (hb_capabilities request)"
| "sound_report _ \<longleftrightarrow> True"

lemma release_record_le:
  "wr_active_requests w \<le> wr_max_requests w \<Longrightarrow>
   wr_active_requests (release_record w) \<le> wr_max_requests (release_record w)"
  by (simp add: word_le_nat_alt release_record_active)

lemma within_capacity_modify:
  assumes "within_capacity reg"
    and "\<And>w. wr_active_requests w \<le> wr_max_requests w \<Longrightarrow> wr_active_requests (f w) \<le> wr_max_requests (f w)"
  shows "within_capacity (reg\<lparr>reg_workers := al_modify i f (reg_workers reg)\<rparr>)"
  using assms by (auto simp: within_capacity_def map_of_al_modify)

lemma within_capacity_step:
  assumes "registry_inv reg" and "within_capacity reg" and "sound_report op"
  shows "within_capacity (registry_step reg op)"
proof (cases op)
  case (SelectAndReserve now model session)
  show ?thesis
    using assms(1)
  proof (cases rule: select_and_reserve_cases [of reg now model session])
    case none
    with assms(2) SelectAndReserve show ?thesis by simp
  next
    case (some i w)
    with assms(2) SelectAndReserve reserve_record_active(2,3) [OF some(4)] show ?thesis
      by (auto simp: within_capacity_def map_of_al_modify)
  qed
next
  case (Heartbeat now i request)
  with assms show ?thesis
    by (auto simp: heartbeat_def heartbeat_record_def intro!: within_capacity_modify split: option.split)
next
  case (Release i)
  with assms(2) show ?thesis by (simp add: release_def within_capacity_modify release_record_le)
next
  case (ExpireAt now timeout)
  with assms(2) show ?thesis
    by (auto simp: within_capacity_def expire_at_def Let_def map_of_al_map expire_record_def)
qed (use assms in \<open>auto simp: within_capacity_def register_def Let_def update_conv
  mark_offline_workers_def mark_offline_affinity_def map_of_al_modify split: if_splits\<close>)

text \<open>
  As long as workers report soundly, no record of a reachable registry shows more
  active requests than its maximum: reservations stop at the limit and releases never take
  the counter below zero.
\<close>

lemma registry_within_capacity:
  assumes "\<forall>op \<in> set ops. sound_report op"
  shows "within_capacity (foldl registry_step registry_default ops)"
proof -
  have "registry_inv reg \<Longrightarrow> within_capacity reg \<Longrightarrow> \<forall>op \<in> set ops. sound_report op \<Longrightarrow>
      within_capacity (foldl registry_step reg ops)" for reg
    by (induction ops arbitrary: reg) (auto intro: within_capacity_step reg.safe_next)
  moreover have "within_capacity registry_default"
    by (simp add: within_capacity_def registry_default_def)
  ultimately show ?thesis using registry_inv_default assms by blast
qed

section \<open>A sample registry\<close>

definition demo_capabilities :: "string \<Rightarrow> usize \<Rightarrow> usize \<Rightarrow> acceleration \<Rightarrow> worker_capabilities" where
  "demo_capabilities i active maximum acc =
     \<lparr>wc_node_id = i,
      wc_models = [\<lparr>mc_id = ''m'', mc_status = Loaded, mc_manifest_sha256 = None\<rparr>],
      wc_active_requests = active, wc_max_requests = maximum, wc_state = Available,
      wc_hardware = \<lparr>hw_architecture = ''arm64'', hw_total_memory_bytes = 1,
        hw_available_memory_bytes = 1, hw_acceleration = acc\<rparr>\<rparr>"

definition demo_ops :: "registry_op list" where
  "demo_ops =
     [Register 0 \<lparr>rw_address = ''http://a'', rw_capabilities = demo_capabilities ''a'' 0 1 Cpu\<rparr>,
      Register 0 \<lparr>rw_address = ''http://b'', rw_capabilities = demo_capabilities ''b'' 0 2 Metal\<rparr>]"

definition demo_registry :: registry where
  "demo_registry = foldl registry_step registry_default demo_ops"

lemma demo_registry_inv: "registry_inv demo_registry"
  by (simp add: demo_registry_def reg.safe_from_start)

definition demo_bound :: registry where
  "demo_bound = bind_session 0 ''m'' (Some 7) ''a'' demo_registry"

lemma demo_bound_inv: "registry_inv demo_bound"
proof -
  have "\<not> Option.is_none (worker_at demo_registry ''a'')" by code_simp
  then show ?thesis
    using registry_inv_bind [OF demo_registry_inv] by (auto simp: demo_bound_def Option.is_none_def)
qed

text \<open>
  A session bound to the slower of two workers stays with it, one without a binding gets the faster.\<close>

theorem select_and_reserve_correct_witness:
  "(\<exists>s reg'. select_and_reserve 1 ''m'' (Some 7) demo_bound = (Some s, reg') \<and> sw_id s = ''a'' \<and>
      sticks_to 1 ''m'' (Some 7) demo_bound ''a'' \<and>
      binding_at reg' (7, ''m'') = Some \<lparr>ab_worker_id = ''a'', ab_last_used = 1\<rparr>) \<and>
   (\<exists>s reg'. select_and_reserve 1 ''m'' None demo_bound = (Some s, reg') \<and> sw_id s = ''b'' \<and>
      first_worker ''m'' demo_bound ''b'')"
proof -
  have binding: "binding_at demo_bound (7, ''m'') = Some \<lparr>ab_worker_id = ''a'', ab_last_used = 0\<rparr>"
    by (simp add: demo_bound_def bind_session_affinity)
  have "list_ex (\<lambda>w. eligible w ''m'') (case worker_at demo_bound ''a'' of None \<Rightarrow> [] | Some w \<Rightarrow> [w])"
    by code_simp
  then have serves: "\<exists>w. worker_at demo_bound ''a'' = Some w \<and> can_serve ''m'' w"
    by (auto simp: eligible_can_serve split: option.splits)
  with binding have sticks: "sticks_to 1 ''m'' (Some 7) demo_bound j \<longleftrightarrow> j = ''a''" for j
    by (auto simp: sticks_to_def)
  have loose: "sticks_to now ''m'' None demo_bound = (\<lambda>_. False)" for now by (simp add: fun_eq_iff sticks_to_def)
  note bound = select_and_reserve_correct [OF demo_bound_inv, where now = 1 and model = "''m''" and session = "Some 7"]
  obtain s r1 where r1: "select_and_reserve 1 ''m'' (Some 7) demo_bound = (Some s, r1)"
    using bound serves by (cases "select_and_reserve 1 ''m'' (Some 7) demo_bound"; cases "fst (select_and_reserve 1 ''m'' (Some 7) demo_bound)") auto
  have s: "sw_id s = ''a''" "binding_at r1 (7, ''m'') = Some \<lparr>ab_worker_id = sw_id s, ab_last_used = 1\<rparr>"
    using bound unfolding r1 prod.case option.case sticks by simp_all
  have "fst (select_and_reserve 1 ''m'' None demo_bound) = Some \<lparr>sw_id = ''b'', sw_address = ''http://b''\<rparr>"
    by code_simp
  then obtain r2 where r2: "select_and_reserve 1 ''m'' None demo_bound = (Some \<lparr>sw_id = ''b'', sw_address = ''http://b''\<rparr>, r2)"
    by (metis prod.collapse)
  have "first_worker ''m'' demo_bound ''b''"
    using select_and_reserve_correct [OF demo_bound_inv, where now = 1 and model = "''m''" and session = None]
    unfolding r2 prod.case option.case by (simp add: loose)
  with r1 r2 s sticks show ?thesis by auto
qed

theorem release_undoes_reservation_witness:
  "reg_workers (release ''b'' (snd (select_and_reserve 1 ''m'' None demo_registry))) =
   reg_workers demo_registry"
proof -
  have "fst (select_and_reserve 1 ''m'' None demo_registry) =
      Some \<lparr>sw_id = ''b'', sw_address = ''http://b''\<rparr>"
    by code_simp
  then show ?thesis
    using release_undoes_reservation [OF demo_registry_inv, where now = 1 and model = "''m''" and session = None
        and s = "\<lparr>sw_id = ''b'', sw_address = ''http://b''\<rparr>"]
    by (cases "select_and_reserve 1 ''m'' None demo_registry") auto
qed

theorem session_affinity_witness:
  "fst (select_and_reserve 1 ''m'' (Some 7) demo_registry) =
     Some \<lparr>sw_id = ''b'', sw_address = ''http://b''\<rparr>"
proof -
  have "map_option (\<lambda>w. (wr_id w, wr_address w)) (session_choice 1 ''m'' 7 demo_registry) =
      Some (''b'', ''http://b'')"
    by code_simp
  then show ?thesis
    using session_affinity [OF demo_registry_inv, where now = 1 and model = "''m''" and sid = 7] by (auto split: option.splits)
qed

theorem expire_at_correct_witness:
  "\<exists>w. worker_at demo_registry ''a'' = Some w \<and>
       worker_at (expire_at 20 15 demo_registry) ''a'' = Some (w\<lparr>wr_state := Offline\<rparr>)"
proof -
  have "map_option wr_last_heartbeat (worker_at demo_registry ''a'') = Some 0"
    by code_simp
  then obtain w where "worker_at demo_registry ''a'' = Some w" "wr_last_heartbeat w = 0" by auto
  with expire_at_correct [OF demo_registry_inv, where now = 20 and timeout = 15] show ?thesis by auto
qed

theorem offline_until_reported_witness:
  "\<exists>s. fst (select_and_reserve 1 ''m'' None
          (foldl registry_step (mark_offline ''b'' demo_registry) [Release ''b''])) = Some s \<and>
       sw_id s \<noteq> ''b''"
proof -
  have "fst (select_and_reserve 1 ''m'' None
          (foldl registry_step (mark_offline ''b'' demo_registry) [Release ''b''])) =
      Some \<lparr>sw_id = ''a'', sw_address = ''http://a''\<rparr>"
    by code_simp
  moreover have "\<not> Option.is_none (worker_at demo_registry ''b'')"
    by code_simp
  ultimately show ?thesis
    using offline_until_reported [OF demo_registry_inv, where i = "''b''" and ops = "[Release ''b'']"
        and now = 1 and model = "''m''" and session = None]
    by (auto simp: Option.is_none_def)
qed

theorem table_order_immaterial_witness:
  "fst (select_and_reserve 1 ''m'' None
     (demo_registry\<lparr>reg_workers := rev (reg_workers demo_registry)\<rparr>)) =
   fst (select_and_reserve 1 ''m'' None demo_registry) \<and>
   available_models (demo_registry\<lparr>reg_workers := rev (reg_workers demo_registry)\<rparr>) =
   available_models demo_registry"
  using registry_invD(1) [OF demo_registry_inv]
  by (intro table_order_immaterial [OF demo_registry_inv]) (simp_all flip: rev_map)

end
