(* ===== verification/Sse.thy ===== *)
theory Sse
  imports Rust_Str
begin

text \<open>
  Server-sent event framing: \<open>sse_frame_end\<close> and \<open>sse_data\<close> of
  \<open>crates/coordinator/src/api.rs\<close>, the frame search of the harness in
  \<open>crates/harness/src/main.rs\<close>, and the loop both use to take complete frames off a growing
  buffer. The interface \<open>frame_splitter\<close> states when such a loop does not depend on how the
  transport cuts the byte stream into chunks.
\<close>

abbreviation LF :: char where "LF \<equiv> CHR 0x0A"
abbreviation CR :: char where "CR \<equiv> CHR 0x0D"

section \<open>Frames\<close>

definition sse_frame_end :: "bytes \<Rightarrow> nat option" where
  "sse_frame_end bs =
     (case map_option (\<lambda>position. position + 2) (find_sub [LF, LF] bs) of
        Some e \<Rightarrow> Some e
      | None \<Rightarrow> map_option (\<lambda>position. position + 4) (find_sub [CR, LF, CR, LF] bs))"

text \<open>The harness looks for an empty line between line feeds only.\<close>

definition harness_frame_end :: "bytes \<Rightarrow> nat option" where
  "harness_frame_end bs = map_option (\<lambda>position. position + 2) (find_sub [LF, LF] bs)"

text \<open>
  \<open>data:\<close> lines of one frame, joined by line feeds; \<open>utf8_error\<close> is the text of the error
  that the UTF-8 validation of the standard library reports.
\<close>

definition data_lines :: "string \<Rightarrow> string list" where
  "data_lines frame =
     List.map_filter (\<lambda>line. map_option trim_start (strip_prefix ''data:'' line)) (str_lines frame)"

definition sse_data :: "(bytes \<Rightarrow> string) \<Rightarrow> bytes \<Rightarrow> string + string option" where
  "sse_data utf8_error frame =
     (if \<not> utf8_valid frame then Inl (''invalid UTF-8 worker SSE frame: '' @ utf8_error frame)
      else (let data = data_lines frame in
            if data = [] then Inr None else Inr (Some (str_join [LF] data))))"

section \<open>Taking frames off the buffer\<close>

text \<open>
  The inner loop \<open>while let Some(end) = ... { drain(..end) }\<close>: the complete frames and the
  bytes that stay pending. An \<open>end\<close> outside the buffer cannot occur; the guard makes the
  recursion terminate.
\<close>

function split_frames :: "('a list \<Rightarrow> nat option) \<Rightarrow> 'a list \<Rightarrow> 'a list list \<times> 'a list" where
  "split_frames frame_end pending =
     (case frame_end pending of
        None \<Rightarrow> ([], pending)
      | Some e \<Rightarrow>
          if 0 < e \<and> e \<le> length pending
          then (let (frames, rest) = split_frames frame_end (drop e pending)
                in (take e pending # frames, rest))
          else ([], pending))"
  by pat_completeness auto
termination by (relation "measure (\<lambda>(frame_end, pending). length pending)") auto

declare split_frames.simps [simp del]

text \<open>The outer loop over the chunks of the body.\<close>

fun feed_chunks ::
  "('a list \<Rightarrow> nat option) \<Rightarrow> 'a list \<Rightarrow> 'a list list \<Rightarrow> 'a list list \<times> 'a list" where
  "feed_chunks frame_end pending [] = ([], pending)"
| "feed_chunks frame_end pending (chunk # chunks) =
     (let (frames, rest) = split_frames frame_end (pending @ chunk);
          (frames', rest') = feed_chunks frame_end rest chunks
      in (frames @ frames', rest'))"

section \<open>The interface\<close>

text \<open>
  \<open>frame_end\<close> finds the end of the first frame inside the buffer, and on admissible input
  more bytes do not move it.
\<close>

locale frame_splitter =
  fixes frame_end :: "'a list \<Rightarrow> nat option"
    and admissible :: "'a list \<Rightarrow> bool"
  assumes end_inside: "frame_end xs = Some n \<Longrightarrow> 0 < n \<and> n \<le> length xs"
    and end_stable: "admissible (xs @ ys) \<Longrightarrow> frame_end xs = Some n \<Longrightarrow> frame_end (xs @ ys) = Some n"
    and admissible_suffix: "admissible (xs @ ys) \<Longrightarrow> admissible ys"
begin

lemma split_frames_None: "frame_end xs = None \<Longrightarrow> split_frames frame_end xs = ([], xs)"
  by (simp add: split_frames.simps)

lemma split_frames_Some:
  "frame_end xs = Some n \<Longrightarrow>
   split_frames frame_end xs =
     (take n xs # fst (split_frames frame_end (drop n xs)), snd (split_frames frame_end (drop n xs)))"
  using end_inside [of xs n] by (simp add: split_frames.simps [of frame_end xs] case_prod_beta)

lemma split_frames_concat:
  "concat (fst (split_frames frame_end xs)) @ snd (split_frames frame_end xs) = xs"
proof (induction xs rule: length_induct)
  case (1 xs)
  show ?case
  proof (cases "frame_end xs")
    case None
    then show ?thesis by (simp add: split_frames_None)
  next
    case (Some n)
    with end_inside [OF Some] "1"
    have "concat (fst (split_frames frame_end (drop n xs))) @ snd (split_frames frame_end (drop n xs)) =
        drop n xs"
      by auto
    with Some show ?thesis by (simp add: split_frames_Some)
  qed
qed

lemma split_frames_append:
  "admissible (xs @ ys) \<Longrightarrow>
   split_frames frame_end (xs @ ys) =
     (fst (split_frames frame_end xs) @ fst (split_frames frame_end (snd (split_frames frame_end xs) @ ys)),
      snd (split_frames frame_end (snd (split_frames frame_end xs) @ ys)))"
proof (induction xs rule: length_induct)
  case (1 xs)
  show ?case
  proof (cases "frame_end xs")
    case None
    then show ?thesis by (simp add: split_frames_None)
  next
    case (Some n)
    note n = end_inside [OF Some]
    have "admissible (drop n xs @ ys)"
      using "1.prems" admissible_suffix [of "take n xs" "drop n xs @ ys"]
      by (metis append.assoc append_take_drop_id)
    with n "1.IH" have "split_frames frame_end (drop n xs @ ys) =
        (fst (split_frames frame_end (drop n xs)) @
           fst (split_frames frame_end (snd (split_frames frame_end (drop n xs)) @ ys)),
         snd (split_frames frame_end (snd (split_frames frame_end (drop n xs)) @ ys)))"
      by auto
    with n show ?thesis
      by (simp add: split_frames_Some [OF end_stable [OF "1.prems" Some]] split_frames_Some [OF Some])
  qed
qed

lemma split_frames_rest:
  "split_frames frame_end (snd (split_frames frame_end xs)) = ([], snd (split_frames frame_end xs))"
proof -
  have "frame_end (snd (split_frames frame_end xs)) = None"
  proof (induction xs rule: length_induct)
    case (1 xs)
    then show ?case
      using end_inside [of xs]
      by (cases "frame_end xs") (auto simp: split_frames_None split_frames_Some)
  qed
  then show ?thesis by (rule split_frames_None)
qed

lemma feed_chunks_concat:
  "admissible (pending @ concat chunks) \<Longrightarrow> split_frames frame_end pending = ([], pending) \<Longrightarrow>
   feed_chunks frame_end pending chunks = split_frames frame_end (pending @ concat chunks)"
proof (induction chunks arbitrary: pending)
  case Nil
  then show ?case by simp
next
  case (Cons chunk chunks)
  let ?s = "split_frames frame_end (pending @ chunk)"
  have stop: "split_frames frame_end (snd ?s) = ([], snd ?s)"
    by (rule split_frames_rest)
  have "concat (fst ?s) @ snd ?s = pending @ chunk"
    by (rule split_frames_concat)
  then have "pending @ concat (chunk # chunks) = concat (fst ?s) @ (snd ?s @ concat chunks)"
    by (metis append.assoc concat.simps(2))
  then have "admissible (snd ?s @ concat chunks)"
    using Cons.prems(1) admissible_suffix by metis
  then have "feed_chunks frame_end (snd ?s) chunks = split_frames frame_end (snd ?s @ concat chunks)"
    using stop by (rule Cons.IH)
  moreover have "admissible ((pending @ chunk) @ concat chunks)"
    using Cons.prems(1) by simp
  ultimately show ?case
    using split_frames_append [of "pending @ chunk" "concat chunks"] by (simp add: case_prod_beta)
qed

end

section \<open>The two splitters\<close>

lemma find_sub_inside: "find_sub p xs = Some n \<Longrightarrow> n + length p \<le> length xs"
  by (simp add: find_sub_Some)

lemma find_sub_mem: "find_sub p xs = Some n \<Longrightarrow> set p \<subseteq> set xs"
  by (drule find_sub_Some) (metis set_append Un_upper1 Un_upper2 subset_trans)

text \<open>Without carriage returns the coordinator's search and the harness's search agree.\<close>

lemma sse_frame_end_no_CR: "CR \<notin> set bs \<Longrightarrow> sse_frame_end bs = harness_frame_end bs"
  by (cases "find_sub [CR, LF, CR, LF] bs")
    (auto simp: sse_frame_end_def harness_frame_end_def split: option.split dest: find_sub_mem)

interpretation harness_frames: frame_splitter harness_frame_end "\<lambda>_. True"
  by unfold_locales (auto simp: harness_frame_end_def find_sub_append dest: find_sub_inside)

interpretation coordinator_frames: frame_splitter sse_frame_end "\<lambda>bs. CR \<notin> set bs"
proof
  fix xs ys :: bytes and n
  show "sse_frame_end xs = Some n \<Longrightarrow> 0 < n \<and> n \<le> length xs"
    by (auto simp: sse_frame_end_def dest: find_sub_inside split: option.splits)
  show "CR \<notin> set (xs @ ys) \<Longrightarrow> sse_frame_end xs = Some n \<Longrightarrow> sse_frame_end (xs @ ys) = Some n"
    using harness_frames.end_stable [where xs = xs and ys = ys and n = n] by (simp add: sse_frame_end_no_CR)
  show "CR \<notin> set (xs @ ys) \<Longrightarrow> CR \<notin> set ys"
    by simp
qed

text \<open>
  On a worker stream without carriage returns the coordinator recovers the same frames,
  and is left with the same pending bytes, however the body is cut into chunks.
\<close>

theorem chunking_immaterial:
  assumes "CR \<notin> set (concat chunks)"
  shows "feed_chunks sse_frame_end [] chunks = split_frames sse_frame_end (concat chunks)"
  using coordinator_frames.feed_chunks_concat [of "[]" chunks] assms
  by (simp add: coordinator_frames.split_frames_None sse_frame_end_def)

theorem chunking_immaterial_witness:
  "feed_chunks sse_frame_end [] [''data: a'' @ [LF], LF # ''data: b'', [LF, LF]] =
     ([''data: a'' @ [LF, LF], ''data: b'' @ [LF, LF]], [])"
proof -
  have "split_frames sse_frame_end (''data: a'' @ [LF, LF] @ ''data: b'' @ [LF, LF]) =
      ([''data: a'' @ [LF, LF], ''data: b'' @ [LF, LF]], [])"
    by code_simp
  then show ?thesis
    using chunking_immaterial [of "[''data: a'' @ [LF], LF # ''data: b'', [LF, LF]]"] by simp
qed

text \<open>
  With frames ended by CR LF CR LF the result depends on the chunks: \<open>sse_frame_end\<close> prefers
  an empty line between line feeds anywhere in the buffer to an earlier CR LF CR LF, so two
  frames that arrive together are taken for one, whose data lines are joined.
\<close>

theorem crlf_frames_depend_on_chunks:
  "feed_chunks sse_frame_end [] [''data: a'' @ [CR, LF, CR, LF], ''data: b'' @ [LF, LF]] =
     ([''data: a'' @ [CR, LF, CR, LF], ''data: b'' @ [LF, LF]], []) \<and>
   feed_chunks sse_frame_end [] [''data: a'' @ [CR, LF, CR, LF] @ ''data: b'' @ [LF, LF]] =
     ([''data: a'' @ [CR, LF, CR, LF] @ ''data: b'' @ [LF, LF]], []) \<and>
   sse_data (\<lambda>_. []) (''data: a'' @ [CR, LF, CR, LF] @ ''data: b'' @ [LF, LF]) =
     Inr (Some (''a'' @ [LF] @ ''b''))"
  by (intro conjI; code_simp)

section \<open>Round trip\<close>

text \<open>
  The frame of a one-line payload, as the worker's event stream writes it on the wire: a
  \<open>data:\<close> field, a space, the payload and an empty line.
\<close>

definition sse_encode :: "string \<Rightarrow> bytes" where
  "sse_encode payload = ''data: '' @ payload @ [LF, LF]"

text \<open>What a payload must be for its frame to carry it: valid UTF-8 on one line, without
  white space at its start.\<close>

definition sse_payload :: "string \<Rightarrow> bool" where
  "sse_payload p \<longleftrightarrow> LF \<notin> set p \<and> CR \<notin> set p \<and> utf8_valid p \<and> trim_start p = p"

lemma lines_acc_no_LF:
  "LF \<notin> set l \<Longrightarrow> lines_acc acc (l @ LF # rest) = strip_cr (rev acc @ l) # lines_acc [] rest"
  by (induction l arbitrary: acc) auto

lemma str_lines_encode:
  assumes "LF \<notin> set l" "CR \<notin> set l"
  shows "str_lines (l @ [LF, LF]) = [l, []]"
proof -
  have "strip_cr l = l" using assms by (auto simp: strip_cr_def dest: last_in_set)
  then show ?thesis
    using lines_acc_no_LF [of l "[]" "[LF]"] assms by (simp add: str_lines_def strip_cr_def)
qed

lemma trim_start_space: "trim_start (CHR '' '' # s) = trim_start s"
  by (simp add: trim_start_def trim_with.simps [of _ "CHR '' '' # s"] white_space_def)

lemma data_lines_encode: "sse_payload p \<Longrightarrow> data_lines (sse_encode p) = [p]"
  using str_lines_encode [of "''data: '' @ p"]
  by (simp add: sse_encode_def sse_payload_def data_lines_def List.map_filter_def trim_start_space)

lemma utf8_valid_encode: "sse_payload p \<Longrightarrow> utf8_valid (sse_encode p)"
  using utf8_valid_append [of "''data: ''"] utf8_valid_append [of p]
  by (simp add: sse_payload_def sse_encode_def in_range_def)

lemma sse_data_encode: "sse_payload p \<Longrightarrow> sse_data utf8_error (sse_encode p) = Inr (Some p)"
  by (simp add: sse_data_def data_lines_encode utf8_valid_encode)

lemma find_sub_LF: "LF \<notin> set l \<Longrightarrow> find_sub [LF, LF] (l @ LF # LF # rest) = Some (length l)"
  by (induction l) (auto simp: starts_with_def)

lemma frame_end_encode:
  assumes "LF \<notin> set p"
  shows "harness_frame_end (sse_encode p @ rest) = Some (length (sse_encode p))"
  using find_sub_LF [of "''data: '' @ p" rest] assms
  by (simp add: harness_frame_end_def sse_encode_def del: find_sub.simps)

lemma harness_frame_end_Nil: "harness_frame_end [] = None"
  by (simp add: harness_frame_end_def)

lemma split_frames_encode:
  assumes "\<forall>p \<in> set ps. LF \<notin> set p"
  shows "split_frames harness_frame_end (concat (map sse_encode ps)) = (map sse_encode ps, [])"
  using assms
proof (induction ps)
  case Nil
  then show ?case by (simp add: harness_frames.split_frames_None harness_frame_end_Nil)
next
  case (Cons p ps)
  then have "harness_frame_end (sse_encode p @ concat (map sse_encode ps)) = Some (length (sse_encode p))"
    by (intro frame_end_encode) simp
  with Cons show ?case by (simp add: harness_frames.split_frames_Some)
qed

lemma split_frames_no_CR:
  "CR \<notin> set bs \<Longrightarrow> split_frames sse_frame_end bs = split_frames harness_frame_end bs"
proof (induction bs rule: length_induct)
  case (1 bs)
  note same = sse_frame_end_no_CR [OF "1.prems"]
  show ?case
  proof (cases "harness_frame_end bs")
    case None
    with same show ?thesis
      by (simp add: harness_frames.split_frames_None coordinator_frames.split_frames_None)
  next
    case (Some n)
    moreover have "CR \<notin> set (drop n bs)" using "1.prems" by (auto dest: in_set_dropD)
    ultimately have "split_frames sse_frame_end (drop n bs) = split_frames harness_frame_end (drop n bs)"
      using harness_frames.end_inside [OF Some] "1.IH" by auto
    with Some same show ?thesis
      by (simp add: harness_frames.split_frames_Some coordinator_frames.split_frames_Some)
  qed
qed

lemma feed_chunks_encoded:
  assumes "\<forall>p \<in> set ps. sse_payload p" and "concat chunks = concat (map sse_encode ps)"
  shows "feed_chunks sse_frame_end [] chunks = (map sse_encode ps, [])"
proof -
  have "CR \<notin> set (concat chunks)"
    using assms by (auto simp: sse_payload_def sse_encode_def)
  then have "feed_chunks sse_frame_end [] chunks = split_frames harness_frame_end (concat chunks)"
    using coordinator_frames.feed_chunks_concat [of "[]" chunks]
    by (simp add: coordinator_frames.split_frames_None sse_frame_end_def split_frames_no_CR)
  also have "\<dots> = (map sse_encode ps, [])"
    unfolding assms(2) by (rule split_frames_encode) (use assms(1) in \<open>simp add: sse_payload_def\<close>)
  finally show ?thesis .
qed

text \<open>
  C30. Whatever one-line payloads the worker writes and however the transport cuts the bytes,
  the frames the coordinator takes off its buffer carry exactly these payloads in
  order, and nothing stays pending.
\<close>

theorem sse_stream_roundtrip:
  assumes "\<forall>p \<in> set ps. sse_payload p" and "concat chunks = concat (map sse_encode ps)"
  shows "snd (feed_chunks sse_frame_end [] chunks) = [] \<and>
    map (sse_data utf8_error) (fst (feed_chunks sse_frame_end [] chunks)) = map (Inr \<circ> Some) ps"
  using feed_chunks_encoded [OF assms] assms(1) by (simp add: sse_data_encode)

theorem sse_stream_roundtrip_witness:
  "map (sse_data (\<lambda>_. []))
     (fst (feed_chunks sse_frame_end [] [''data: {'', ''}'' @ [LF], LF # ''data: [DONE]'' @ [LF, LF]])) =
   [Inr (Some ''{}''), Inr (Some ''[DONE]'')]"
proof -
  have "sse_payload ''{}''" "sse_payload ''[DONE]''"
    by code_simp+
  then show ?thesis
    using sse_stream_roundtrip [of "[''{}'', ''[DONE]'']"
        "[''data: {'', ''}'' @ [LF], LF # ''data: [DONE]'' @ [LF, LF]]" "\<lambda>_. []"]
    by (simp add: sse_encode_def)
qed

end
