(* ===== verification/Openai.thy ===== *)
theory Openai
  imports Protocol
begin

text \<open>
  The public OpenAI-compatible types and conversions of \<open>crates/coordinator/src/openai.rs\<close>.
  Parameters stand for code outside the repository: \<open>parse_json\<close> (\<open>serde_json::from_str\<close>,
  \<open>None\<close> for an error), \<open>print_json\<close> (\<open>Value::to_string\<close>), \<open>show_uuid\<close> (the display of a
  UUID). A fresh UUID and the clock are arguments.
\<close>

section \<open>Requests\<close>

datatype openai_role = OSystem | ODeveloper | OUser | OAssistant | OTool

record openai_function_call =
  of_name :: string
  of_arguments :: string

record openai_tool_call =
  ot_id :: string
  ot_kind :: tool_type
  ot_function :: openai_function_call

record chat_completion_message =
  om_role :: openai_role
  om_content :: "json_value option"
  om_tool_calls :: "openai_tool_call list"
  om_tool_call_id :: "string option"

record chat_completion_request =
  cr_model :: string
  cr_messages :: "chat_completion_message list"
  cr_tools :: "tool_definition list"
  cr_stream :: bool
  cr_max_tokens :: "usize option"
  cr_max_completion_tokens :: "usize option"
  cr_template :: "string option"

datatype request_error =
    RequestEmptyMessages
  | NonTextContent
  | InvalidCallArguments string
  | Validation request_validation_error

fun request_error_to_string :: "request_error \<Rightarrow> string" where
  "request_error_to_string RequestEmptyMessages = ''messages must not be empty''"
| "request_error_to_string NonTextContent = ''message content must be text''"
| "request_error_to_string (InvalidCallArguments name) =
     ''tool call arguments for '' @ name @ '' must be a JSON object''"
| "request_error_to_string (Validation e) = request_validation_error_to_string e"

definition convert_role :: "openai_role \<Rightarrow> chat_role" where
  "convert_role r =
     (case r of OSystem \<Rightarrow> System | ODeveloper \<Rightarrow> System | OUser \<Rightarrow> User
      | OAssistant \<Rightarrow> Assistant | OTool \<Rightarrow> Tool)"

definition part_text :: "json_value \<Rightarrow> string option" where
  "part_text part = (case json_get ''text'' part of None \<Rightarrow> None | Some v \<Rightarrow> as_str v)"

definition convert_content :: "json_value option \<Rightarrow> request_error + string" where
  "convert_content content =
     (case content of
        None \<Rightarrow> Inr []
      | Some JNull \<Rightarrow> Inr []
      | Some (JString s) \<Rightarrow> Inr s
      | Some (JArray parts) \<Rightarrow>
          (case those (map part_text parts) of
             None \<Rightarrow> Inl NonTextContent
           | Some texts \<Rightarrow> Inr (concat texts))
      | Some _ \<Rightarrow> Inl NonTextContent)"

definition convert_tool_call ::
  "(string \<Rightarrow> json_value option) \<Rightarrow> openai_tool_call \<Rightarrow> request_error + tool_call" where
  "convert_tool_call parse_json call =
     (case parse_json (of_arguments (ot_function call)) of
        None \<Rightarrow> Inl (InvalidCallArguments (of_name (ot_function call)))
      | Some arguments \<Rightarrow>
          if \<not> is_object arguments then Inl (InvalidCallArguments (of_name (ot_function call)))
          else Inr \<lparr>tc_id = ot_id call, tc_kind = ot_kind call,
                    tc_function = \<lparr>fc_name = of_name (ot_function call),
                                   fc_arguments = arguments\<rparr>\<rparr>)"

definition convert_message ::
  "(string \<Rightarrow> json_value option) \<Rightarrow> chat_completion_message \<Rightarrow> request_error + chat_message" where
  "convert_message parse_json message =
     (case convert_content (om_content message) of
        Inl e \<Rightarrow> Inl e
      | Inr content \<Rightarrow>
          (case collect_results (map (convert_tool_call parse_json) (om_tool_calls message)) of
             Inl e \<Rightarrow> Inl e
           | Inr calls \<Rightarrow>
               Inr \<lparr>cm_role = convert_role (om_role message), cm_content = content,
                    cm_tool_calls = calls, cm_tool_call_id = om_tool_call_id message\<rparr>))"

definition chosen_max_tokens :: "chat_completion_request \<Rightarrow> usize" where
  "chosen_max_tokens request =
     (case cr_max_completion_tokens request of
        Some n \<Rightarrow> n
      | None \<Rightarrow> (case cr_max_tokens request of Some n \<Rightarrow> n | None \<Rightarrow> 100))"

definition try_from_request ::
  "(string \<Rightarrow> json_value option) \<Rightarrow> uuid \<Rightarrow> chat_completion_request \<Rightarrow>
   request_error + generate_request" where
  "try_from_request parse_json new_id request =
     (if cr_messages request = [] then Inl RequestEmptyMessages
      else case validate_tools (cr_tools request) of
        Inl e \<Rightarrow> Inl (Validation e)
      | Inr _ \<Rightarrow>
          (case collect_results (map (convert_message parse_json) (cr_messages request)) of
             Inl e \<Rightarrow> Inl e
           | Inr messages \<Rightarrow>
               (case validate_tool_history messages (cr_tools request) of
                  Inl e \<Rightarrow> Inl (Validation (InvalidToolHistory (tool_history_error_to_string e)))
                | Inr _ \<Rightarrow>
                    Inr \<lparr>gr_request_id = new_id, gr_session_id = None, gr_model = cr_model request,
                         gr_prompt = None, gr_messages = Some messages,
                         gr_template = cr_template request, gr_tools = cr_tools request,
                         gr_max_tokens = chosen_max_tokens request\<rparr>)))"

section \<open>Responses\<close>

record openai_model =
  md_id :: string
  md_object :: string
  md_owned_by :: string

record models_response =
  ms_object :: string
  ms_data :: "openai_model list"

record openai_error =
  oe_message :: string
  oe_kind :: string
  oe_code :: "string option"

record error_response =
  er_error :: openai_error

definition invalid_request :: "string \<Rightarrow> error_response" where
  "invalid_request message =
     \<lparr>er_error = \<lparr>oe_message = message, oe_kind = ''invalid_request_error'', oe_code = None\<rparr>\<rparr>"

definition server_error :: "string \<Rightarrow> error_response" where
  "server_error message =
     \<lparr>er_error = \<lparr>oe_message = message, oe_kind = ''server_error'', oe_code = None\<rparr>\<rparr>"

record completion_usage =
  cu_prompt_tokens :: usize
  cu_completion_tokens :: usize
  cu_total_tokens :: usize

record assistant_message =
  am_role :: string
  am_content :: "string option"
  am_tool_calls :: "openai_tool_call list"

record completion_choice =
  cc_index :: nat
  cc_message :: assistant_message
  cc_finish_reason :: finish_reason

record chat_completion_response =
  cp_id :: string
  cp_object :: string
  cp_created :: u64
  cp_model :: string
  cp_choices :: "completion_choice list"
  cp_usage :: completion_usage

definition tool_calls_response ::
  "(json_value \<Rightarrow> string) \<Rightarrow> tool_call list \<Rightarrow> openai_tool_call list" where
  "tool_calls_response print_json calls =
     map (\<lambda>call. \<lparr>ot_id = tc_id call, ot_kind = tc_kind call,
                  ot_function = \<lparr>of_name = fc_name (tc_function call),
                    of_arguments = print_json (fc_arguments (tc_function call))\<rparr>\<rparr>) calls"

definition usage :: "usize \<Rightarrow> usize \<Rightarrow> completion_usage" where
  "usage input_tokens output_tokens =
     \<lparr>cu_prompt_tokens = input_tokens, cu_completion_tokens = output_tokens,
      cu_total_tokens = input_tokens + output_tokens\<rparr>"

definition from_generate ::
  "(json_value \<Rightarrow> string) \<Rightarrow> (uuid \<Rightarrow> string) \<Rightarrow> u64 \<Rightarrow> string \<Rightarrow> generate_response \<Rightarrow>
   chat_completion_response" where
  "from_generate print_json show_uuid created model response =
     \<lparr>cp_id = ''chatcmpl-'' @ show_uuid (gp_request_id response),
      cp_object = ''chat.completion'', cp_created = created, cp_model = model,
      cp_choices =
        [\<lparr>cc_index = 0,
          cc_message = \<lparr>am_role = ''assistant'',
            am_content = (if gp_text response \<noteq> [] then Some (gp_text response) else None),
            am_tool_calls = tool_calls_response print_json (gp_tool_calls response)\<rparr>,
          cc_finish_reason = gp_finish_reason response\<rparr>],
      cp_usage = usage (gp_input_tokens response) (gp_output_tokens response)\<rparr>"

section \<open>Stream chunks\<close>

record chunk_tool_call =
  ct_index :: nat
  ct_call :: openai_tool_call

record assistant_delta =
  ad_role :: "string option"
  ad_content :: "string option"
  ad_tool_calls :: "chunk_tool_call list"

definition assistant_delta_default :: assistant_delta where
  "assistant_delta_default = \<lparr>ad_role = None, ad_content = None, ad_tool_calls = []\<rparr>"

record chunk_choice =
  ch_index :: nat
  ch_delta :: assistant_delta
  ch_finish_reason :: "finish_reason option"

record chat_completion_chunk =
  ck_id :: string
  ck_object :: string
  ck_created :: u64
  ck_model :: string
  ck_choices :: "chunk_choice list"
  ck_usage :: "completion_usage option"

record stream_context =
  sc_id :: string
  sc_created :: u64
  sc_model :: string

definition stream_context_new ::
  "(uuid \<Rightarrow> string) \<Rightarrow> u64 \<Rightarrow> string \<Rightarrow> uuid \<Rightarrow> stream_context" where
  "stream_context_new show_uuid created model request_id =
     \<lparr>sc_id = ''chatcmpl-'' @ show_uuid request_id, sc_created = created, sc_model = model\<rparr>"

definition chunk ::
  "stream_context \<Rightarrow> assistant_delta \<Rightarrow> finish_reason option \<Rightarrow> completion_usage option \<Rightarrow>
   chat_completion_chunk" where
  "chunk context delta finish_reason use =
     \<lparr>ck_id = sc_id context, ck_object = ''chat.completion.chunk'', ck_created = sc_created context,
      ck_model = sc_model context,
      ck_choices = [\<lparr>ch_index = 0, ch_delta = delta, ch_finish_reason = finish_reason\<rparr>],
      ck_usage = use\<rparr>"

definition role_chunk :: "stream_context \<Rightarrow> chat_completion_chunk" where
  "role_chunk context =
     chunk context (assistant_delta_default\<lparr>ad_role := Some ''assistant''\<rparr>) None None"

definition text_chunk :: "stream_context \<Rightarrow> string \<Rightarrow> chat_completion_chunk" where
  "text_chunk context text =
     chunk context (assistant_delta_default\<lparr>ad_content := Some text\<rparr>) None None"

definition completed_chunks ::
  "(json_value \<Rightarrow> string) \<Rightarrow> stream_context \<Rightarrow> usize \<Rightarrow> usize \<Rightarrow> tool_call list \<Rightarrow> finish_reason \<Rightarrow>
   chat_completion_chunk list" where
  "completed_chunks print_json context input_tokens output_tokens calls finish_reason =
     (if calls \<noteq> []
      then [chunk context (assistant_delta_default\<lparr>ad_tool_calls :=
              map (\<lambda>(index, call). \<lparr>ct_index = index, ct_call = call\<rparr>)
                (List.enumerate 0 (tool_calls_response print_json calls))\<rparr>) None None]
      else []) @
     [chunk context assistant_delta_default (Some finish_reason)
        (Some (usage input_tokens output_tokens))]"

section \<open>What a converted request satisfies\<close>

lemma convert_message_tool_calls:
  "convert_message parse_json m = Inr m' \<Longrightarrow>
   map (convert_tool_call parse_json) (om_tool_calls m) = map Inr (cm_tool_calls m') \<and>
   cm_role m' = convert_role (om_role m) \<and> cm_tool_call_id m' = om_tool_call_id m"
  by (auto simp: convert_message_def collect_results_Inr_iff split: sum.splits)

text \<open>
  A public request converts exactly when it has messages, its tools pass
  \<open>validate_tools\<close>, every message converts and the converted history is valid; the result
  then carries the converted messages and no prompt, the same model, tools and template, no
  session, and the first of \<open>max_completion_tokens\<close>, \<open>max_tokens\<close> and 100 that is given.
\<close>

theorem try_from_request_Inr_iff:
  "try_from_request parse_json new_id request = Inr r \<longleftrightarrow>
     (\<exists>messages. messages \<noteq> [] \<and>
        map (convert_message parse_json) (cr_messages request) = map Inr messages \<and>
        validate_tools (cr_tools request) = Inr () \<and>
        validate_tool_history messages (cr_tools request) = Inr () \<and>
        r = \<lparr>gr_request_id = new_id, gr_session_id = None, gr_model = cr_model request,
             gr_prompt = None, gr_messages = Some messages, gr_template = cr_template request,
             gr_tools = cr_tools request,
             gr_max_tokens =
               hd (List.map_filter id [cr_max_completion_tokens request, cr_max_tokens request] @ [100])\<rparr>)"
proof -
  have "hd (List.map_filter id [cr_max_completion_tokens request, cr_max_tokens request] @ [100]) =
      chosen_max_tokens request"
    by (auto simp: chosen_max_tokens_def List.map_filter_def split: option.split)
  then show ?thesis
    by (auto simp: try_from_request_def collect_results_Inr_iff split: sum.splits)
qed

text \<open>The conversion reports the first problem in the order messages, tools, message
  contents, history.\<close>

lemma try_from_request_errors:
  "cr_messages request = [] \<Longrightarrow>
     try_from_request parse_json new_id request = Inl RequestEmptyMessages"
  "cr_messages request \<noteq> [] \<Longrightarrow> validate_tools (cr_tools request) = Inl e \<Longrightarrow>
     try_from_request parse_json new_id request = Inl (Validation e)"
  "cr_messages request \<noteq> [] \<Longrightarrow> validate_tools (cr_tools request) = Inr () \<Longrightarrow>
     collect_results (map (convert_message parse_json) (cr_messages request)) = Inl e' \<Longrightarrow>
     try_from_request parse_json new_id request = Inl e'"
  by (simp_all add: try_from_request_def)

section \<open>Tool calls make the round trip through the client\<close>

lemma convert_tool_call_response:
  assumes "parse_json (print_json (fc_arguments (tc_function call))) = Some (fc_arguments (tc_function call))"
    and "is_object (fc_arguments (tc_function call))"
  shows "map (convert_tool_call parse_json) (tool_calls_response print_json [call]) = [Inr call]"
  using assms by (simp add: tool_calls_response_def convert_tool_call_def)

text \<open>
  A client that sends the assistant's tool calls back as history is understood: if parsing
  undoes printing on the argument objects of the calls, the echoed calls convert to the very
  calls the worker produced, in order.
\<close>

theorem tool_calls_roundtrip:
  assumes "\<forall>call \<in> set calls. is_object (fc_arguments (tc_function call)) \<and>
      parse_json (print_json (fc_arguments (tc_function call))) = Some (fc_arguments (tc_function call))"
  shows "convert_message parse_json
      \<lparr>om_role = OAssistant, om_content = text, om_tool_calls = tool_calls_response print_json calls,
       om_tool_call_id = None\<rparr> =
    (case convert_content text of
       Inl e \<Rightarrow> Inl e
     | Inr content \<Rightarrow>
         Inr \<lparr>cm_role = Assistant, cm_content = content, cm_tool_calls = calls, cm_tool_call_id = None\<rparr>)"
proof -
  have "map (convert_tool_call parse_json) (tool_calls_response print_json calls) = map Inr calls"
    using assms by (induction calls) (simp_all add: tool_calls_response_def convert_tool_call_def)
  then show ?thesis
    by (simp add: convert_message_def convert_role_def split: sum.split)
qed

theorem tool_calls_roundtrip_witness:
  "convert_message (\<lambda>_. Some (JObject []))
     \<lparr>om_role = OAssistant, om_content = None,
      om_tool_calls = tool_calls_response (\<lambda>_. ''{}'') [demo_call ''a'' ''f''],
      om_tool_call_id = None\<rparr> =
   Inr (demo_message Assistant [demo_call ''a'' ''f''] None)"
  using tool_calls_roundtrip [of "[demo_call ''a'' ''f'']" "\<lambda>_. Some (JObject [])" "\<lambda>_. ''{}''" None]
  by (simp add: demo_defs convert_content_def)

section \<open>The stream and the plain response agree\<close>

text \<open>What a client reads off the chunks of a stream.\<close>

definition chunk_deltas :: "chat_completion_chunk list \<Rightarrow> assistant_delta list" where
  "chunk_deltas chunks = concat (map (\<lambda>c. map ch_delta (ck_choices c)) chunks)"

definition streamed_text :: "chat_completion_chunk list \<Rightarrow> string" where
  "streamed_text chunks = concat (List.map_filter ad_content (chunk_deltas chunks))"

definition streamed_calls :: "chat_completion_chunk list \<Rightarrow> chunk_tool_call list" where
  "streamed_calls chunks = concat (map ad_tool_calls (chunk_deltas chunks))"

definition streamed_finish :: "chat_completion_chunk list \<Rightarrow> finish_reason list" where
  "streamed_finish chunks =
     List.map_filter ch_finish_reason (concat (map ck_choices chunks))"

lemmas chunk_defs =
  chunk_def role_chunk_def text_chunk_def completed_chunks_def assistant_delta_default_def

lemmas streamed_defs = streamed_text_def streamed_calls_def streamed_finish_def chunk_deltas_def

lemma streamed_append:
  "streamed_text (xs @ ys) = streamed_text xs @ streamed_text ys"
  "streamed_calls (xs @ ys) = streamed_calls xs @ streamed_calls ys"
  "streamed_finish (xs @ ys) = streamed_finish xs @ streamed_finish ys"
  by (simp_all add: streamed_defs List.map_filter_def)

lemma streamed_role:
  "streamed_text [role_chunk ctx] = []" "streamed_calls [role_chunk ctx] = []"
  "streamed_finish [role_chunk ctx] = []"
  by (simp_all add: streamed_defs chunk_defs List.map_filter_def)

lemma streamed_deltas:
  "streamed_text (map (text_chunk ctx) ts) = concat ts" "streamed_calls (map (text_chunk ctx) ts) = []"
  "streamed_finish (map (text_chunk ctx) ts) = []"
  by (induction ts) (simp_all add: streamed_defs chunk_defs List.map_filter_def)

lemma numbered_calls:
  "map ct_call (map (\<lambda>(index, call). \<lparr>ct_index = index, ct_call = call\<rparr>) (List.enumerate m xs)) = xs"
  "map ct_index (map (\<lambda>(index, call). \<lparr>ct_index = index, ct_call = call\<rparr>) (List.enumerate m xs)) =
     [m..<m + length xs]"
proof -
  have "map (ct_call \<circ> (\<lambda>(index, call). \<lparr>ct_index = index, ct_call = call\<rparr>)) (List.enumerate m xs) =
      map snd (List.enumerate m xs)"
    by (rule map_cong) auto
  then show "map ct_call (map (\<lambda>(index, call). \<lparr>ct_index = index, ct_call = call\<rparr>) (List.enumerate m xs)) = xs"
    by simp
  have "map (ct_index \<circ> (\<lambda>(index, call). \<lparr>ct_index = index, ct_call = call\<rparr>)) (List.enumerate m xs) =
      map fst (List.enumerate m xs)"
    by (rule map_cong) auto
  then show "map ct_index (map (\<lambda>(index, call). \<lparr>ct_index = index, ct_call = call\<rparr>) (List.enumerate m xs)) =
      [m..<m + length xs]"
    by simp
qed

lemma length_tool_calls_response [simp]: "length (tool_calls_response pj calls) = length calls"
  by (simp add: tool_calls_response_def)

lemma streamed_completed:
  "streamed_text (completed_chunks pj ctx i n calls fr) = []"
  "map ct_call (streamed_calls (completed_chunks pj ctx i n calls fr)) = tool_calls_response pj calls"
  "map ct_index (streamed_calls (completed_chunks pj ctx i n calls fr)) = [0..<length calls]"
  "streamed_finish (completed_chunks pj ctx i n calls fr) = [fr]"
proof -
  show "streamed_text (completed_chunks pj ctx i n calls fr) = []"
    "streamed_finish (completed_chunks pj ctx i n calls fr) = [fr]"
    by (simp_all add: streamed_defs chunk_defs List.map_filter_def)
  have "streamed_calls (completed_chunks pj ctx i n calls fr) =
      map (\<lambda>(index, call). \<lparr>ct_index = index, ct_call = call\<rparr>) (List.enumerate 0 (tool_calls_response pj calls))"
    by (simp add: streamed_defs chunk_defs) (simp add: tool_calls_response_def)
  then show "map ct_call (streamed_calls (completed_chunks pj ctx i n calls fr)) = tool_calls_response pj calls"
    "map ct_index (streamed_calls (completed_chunks pj ctx i n calls fr)) = [0..<length calls]"
    by (simp_all only: numbered_calls length_tool_calls_response add_0)
qed

lemma usage_of_chunks:
  "List.map_filter ck_usage (role_chunk ctx # map (text_chunk ctx) ts @ completed_chunks pj ctx i n calls fr) =
     [usage i n]"
  by (induction ts) (simp_all add: chunk_defs List.map_filter_def)

text \<open>
  Streaming and not streaming give the client the same answer: the role chunk, one chunk
  per text delta and the completion chunks carry, put together, the text, the tool calls
  (numbered from zero), the one finish reason, the one usage record and the id of the plain
  response to the same generation.
\<close>

theorem stream_agrees_with_response:
  fixes deltas :: "string list"
  defines "text \<equiv> concat deltas"
  shows "let ctx = stream_context_new show_uuid created model rid;
             chunks = role_chunk ctx # map (text_chunk ctx) deltas @
                      completed_chunks print_json ctx i n calls fr;
             response = from_generate print_json show_uuid created model
               \<lparr>gp_request_id = rid, gp_worker_id = worker, gp_model = model, gp_text = text,
                gp_input_tokens = i, gp_output_tokens = n, gp_tool_calls = calls, gp_finish_reason = fr\<rparr>;
             message = cc_message (hd (cp_choices response))
         in streamed_text chunks = (case am_content message of None \<Rightarrow> [] | Some t \<Rightarrow> t) \<and>
            map ct_call (streamed_calls chunks) = am_tool_calls message \<and>
            map ct_index (streamed_calls chunks) = [0..<length calls] \<and>
            streamed_finish chunks = [cc_finish_reason (hd (cp_choices response))] \<and>
            List.map_filter ck_usage chunks = [cp_usage response] \<and>
            set (map ck_id chunks) = {cp_id response}"
proof -
  let ?ctx = "stream_context_new show_uuid created model rid"
  let ?chunks = "role_chunk ?ctx # map (text_chunk ?ctx) deltas @ completed_chunks print_json ?ctx i n calls fr"
  have split: "?chunks = [role_chunk ?ctx] @ map (text_chunk ?ctx) deltas @
      completed_chunks print_json ?ctx i n calls fr"
    by simp
  have "streamed_text ?chunks = text" "map ct_call (streamed_calls ?chunks) = tool_calls_response print_json calls"
    "map ct_index (streamed_calls ?chunks) = [0..<length calls]" "streamed_finish ?chunks = [fr]"
    unfolding split streamed_append
    by (simp_all add: streamed_role streamed_deltas streamed_completed text_def)
  moreover have "set (map ck_id ?chunks) = {''chatcmpl-'' @ show_uuid rid}"
    by (auto simp: chunk_defs stream_context_new_def)
  moreover have "(case (if text = [] then None else Some text) of None \<Rightarrow> [] | Some t \<Rightarrow> t) = text"
    by simp
  ultimately show ?thesis
    unfolding Let_def from_generate_def usage_of_chunks by simp
qed

end
