(* ===== verification/Coordinator_Api.thy ===== *)
theory Coordinator_Api
  imports Registry Sse Openai
begin

text \<open>
  The handlers of \<open>crates/coordinator/src/api.rs\<close>. What a handler or a spawned task
  does is the list of its effects in order: operations on the shared registry, events put on
  the client's channel, the cancellation token and the cancel request to the worker. Other
  tasks may act on the registry between any two of them. The network is an argument: the
  reply of the worker, the chunks of a streamed body, how many events the client takes
  before it goes away, and whether a cancel request reaches the worker.
\<close>

section \<open>The outside of the handlers\<close>

text \<open>Libraries and services the handlers call: UUID and JSON texts, the UTF-8 error text and
  the text of a status code.\<close>

record host =
  h_parse_uuid :: "string \<Rightarrow> uuid option"
  h_show_uuid :: "uuid \<Rightarrow> string"
  h_parse_json :: "string \<Rightarrow> json_value option"
  h_print_json :: "json_value \<Rightarrow> string"
  h_parse_event :: "string \<Rightarrow> string + generation_stream_event"
  h_utf8_error :: "bytes \<Rightarrow> string"
  h_show_status :: "nat \<Rightarrow> string"

datatype 'b reply = Replied nat 'b | ReplyFailed string

definition is_success :: "nat \<Rightarrow> bool" where
  "is_success status \<longleftrightarrow> 200 \<le> status \<and> status < 300"

text \<open>What the network does to one request. \<open>ex_stream_reply = None\<close>: the client goes away
  while the streaming handler waits for the worker's headers, and the server drops the handler.
  \<open>ex_cancelled = Some k\<close>: the client goes away while the plain request is in flight,
  after \<open>k\<close> effects of the request future. \<open>ex_client\<close> is the number of events the client
  takes, if it ever stops.\<close>

record exchange =
  ex_now :: instant
  ex_new_id :: uuid
  ex_created :: u64
  ex_stream_reply :: "(string + bytes) list reply option"
  ex_generate_reply :: "(string + generate_response) reply"
  ex_cancelled :: "nat option"
  ex_client :: "nat option"
  ex_post_ok :: bool

datatype public_event =
    ChunkEvent chat_completion_chunk
  | DoneEvent
  | ErrorEvent string

datatype effect =
    RegistryOp registry_op
  | Sent public_event
  | TokenCancelled
  | PostedCancel string

datatype api_response =
    ErrorReply nat error_response
  | CompletionReply chat_completion_response
  | StreamReply

section \<open>The session header\<close>

definition visible_ascii :: "char \<Rightarrow> bool" where
  "visible_ascii c \<longleftrightarrow> 32 \<le> (of_char c :: nat) \<and> (of_char c :: nat) < 127 \<or> of_char c = (9 :: nat)"

definition parse_session_id ::
  "(string \<Rightarrow> uuid option) \<Rightarrow> bytes option \<Rightarrow> string + uuid option" where
  "parse_session_id parse_uuid header =
     (case header of
        None \<Rightarrow> Inr None
      | Some v \<Rightarrow>
          if \<not> list_all visible_ascii v then Inl ''X-Decompute-Session-Id must be a UUID''
          else (case parse_uuid (str_trim v) of
                  Some i \<Rightarrow> Inr (Some i)
                | None \<Rightarrow> Inl ''X-Decompute-Session-Id must be a UUID''))"

section \<open>Registration, heartbeats and listings\<close>

definition register_handler ::
  "instant \<Rightarrow> register_worker_request \<Rightarrow> registry \<Rightarrow> nat \<times> registry" where
  "register_handler now request reg = (201, register now request reg)"

definition heartbeat_handler ::
  "instant \<Rightarrow> string \<Rightarrow> heartbeat_request \<Rightarrow> registry \<Rightarrow> nat \<times> registry" where
  "heartbeat_handler now i request reg =
     (let (known, reg') = heartbeat now i request reg in (if known then 204 else 404, reg'))"

definition models_handler :: "registry \<Rightarrow> models_response" where
  "models_handler reg =
     \<lparr>ms_object = ''list'',
      ms_data = map (\<lambda>i. \<lparr>md_id = i, md_object = ''model'', md_owned_by = ''decompute''\<rparr>)
        (available_models reg)\<rparr>"

section \<open>Telling the worker to stop\<close>

definition cancel_url :: "host \<Rightarrow> selected_worker \<Rightarrow> uuid \<Rightarrow> string" where
  "cancel_url host worker request_id =
     trim_end_slashes (sw_address worker) @ ''/requests/'' @ h_show_uuid host request_id @ ''/cancel''"

definition mark_offline_effects :: "string \<Rightarrow> effect list" where
  "mark_offline_effects i = [RegistryOp (MarkOfflineWorkers i), RegistryOp (MarkOfflineAffinity i)]"

definition cancel_worker_request ::
  "host \<Rightarrow> bool \<Rightarrow> selected_worker \<Rightarrow> uuid \<Rightarrow> effect list" where
  "cancel_worker_request host post_ok worker request_id =
     PostedCancel (cancel_url host worker request_id) #
     (if post_ok then [] else mark_offline_effects (sw_id worker))"

definition cancel_and_release ::
  "host \<Rightarrow> bool \<Rightarrow> selected_worker \<Rightarrow> uuid \<Rightarrow> effect list" where
  "cancel_and_release host post_ok worker request_id =
     TokenCancelled # cancel_worker_request host post_ok worker request_id @
     [RegistryOp (Release (sw_id worker))]"

section \<open>Forwarding a stream\<close>

text \<open>The arguments of the task \<open>forward_worker_stream\<close>, and its state: the client's
  remaining patience and the effects so far.\<close>

record stream_task =
  st_context :: stream_context
  st_worker :: selected_worker
  st_request_id :: uuid
  st_post_ok :: bool

record forwarding =
  fw_client :: "nat option"
  fw_trace :: "effect list"

definition emit :: "effect list \<Rightarrow> forwarding \<Rightarrow> forwarding" where
  "emit effects s = s\<lparr>fw_trace := fw_trace s @ effects\<rparr>"

definition send_event :: "public_event \<Rightarrow> forwarding \<Rightarrow> bool \<times> forwarding" where
  "send_event event s =
     (case fw_client s of
        None \<Rightarrow> (True, emit [Sent event] s)
      | Some 0 \<Rightarrow> (False, s)
      | Some (Suc n) \<Rightarrow> (True, emit [Sent event] (s\<lparr>fw_client := Some n\<rparr>)))"

definition send_error :: "string \<Rightarrow> forwarding \<Rightarrow> forwarding" where
  "send_error message s = snd (send_event (ErrorEvent message) s)"

definition give_up :: "host \<Rightarrow> stream_task \<Rightarrow> forwarding \<Rightarrow> forwarding" where
  "give_up host task s =
     emit (cancel_and_release host (st_post_ok task) (st_worker task) (st_request_id task)) s"

definition release_slot :: "stream_task \<Rightarrow> forwarding \<Rightarrow> forwarding" where
  "release_slot task s = emit [RegistryOp (Release (sw_id (st_worker task)))] s"

datatype loop_result = Returned forwarding | Going bool forwarding

fun send_chunks :: "chat_completion_chunk list \<Rightarrow> forwarding \<Rightarrow> bool \<times> forwarding" where
  "send_chunks [] s = (True, s)"
| "send_chunks (c # cs) s =
     (let (delivered, s') = send_event (ChunkEvent c) s in
      if delivered then send_chunks cs s' else (False, s'))"

definition handle_event ::
  "host \<Rightarrow> stream_task \<Rightarrow> generation_stream_event \<Rightarrow> bool \<Rightarrow> forwarding \<Rightarrow> loop_result" where
  "handle_event host task event completed s =
     (case event of
        TextDelta text \<Rightarrow>
          (let (delivered, s') = send_event (ChunkEvent (text_chunk (st_context task) text)) s in
           if delivered then Going completed s' else Returned (give_up host task s'))
      | Completed input_tokens output_tokens calls finish_reason \<Rightarrow>
          (let (delivered, s') = send_chunks
             (completed_chunks (h_print_json host) (st_context task) input_tokens output_tokens calls
               finish_reason) s in
           if delivered then Going True s' else Returned (release_slot task s'))
      | StreamError message \<Rightarrow> Returned (release_slot task (send_error message s)))"

definition handle_frame ::
  "host \<Rightarrow> stream_task \<Rightarrow> bytes \<Rightarrow> bool \<Rightarrow> forwarding \<Rightarrow> loop_result" where
  "handle_frame host task frame completed s =
     (case sse_data (h_utf8_error host) frame of
        Inl message \<Rightarrow> Returned (give_up host task (send_error message s))
      | Inr None \<Rightarrow> Going completed s
      | Inr (Some payload) \<Rightarrow>
          if payload = ''[DONE]'' then Going completed s
          else (case h_parse_event host payload of
                  Inl err \<Rightarrow>
                    Returned (give_up host task (send_error (''invalid worker stream event: '' @ err) s))
                | Inr event \<Rightarrow> handle_event host task event completed s))"

text \<open>The inner loop: take complete frames off the buffer and handle each. The second
  component is the buffer that is left. The guard on \<open>e\<close> always holds.\<close>

function drain_frames ::
  "host \<Rightarrow> stream_task \<Rightarrow> bytes \<Rightarrow> bool \<Rightarrow> forwarding \<Rightarrow> loop_result \<times> bytes" where
  "drain_frames host task pending completed s =
     (case sse_frame_end pending of
        None \<Rightarrow> (Going completed s, pending)
      | Some e \<Rightarrow>
          if 0 < e \<and> e \<le> length pending
          then (case handle_frame host task (take e pending) completed s of
                  Returned s' \<Rightarrow> (Returned s', drop e pending)
                | Going completed' s' \<Rightarrow> drain_frames host task (drop e pending) completed' s')
          else (Going completed s, pending))"
  by pat_completeness auto
termination by (relation "measure (\<lambda>(host, task, pending, completed, s). length pending)") auto

declare drain_frames.simps [simp del]

definition finish_stream :: "host \<Rightarrow> stream_task \<Rightarrow> bool \<Rightarrow> forwarding \<Rightarrow> forwarding" where
  "finish_stream host task completed s =
     (if completed then release_slot task (snd (send_event DoneEvent s))
      else give_up host task (send_error ''worker stream ended before completion'' s))"

text \<open>The outer loop over the chunks of the body; a transport error ends it.\<close>

fun forward_body ::
  "host \<Rightarrow> stream_task \<Rightarrow> bytes \<Rightarrow> bool \<Rightarrow> forwarding \<Rightarrow> (string + bytes) list \<Rightarrow> forwarding" where
  "forward_body host task pending completed s [] = finish_stream host task completed s"
| "forward_body host task pending completed s (Inl err # body) =
     finish_stream host task completed
       (send_error (''worker stream failed: '' @ err)
         (emit (mark_offline_effects (sw_id (st_worker task))) s))"
| "forward_body host task pending completed s (Inr bytes # body) =
     (case drain_frames host task (pending @ bytes) completed s of
        (Returned s', _) \<Rightarrow> s'
      | (Going completed' s', pending') \<Rightarrow> forward_body host task pending' completed' s' body)"

definition forward_worker_stream ::
  "host \<Rightarrow> stream_task \<Rightarrow> nat option \<Rightarrow> (string + bytes) list \<Rightarrow> forwarding" where
  "forward_worker_stream host task client body =
     (let (delivered, s) = send_event (ChunkEvent (role_chunk (st_context task)))
            \<lparr>fw_client = client, fw_trace = []\<rparr> in
      if delivered then forward_body host task [] False s body else give_up host task s)"

text \<open>A future that is dropped at an \<open>await\<close> has made the effects that stand before it and no others: no
  guard of \<open>stream_request\<close> gives the reservation back. The locks of the registry are taken at once here.\<close>

definition stream_request ::
  "host \<Rightarrow> exchange \<Rightarrow> generate_request \<Rightarrow> string \<Rightarrow> registry \<Rightarrow>
   api_response option \<times> effect list" where
  "stream_request host ex request model reg =
     (let reservation =
        RegistryOp (SelectAndReserve (ex_now ex) (gr_model request) (gr_session_id request)) in
      case fst (select_and_reserve (ex_now ex) (gr_model request) (gr_session_id request) reg) of
        None \<Rightarrow>
          (Some (ErrorReply 503 (server_error ''no eligible worker has the requested model'')),
           [reservation])
      | Some worker \<Rightarrow>
          (case ex_stream_reply ex of
             None \<Rightarrow> (None, [reservation])
           | Some (Replied status body) \<Rightarrow>
               if is_success status
               then (Some StreamReply, reservation #
                 fw_trace (forward_worker_stream host
                   \<lparr>st_context = stream_context_new (h_show_uuid host) (ex_created ex) model
                                  (gr_request_id request),
                    st_worker = worker, st_request_id = gr_request_id request,
                    st_post_ok = ex_post_ok ex\<rparr> (ex_client ex) body))
               else (Some (ErrorReply 502 (server_error (''worker returned '' @ h_show_status host status))),
                     [reservation, RegistryOp (Release (sw_id worker))])
           | Some (ReplyFailed err) \<Rightarrow>
               (Some (ErrorReply 502 (server_error (''worker request failed: '' @ err))),
                reservation # mark_offline_effects (sw_id worker) @
                [RegistryOp (Release (sw_id worker))])))"

section \<open>Plain requests\<close>

text \<open>The future that talks to the worker: its effects and its result.\<close>

definition request_future ::
  "host \<Rightarrow> selected_worker \<Rightarrow> (string + generate_response) reply \<Rightarrow>
   effect list \<times> ((nat \<times> string) + generate_response)" where
  "request_future host worker reply =
     (case reply of
        Replied status body \<Rightarrow>
          if is_success status
          then ([], (case body of
                       Inr response \<Rightarrow> Inr response
                     | Inl err \<Rightarrow> Inl (502, ''invalid worker response: '' @ err)))
          else ([], Inl (502, ''worker returned '' @ h_show_status host status))
      | ReplyFailed err \<Rightarrow>
          (mark_offline_effects (sw_id worker), Inl (502, ''worker request failed: '' @ err)))"

text \<open>The spawned task: its effects and what it sends back, if anything.\<close>

definition forward_worker_request ::
  "host \<Rightarrow> generate_request \<Rightarrow> selected_worker \<Rightarrow> (string + generate_response) reply \<Rightarrow>
   nat option \<Rightarrow> bool \<Rightarrow> effect list \<times> ((nat \<times> string) + generate_response) option" where
  "forward_worker_request host request worker reply cancelled post_ok =
     (let (effects, result) = request_future host worker reply in
      case cancelled of
        Some k \<Rightarrow>
          (take k effects @ cancel_worker_request host post_ok worker (gr_request_id request) @
             [RegistryOp (Release (sw_id worker))], None)
      | None \<Rightarrow> (effects @ [RegistryOp (Release (sw_id worker))], Some result))"

definition route_request ::
  "host \<Rightarrow> exchange \<Rightarrow> generate_request \<Rightarrow> registry \<Rightarrow>
   effect list \<times> ((nat \<times> string) + generate_response)" where
  "route_request host ex request reg =
     (let reservation =
        RegistryOp (SelectAndReserve (ex_now ex) (gr_model request) (gr_session_id request)) in
      case fst (select_and_reserve (ex_now ex) (gr_model request) (gr_session_id request) reg) of
        None \<Rightarrow> ([reservation], Inl (503, ''no eligible worker has the requested model''))
      | Some worker \<Rightarrow>
          (let (effects, result) = forward_worker_request host request worker
                 (ex_generate_reply ex) (ex_cancelled ex) (ex_post_ok ex)
           in (reservation # effects,
               (case result of Some r \<Rightarrow> r | None \<Rightarrow> Inl (502, ''worker request task stopped'')))))"

section \<open>The chat completion handler\<close>

text \<open>No response (\<open>None\<close>) when the client has gone away and the handler was dropped; a plain
  request is in flight, and can be dropped, once a worker is reserved for it.\<close>

definition in_flight :: "effect list \<Rightarrow> bool" where
  "in_flight effects \<longleftrightarrow> 1 < length effects"

definition prepare_request ::
  "host \<Rightarrow> uuid \<Rightarrow> bytes option \<Rightarrow> chat_completion_request \<Rightarrow> string + generate_request" where
  "prepare_request host new_id header public =
     (case parse_session_id (h_parse_uuid host) header of
        Inl message \<Rightarrow> Inl message
      | Inr session_id \<Rightarrow>
          (case try_from_request (h_parse_json host) new_id public of
             Inl err \<Rightarrow> Inl (request_error_to_string err)
           | Inr request \<Rightarrow> Inr (request\<lparr>gr_session_id := session_id\<rparr>)))"

definition chat_completions ::
  "host \<Rightarrow> exchange \<Rightarrow> bytes option \<Rightarrow> chat_completion_request \<Rightarrow> registry \<Rightarrow>
   api_response option \<times> effect list" where
  "chat_completions host ex header public reg =
     (case prepare_request host (ex_new_id ex) header public of
        Inl message \<Rightarrow> (Some (ErrorReply 400 (invalid_request message)), [])
      | Inr request \<Rightarrow>
          if cr_stream public then stream_request host ex request (cr_model public) reg
          else (let (effects, result) = route_request host ex request reg in
                if ex_cancelled ex \<noteq> None \<and> in_flight effects then (None, effects)
                else (case result of
                        Inr response \<Rightarrow>
                          (Some (CompletionReply (from_generate (h_print_json host) (h_show_uuid host)
                             (ex_created ex) (cr_model public) response)), effects)
                      | Inl (status, message) \<Rightarrow>
                          (Some (ErrorReply status (server_error message)), effects))))"

section \<open>Every task gives its slot back once\<close>

text \<open>\<open>quiet i e\<close>: the effect \<open>e\<close> does not touch the registry, or takes worker \<open>i\<close> offline.
  \<open>settled i tr\<close>: the effects end with the release of \<open>i\<close>, and all others are quiet.\<close>

fun quiet :: "string \<Rightarrow> effect \<Rightarrow> bool" where
  "quiet i (RegistryOp op) \<longleftrightarrow> op = MarkOfflineWorkers i \<or> op = MarkOfflineAffinity i"
| "quiet i _ \<longleftrightarrow> True"

definition settled :: "string \<Rightarrow> effect list \<Rightarrow> bool" where
  "settled i effects \<longleftrightarrow>
     effects \<noteq> [] \<and> last effects = RegistryOp (Release i) \<and> list_all (quiet i) (butlast effects)"

lemma settledI: "list_all (quiet i) effects \<Longrightarrow> settled i (effects @ [RegistryOp (Release i)])"
  by (simp add: settled_def)

lemma settled_iff: "settled i effects \<longleftrightarrow> (\<exists>pre. effects = pre @ [RegistryOp (Release i)] \<and> list_all (quiet i) pre)"
  by (metis append_butlast_last_id butlast_snoc last_snoc settled_def snoc_eq_iff_butlast)

lemma settled_prepend: "list_all (quiet i) pre \<Longrightarrow> settled i effects \<Longrightarrow> settled i (pre @ effects)"
  by (auto simp: settled_iff)

lemma quiet_mark_offline [simp]: "list_all (quiet i) (mark_offline_effects i)"
  by (simp add: mark_offline_effects_def)

lemma quiet_cancel [simp]: "list_all (quiet (sw_id w)) (cancel_worker_request host post_ok w rid)"
  by (simp add: cancel_worker_request_def)

lemma settled_cancel_and_release [simp]: "settled (sw_id w) (cancel_and_release host post_ok w rid)"
  using settledI [of "sw_id w" "TokenCancelled # cancel_worker_request host post_ok w rid"]
  by (simp add: cancel_and_release_def)

lemma fw_trace_emit [simp]: "fw_trace (emit es s) = fw_trace s @ es"
  by (simp add: emit_def)

lemma fw_client_emit [simp]: "fw_client (emit es s) = fw_client s"
  by (simp add: emit_def)

text \<open>The invariant of a running task and the ways to leave it.\<close>

abbreviation (input) task_worker :: "stream_task \<Rightarrow> string" where
  "task_worker task \<equiv> sw_id (st_worker task)"

definition running :: "stream_task \<Rightarrow> forwarding \<Rightarrow> bool" where
  "running task s \<longleftrightarrow> list_all (quiet (task_worker task)) (fw_trace s)"

definition ended :: "stream_task \<Rightarrow> forwarding \<Rightarrow> bool" where
  "ended task s \<longleftrightarrow> settled (task_worker task) (fw_trace s)"

fun loop_ok :: "stream_task \<Rightarrow> loop_result \<Rightarrow> bool" where
  "loop_ok task (Returned s) \<longleftrightarrow> ended task s"
| "loop_ok task (Going completed s) \<longleftrightarrow> running task s"

lemma running_send_event [intro]: "running task s \<Longrightarrow> running task (snd (send_event e s))"
  by (auto simp: running_def send_event_def split: option.split nat.split)

lemma running_send_error [intro]: "running task s \<Longrightarrow> running task (send_error m s)"
  unfolding send_error_def by (rule running_send_event)

lemma running_mark_offline [intro]:
  "running task s \<Longrightarrow> running task (emit (mark_offline_effects (task_worker task)) s)"
  by (simp add: running_def)

lemma running_send_chunks [intro]: "running task s \<Longrightarrow> running task (snd (send_chunks cs s))"
proof (induction cs arbitrary: s)
  case (Cons c cs)
  then have "running task (snd (send_event (ChunkEvent c) s))" by auto
  then show ?case using Cons.IH by (simp add: case_prod_beta)
qed simp

lemma ended_give_up [intro]: "running task s \<Longrightarrow> ended task (give_up host task s)"
  by (simp add: running_def ended_def give_up_def settled_prepend)

lemma ended_release [intro]: "running task s \<Longrightarrow> ended task (release_slot task s)"
  by (simp add: running_def ended_def release_slot_def settledI)

lemma ended_finish [intro]: "running task s \<Longrightarrow> ended task (finish_stream host task completed s)"
  unfolding finish_stream_def by auto

lemma handle_event_ok: "running task s \<Longrightarrow> loop_ok task (handle_event host task event completed s)"
  using running_send_event [of task s] running_send_chunks [of task s] running_send_error [of task s]
  by (auto simp: handle_event_def case_prod_beta split: generation_stream_event.split)

lemma handle_frame_ok: "running task s \<Longrightarrow> loop_ok task (handle_frame host task frame completed s)"
  by (auto simp: handle_frame_def handle_event_ok split: sum.split option.split)

section \<open>The task as a fold over frames\<close>

fun handle_frames ::
  "host \<Rightarrow> stream_task \<Rightarrow> bytes list \<Rightarrow> bool \<Rightarrow> forwarding \<Rightarrow> loop_result" where
  "handle_frames host task [] completed s = Going completed s"
| "handle_frames host task (frame # frames) completed s =
     (case handle_frame host task frame completed s of
        Returned s' \<Rightarrow> Returned s'
      | Going completed' s' \<Rightarrow> handle_frames host task frames completed' s')"

lemma handle_frames_append:
  "handle_frames host task (xs @ ys) completed s =
     (case handle_frames host task xs completed s of
        Returned s' \<Rightarrow> Returned s'
      | Going completed' s' \<Rightarrow> handle_frames host task ys completed' s')"
  by (induction xs arbitrary: completed s) (auto split: loop_result.split)

lemma handle_frames_ok: "running task s \<Longrightarrow> loop_ok task (handle_frames host task frames completed s)"
proof (induction frames arbitrary: completed s)
  case (Cons frame frames)
  then show ?case
    using handle_frame_ok [OF Cons.prems, of host frame completed]
    by (cases "handle_frame host task frame completed s") auto
qed simp

lemma drain_frames_fold:
  "fst (drain_frames host task pending completed s) =
     handle_frames host task (fst (split_frames sse_frame_end pending)) completed s \<and>
   (case fst (drain_frames host task pending completed s) of
      Returned _ \<Rightarrow> True
    | Going _ _ \<Rightarrow> snd (drain_frames host task pending completed s) = snd (split_frames sse_frame_end pending))"
proof (induction host task pending completed s rule: drain_frames.induct)
  case (1 host task pending completed s)
  show ?case
  proof (cases "sse_frame_end pending")
    case None
    then show ?thesis
      by (simp add: drain_frames.simps [of host task pending] coordinator_frames.split_frames_None)
  next
    case (Some e)
    note e = coordinator_frames.end_inside [OF Some]
    show ?thesis
    proof (cases "handle_frame host task (take e pending) completed s")
      case (Returned s')
      with Some e show ?thesis
        by (simp add: drain_frames.simps [of host task pending] coordinator_frames.split_frames_Some)
    next
      case (Going completed' s')
      have "drain_frames host task pending completed s = drain_frames host task (drop e pending) completed' s'"
        using Some e Going by (simp add: drain_frames.simps [of host task pending])
      with "1" [OF Some e Going] Some Going show ?thesis
        by (simp add: coordinator_frames.split_frames_Some split: loop_result.splits)
    qed
  qed
qed

lemma drain_frames_ok: "running task s \<Longrightarrow> loop_ok task (fst (drain_frames host task pending completed s))"
  by (simp add: drain_frames_fold handle_frames_ok)

lemma forward_body_ended: "running task s \<Longrightarrow> ended task (forward_body host task pending completed s body)"
proof (induction host task pending completed s body rule: forward_body.induct)
  case (3 host task pending completed s bytes body)
  then show ?case
    using drain_frames_ok [OF "3.prems", of host "pending @ bytes" completed]
    by (auto split: prod.split loop_result.split)
qed auto

lemma forward_worker_stream_ended: "ended task (forward_worker_stream host task client body)"
proof -
  let ?s = "snd (send_event (ChunkEvent (role_chunk (st_context task))) \<lparr>fw_client = client, fw_trace = []\<rparr>)"
  have "running task ?s" by (rule running_send_event) (simp add: running_def)
  then show ?thesis
    by (auto simp: forward_worker_stream_def case_prod_beta intro: forward_body_ended)
qed

text \<open>On chunks without transport errors the task is the fold over the frames.\<close>

lemma forward_body_append:
  "forward_body host task pending completed s (map Inr chunks @ rest) =
     (case handle_frames host task (fst (feed_chunks sse_frame_end pending chunks)) completed s of
        Returned s' \<Rightarrow> s'
      | Going completed' s' \<Rightarrow>
          forward_body host task (snd (feed_chunks sse_frame_end pending chunks)) completed' s' rest)"
proof (induction chunks arbitrary: pending completed s)
  case (Cons chunk chunks)
  show ?case
  proof (cases "drain_frames host task (pending @ chunk) completed s")
    case (Pair r rest)
    then show ?thesis
      using drain_frames_fold [of host task "pending @ chunk" completed s] Cons.IH
      by (auto simp: case_prod_beta handle_frames_append split: loop_result.split)
  qed
qed simp

lemma forward_body_chunks:
  "forward_body host task pending completed s (map Inr chunks) =
     (case handle_frames host task (fst (feed_chunks sse_frame_end pending chunks)) completed s of
        Returned s' \<Rightarrow> s'
      | Going completed' s' \<Rightarrow> finish_stream host task completed' s')"
  using forward_body_append [of host task pending completed s chunks "[]"] by (simp cong: loop_result.case_cong)

section \<open>Properties of the forwarding task\<close>

text \<open>
  However the worker's body is cut, wherever it fails, whatever it contains and whenever
  the client goes away, the forwarding task ends by giving the worker's slot back, gives it back
  exactly once, and does nothing else to the registry than taking that worker offline.
\<close>

theorem stream_task_settles:
  "settled (sw_id (st_worker task)) (fw_trace (forward_worker_stream host task client body))"
  using forward_worker_stream_ended by (simp add: ended_def)

text \<open>
  On a body without carriage returns the task does not depend on how the transport cuts the
  bytes into chunks.
\<close>

theorem stream_task_chunking:
  assumes "concat chunks = concat chunks'" and "CR \<notin> set (concat chunks)"
  shows "forward_worker_stream host task client (map Inr chunks) =
    forward_worker_stream host task client (map Inr chunks')"
proof -
  have "feed_chunks sse_frame_end [] chunks = feed_chunks sse_frame_end [] chunks'"
    using coordinator_frames.feed_chunks_concat [of "[]" chunks]
      coordinator_frames.feed_chunks_concat [of "[]" chunks'] assms
    by (simp add: coordinator_frames.split_frames_None sse_frame_end_def)
  then show ?thesis
    by (simp add: forward_worker_stream_def forward_body_chunks case_prod_beta)
qed

text \<open>What a client that takes \<open>n\<close> events receives of a list of events.\<close>

fun client_takes :: "nat option \<Rightarrow> 'e list \<Rightarrow> 'e list" where
  "client_takes None events = events"
| "client_takes (Some n) events = take n events"

fun patience_after :: "nat option \<Rightarrow> nat \<Rightarrow> nat option" where
  "patience_after None k = None"
| "patience_after (Some n) k = Some (n - k)"

fun outlasts :: "nat option \<Rightarrow> nat \<Rightarrow> bool" where
  "outlasts None k \<longleftrightarrow> True"
| "outlasts (Some n) k \<longleftrightarrow> k \<le> n"

lemma patience_after_add [simp]: "patience_after (patience_after c m) n = patience_after c (m + n)"
  by (cases c) auto

lemma patience_after_0 [simp]: "patience_after c 0 = c"
  by (cases c) auto

lemma outlasts_0 [simp]: "outlasts c 0"
  by (cases c) auto

lemma outlasts_add: "outlasts c (m + n) \<longleftrightarrow> outlasts c m \<and> outlasts (patience_after c m) n"
  by (cases c) auto

lemma outlasts_Suc: "outlasts c (Suc n) \<longleftrightarrow> outlasts c 1 \<and> outlasts (patience_after c 1) n"
  by (cases c) auto

lemma not_outlasts_1 [simp]: "\<not> outlasts c (Suc 0) \<longleftrightarrow> c = Some 0"
  by (cases c) auto

lemma client_takes_append:
  "client_takes c (xs @ ys) = client_takes c xs @ client_takes (patience_after c (length xs)) ys"
  by (cases c) auto

lemma client_takes_Nil [simp]: "client_takes c [] = []"
  by (cases c) auto

text \<open>The state after putting events on the channel.\<close>

definition sent_all :: "public_event list \<Rightarrow> forwarding \<Rightarrow> forwarding" where
  "sent_all events s =
     \<lparr>fw_client = patience_after (fw_client s) (length events),
      fw_trace = fw_trace s @ map Sent (client_takes (fw_client s) events)\<rparr>"

lemma sent_all_client [simp]: "fw_client (sent_all es s) = patience_after (fw_client s) (length es)"
  by (simp add: sent_all_def)

lemma sent_all_append: "sent_all ys (sent_all xs s) = sent_all (xs @ ys) s"
  by (simp add: sent_all_def client_takes_append)

lemma sent_all_Cons: "sent_all ys (sent_all [x] s) = sent_all (x # ys) s"
  by (simp add: sent_all_append)

lemma sent_all_Nil [simp]: "sent_all [] s = s"
  by (cases s) (simp add: sent_all_def)

lemma sent_all_gone: "fw_client s = Some 0 \<Longrightarrow> sent_all es s = s"
  by (cases s) (simp add: sent_all_def)

lemma send_event_outcome: "send_event e s = (outlasts (fw_client s) 1, sent_all [e] s)"
  by (cases "fw_client s"; cases s) (auto simp: send_event_def emit_def sent_all_def split: nat.split)

lemma send_chunks_outcome:
  "send_chunks cs s = (outlasts (fw_client s) (length cs), sent_all (map ChunkEvent cs) s)"
proof (induction cs arbitrary: s)
  case (Cons c cs)
  show ?case
  proof (cases "outlasts (fw_client s) 1")
    case True
    then show ?thesis
      using outlasts_Suc [of "fw_client s" "length cs"]
      by (simp add: Cons.IH send_event_outcome sent_all_Cons)
  next
    case False
    then show ?thesis by (simp add: send_event_outcome sent_all_gone)
  qed
qed simp

text \<open>Printing events as JSON: one line that parses back and is not the end marker.\<close>

definition prints_events ::
  "host \<Rightarrow> (generation_stream_event \<Rightarrow> string) \<Rightarrow> generation_stream_event list \<Rightarrow> bool" where
  "prints_events host print_event events \<longleftrightarrow>
     (\<forall>e \<in> set events. sse_payload (print_event e) \<and> print_event e \<noteq> ''[DONE]'' \<and>
        h_parse_event host (print_event e) = Inr e)"

lemma handle_frame_event:
  "prints_events host print_event events \<Longrightarrow> e \<in> set events \<Longrightarrow>
   handle_frame host task (sse_encode (print_event e)) completed s = handle_event host task e completed s"
  by (simp add: handle_frame_def prints_events_def sse_data_encode)

lemma sse_payload_done: "sse_payload ''[DONE]''"
  by code_simp

lemma handle_frame_done: "handle_frame host task (sse_encode ''[DONE]'') completed s = Going completed s"
  by (simp add: handle_frame_def sse_data_encode sse_payload_done)

lemma handle_text_frames:
  assumes "prints_events host print_event (map TextDelta ts)"
  shows "handle_frames host task (map (sse_encode \<circ> print_event \<circ> TextDelta) ts) completed s =
    (if outlasts (fw_client s) (length ts)
     then Going completed (sent_all (map (ChunkEvent \<circ> text_chunk (st_context task)) ts) s)
     else Returned (give_up host task
       (sent_all (map (ChunkEvent \<circ> text_chunk (st_context task)) ts) s)))"
  using assms
proof (induction ts arbitrary: s)
  case (Cons t ts)
  have head: "handle_frame host task (sse_encode (print_event (TextDelta t))) completed s =
      handle_event host task (TextDelta t) completed s"
    using Cons.prems by (rule handle_frame_event) simp
  have tail: "prints_events host print_event (map TextDelta ts)"
    using Cons.prems by (simp add: prints_events_def)
  show ?case
  proof (cases "outlasts (fw_client s) 1")
    case True
    then show ?thesis
      using outlasts_Suc [of "fw_client s" "length ts"]
      by (simp add: head handle_event_def send_event_outcome Cons.IH [OF tail, unfolded o_def] sent_all_Cons)
  next
    case False
    then show ?thesis by (simp add: head handle_event_def send_event_outcome sent_all_gone)
  qed
qed simp

text \<open>The events a client is to get, and the bytes of a worker's stream.\<close>

definition public_stream ::
  "host \<Rightarrow> stream_context \<Rightarrow> string list \<Rightarrow> usize \<Rightarrow> usize \<Rightarrow> tool_call list \<Rightarrow> finish_reason \<Rightarrow>
   public_event list" where
  "public_stream host context ts i n calls fr =
     map ChunkEvent (role_chunk context # map (text_chunk context) ts @
       completed_chunks (h_print_json host) context i n calls fr) @ [DoneEvent]"

definition worker_body ::
  "(generation_stream_event \<Rightarrow> string) \<Rightarrow> generation_stream_event list \<Rightarrow> bytes" where
  "worker_body print_event events =
     concat (map sse_encode (map print_event events @ [''[DONE]'']))"

lemma feed_worker_body:
  assumes "prints_events host print_event events" and "concat chunks = worker_body print_event events"
  shows "fst (feed_chunks sse_frame_end [] chunks) =
    map (sse_encode \<circ> print_event) events @ [sse_encode ''[DONE]'']"
proof -
  have "\<forall>p \<in> set (map print_event events @ [''[DONE]'']). sse_payload p"
    using assms(1) by (auto simp: prints_events_def sse_payload_done)
  from feed_chunks_encoded [OF this] show ?thesis
    using assms(2) by (simp add: worker_body_def)
qed

lemma handle_worker_frames:
  assumes "prints_events host print_event (map TextDelta ts @ [Completed i n calls fr])"
  shows "handle_frames host task
      (map (sse_encode \<circ> print_event) (map TextDelta ts @ [Completed i n calls fr]) @
       [sse_encode ''[DONE]'']) False s =
    (let texts = map (ChunkEvent \<circ> text_chunk (st_context task)) ts;
         final = completed_chunks (h_print_json host) (st_context task) i n calls fr;
         s1 = sent_all texts s; s2 = sent_all (map ChunkEvent final) s1 in
     if \<not> outlasts (fw_client s) (length ts) then Returned (give_up host task s1)
     else if \<not> outlasts (fw_client s1) (length final) then Returned (release_slot task s2)
     else Going True s2)"
proof -
  have "prints_events host print_event (map TextDelta ts)"
    using assms by (simp add: prints_events_def)
  note texts = handle_text_frames [OF this]
  have final: "handle_frame host task (sse_encode (print_event (Completed i n calls fr))) False s =
      handle_event host task (Completed i n calls fr) False s" for s
    using assms by (rule handle_frame_event) simp
  show ?thesis
    by (simp add: handle_frames_append texts [unfolded o_def] final handle_event_def send_chunks_outcome
        handle_frame_done Let_def o_def)
qed

lemma send_done: "snd (send_event DoneEvent s) = sent_all [DoneEvent] s"
  by (simp add: send_event_outcome)

lemma client_takes_short:
  "\<not> outlasts c (length xs) \<Longrightarrow> client_takes c (xs @ ys) = client_takes c xs"
  by (cases c) auto

lemma outlasts_less: "outlasts c n \<Longrightarrow> m \<le> n \<Longrightarrow> outlasts c m"
  by (cases c) auto

lemma forward_worker_stream_run:
  fixes task :: stream_task and ts :: "string list" and client :: "nat option"
  assumes "prints_events host print_event (map TextDelta ts @ [Completed i n calls fr])"
    and "concat chunks = worker_body print_event (map TextDelta ts @ [Completed i n calls fr])"
  defines "role \<equiv> [ChunkEvent (role_chunk (st_context task))]"
    and "texts \<equiv> map (ChunkEvent \<circ> text_chunk (st_context task)) ts"
    and "final \<equiv> map ChunkEvent (completed_chunks (h_print_json host) (st_context task) i n calls fr)"
    and "start \<equiv> \<lparr>fw_client = client, fw_trace = []\<rparr>"
  shows "forward_worker_stream host task client (map Inr chunks) =
    (if \<not> outlasts client 1 then give_up host task (sent_all role start)
     else if \<not> outlasts client (Suc (length ts)) then give_up host task (sent_all (role @ texts) start)
     else if \<not> outlasts client (Suc (length ts) + length final)
       then release_slot task (sent_all (role @ texts @ final) start)
     else release_slot task (sent_all (role @ texts @ final @ [DoneEvent]) start))"
proof -
  note frames = handle_worker_frames [OF assms(1), of task "sent_all role start"]
  show ?thesis
    using outlasts_Suc [of client "length ts"] outlasts_add [of client "Suc (length ts)" "length final"]
    unfolding role_def texts_def final_def start_def
    by (simp add: forward_worker_stream_def forward_body_chunks feed_worker_body [OF assms(1,2)]
        frames [unfolded role_def start_def, simplified]
        send_event_outcome finish_stream_def send_done sent_all_append Let_def)
qed

text \<open>A client that stays is sent the whole stream.\<close>

lemma forwarded_completely:
  assumes "prints_events host print_event (map TextDelta ts @ [Completed i n calls fr])"
    and "concat chunks = worker_body print_event (map TextDelta ts @ [Completed i n calls fr])"
  shows "fw_trace (forward_worker_stream host task None (map Inr chunks)) =
    map Sent (public_stream host (st_context task) ts i n calls fr) @ [RegistryOp (Release (sw_id (st_worker task)))]"
  using forward_worker_stream_run [OF assms, of task None]
  by (simp add: release_slot_def emit_def sent_all_def public_stream_def)

text \<open>
  C11. A worker that streams text deltas and a completion is forwarded faithfully, however its
  body is cut into chunks: the client gets the role chunk, one chunk per delta, the completion
  chunks and the end marker, in this order, as many of them as it stays for. If it goes away
  before the completion the worker is told to cancel; in every case the slot is given back.
\<close>

theorem stream_forwarded:
  assumes "prints_events host print_event (map TextDelta ts @ [Completed i n calls fr])"
    and "concat chunks = worker_body print_event (map TextDelta ts @ [Completed i n calls fr])"
  shows "fw_trace (forward_worker_stream host task client (map Inr chunks)) =
    map Sent (client_takes client (public_stream host (st_context task) ts i n calls fr)) @
    (if outlasts client (Suc (length ts)) then [RegistryOp (Release (sw_id (st_worker task)))]
     else cancel_and_release host (st_post_ok task) (st_worker task) (st_request_id task))"
proof -
  let ?ctx = "st_context task"
  let ?role = "[ChunkEvent (role_chunk ?ctx)]" and ?texts = "map (ChunkEvent \<circ> text_chunk ?ctx) ts"
  let ?chunks = "completed_chunks (h_print_json host) ?ctx i n calls fr"
  let ?final = "map ChunkEvent ?chunks"
  let ?start = "\<lparr>fw_client = client, fw_trace = []\<rparr>"
  note run = forward_worker_stream_run [OF assms, of task client, unfolded length_map]
  have public: "public_stream host ?ctx ts i n calls fr = ?role @ ?texts @ ?final @ [DoneEvent]"
    by (simp add: public_stream_def)
  consider "\<not> outlasts client 1" | "outlasts client 1" "\<not> outlasts client (Suc (length ts))"
    | "outlasts client (Suc (length ts))" "\<not> outlasts client (Suc (length ts) + length ?chunks)"
    | "outlasts client (Suc (length ts) + length ?chunks)"
    by blast
  then show ?thesis
  proof cases
    case 1
    then show ?thesis
      using outlasts_Suc [of client "length ts"] client_takes_short [of client ?role]
      unfolding run public by (simp add: give_up_def sent_all_def)
  next
    case 2
    then show ?thesis
      using client_takes_short [of client "?role @ ?texts" "?final @ [DoneEvent]"]
      unfolding run public by (simp add: give_up_def sent_all_def)
  next
    case 3
    then show ?thesis
      using client_takes_short [of client "?role @ ?texts @ ?final" "[DoneEvent]"] outlasts_less [of client _ 1]
      unfolding run public by (simp add: release_slot_def sent_all_def)
  next
    case 4
    then show ?thesis
      using outlasts_less [OF 4, of 1] outlasts_less [OF 4, of "Suc (length ts)"]
      unfolding run public by (simp add: release_slot_def sent_all_def)
  qed
qed

text \<open>
  C27. A worker whose body breaks off before the completion, by an error of the transport or by
  ending early: a client that stays gets everything the worker sent, and an error event; the
  worker is told to cancel and gives its slot back, after a transport error it is also offline.
\<close>

theorem broken_stream:
  assumes "\<forall>t \<in> set ts. sse_payload (print_event (TextDelta t)) \<and> print_event (TextDelta t) \<noteq> ''[DONE]'' \<and>
      h_parse_event host (print_event (TextDelta t)) = Inr (TextDelta t)"
    and "concat chunks = concat (map (sse_encode \<circ> print_event \<circ> TextDelta) ts)"
  shows "fw_trace (forward_worker_stream host task None
      (map Inr chunks @ (case failure of None \<Rightarrow> [] | Some err \<Rightarrow> [Inl err]))) =
    map (Sent \<circ> ChunkEvent) (role_chunk (st_context task) # map (text_chunk (st_context task)) ts) @
    (case failure of
       None \<Rightarrow> []
     | Some err \<Rightarrow> mark_offline_effects (sw_id (st_worker task)) @
         [Sent (ErrorEvent (''worker stream failed: '' @ err))]) @
    [Sent (ErrorEvent ''worker stream ended before completion'')] @
    cancel_and_release host (st_post_ok task) (st_worker task) (st_request_id task)"
proof -
  have "prints_events host print_event (map TextDelta ts)"
    using assms(1) by (simp add: prints_events_def)
  note frames = handle_text_frames [OF this, of task False]
  have "\<forall>p \<in> set (map (print_event \<circ> TextDelta) ts). sse_payload p"
    using assms(1) by auto
  from feed_chunks_encoded [OF this, of chunks]
  have feed: "feed_chunks sse_frame_end [] chunks = (map (sse_encode \<circ> print_event \<circ> TextDelta) ts, [])"
    using assms(2) by (simp add: o_assoc)
  show ?thesis
    by (cases failure) (simp_all add: forward_worker_stream_def forward_body_append forward_body_chunks feed frames
        send_event_outcome sent_all_def finish_stream_def give_up_def send_error_def emit_def)
qed

section \<open>What a handler leaves in the registry\<close>

text \<open>The registry operations of a list of effects, and the slots a worker has in use.\<close>

fun registry_ops :: "effect list \<Rightarrow> registry_op list" where
  "registry_ops [] = []"
| "registry_ops (RegistryOp op # effects) = op # registry_ops effects"
| "registry_ops (_ # effects) = registry_ops effects"

definition run_effects :: "registry \<Rightarrow> effect list \<Rightarrow> registry" where
  "run_effects reg effects = foldl registry_step reg (registry_ops effects)"

definition slots_used :: "registry \<Rightarrow> string \<Rightarrow> nat option" where
  "slots_used reg i = map_option (\<lambda>w. unat (wr_active_requests w)) (worker_at reg i)"

lemma run_effects_Nil [simp]: "run_effects reg [] = reg"
  by (simp add: run_effects_def)

lemma run_effects_op [simp]: "run_effects reg (RegistryOp op # effects) = run_effects (registry_step reg op) effects"
  by (simp add: run_effects_def)

lemma registry_ops_append: "registry_ops (xs @ ys) = registry_ops xs @ registry_ops ys"
  by (induction xs rule: registry_ops.induct) auto

lemma run_effects_append: "run_effects reg (xs @ ys) = run_effects (run_effects reg xs) ys"
  by (simp add: run_effects_def registry_ops_append)

lemma slots_used_quiet: "list_all (quiet i) effects \<Longrightarrow> slots_used (run_effects reg effects) j = slots_used reg j"
proof (induction effects arbitrary: reg)
  case (Cons e effects)
  have "slots_used (run_effects reg [e]) j = slots_used reg j"
    using Cons.prems
    by (cases e; cases "worker_at reg j") (auto simp: run_effects_def slots_used_def mark_offline_workers_def
        mark_offline_affinity_def map_of_al_modify)
  then show ?case
    using Cons run_effects_append [of reg "[e]" effects] by simp
qed simp

lemma slots_used_settled:
  assumes "settled i effects"
  shows "slots_used (run_effects reg effects) j =
    (if j = i then map_option (\<lambda>n. n - 1) (slots_used reg j) else slots_used reg j)"
proof -
  from assms obtain pre where pre: "effects = pre @ [RegistryOp (Release i)]" "list_all (quiet i) pre"
    by (auto simp: settled_iff)
  have "slots_used (release i reg) j =
      (if j = i then map_option (\<lambda>n. n - 1) (slots_used reg j) else slots_used reg j)" for reg
    by (cases "worker_at reg j") (auto simp: slots_used_def release_def map_of_al_modify release_record_active)
  then show ?thesis
    using pre slots_used_quiet [OF pre(2)] by (simp add: run_effects_append)
qed

lemma slots_used_reserve:
  assumes "registry_inv reg" and "fst (select_and_reserve now model session reg) = Some s"
  shows "slots_used (snd (select_and_reserve now model session reg)) j =
    (if j = sw_id s then map_option Suc (slots_used reg j) else slots_used reg j)"
  using assms(1)
proof (cases rule: select_and_reserve_cases [of reg now model session])
  case (some i w)
  then show ?thesis
    using assms(2) by (auto simp: slots_used_def map_of_al_modify reserve_record_active(1))
qed (use assms(2) in simp)

lemma slots_balanced:
  assumes "registry_inv reg" and "fst (select_and_reserve now model session reg) = Some s"
    and "settled (sw_id s) effects"
  shows "slots_used (run_effects reg (RegistryOp (SelectAndReserve now model session) # effects)) j =
    slots_used reg j"
  using slots_used_reserve [OF assms(1,2), of j] slots_used_settled [OF assms(3)]
  by (cases "slots_used reg j") auto

lemma select_none:
  assumes "registry_inv reg" and "fst (select_and_reserve now model session reg) = None"
  shows "snd (select_and_reserve now model session reg) = reg"
  using assms(1) by (cases rule: select_and_reserve_cases [of reg now model session]) (use assms(2) in simp_all)

lemma stream_request_settles:
  assumes "fst (select_and_reserve (ex_now ex) (gr_model request) (gr_session_id request) reg) = Some s"
    and "ex_stream_reply ex \<noteq> None"
  shows "\<exists>effects. settled (sw_id s) effects \<and>
    snd (stream_request host ex request model reg) =
      RegistryOp (SelectAndReserve (ex_now ex) (gr_model request) (gr_session_id request)) # effects"
proof (cases "the (ex_stream_reply ex)")
  case (Replied status body)
  have "settled (sw_id s) (fw_trace (forward_worker_stream host
      \<lparr>st_context = c, st_worker = s, st_request_id = r, st_post_ok = p\<rparr> client body))" for c r p client
    using forward_worker_stream_ended [of "\<lparr>st_context = c, st_worker = s, st_request_id = r, st_post_ok = p\<rparr>"]
    by (simp add: ended_def)
  moreover have "settled (sw_id s) [RegistryOp (Release (sw_id s))]" by (simp add: settled_def)
  ultimately show ?thesis
    using assms Replied by (cases "is_success status") (auto simp: stream_request_def)
next
  case (ReplyFailed err)
  have "settled (sw_id s) (mark_offline_effects (sw_id s) @ [RegistryOp (Release (sw_id s))])"
    by (simp add: settledI)
  with ReplyFailed show ?thesis
    using assms by (auto simp: stream_request_def)
qed

lemma route_request_settles:
  assumes "fst (select_and_reserve (ex_now ex) (gr_model request) (gr_session_id request) reg) = Some s"
  shows "\<exists>effects. settled (sw_id s) effects \<and>
    fst (route_request host ex request reg) =
      RegistryOp (SelectAndReserve (ex_now ex) (gr_model request) (gr_session_id request)) # effects"
proof -
  have future: "list_all (quiet (sw_id s)) (fst (request_future host s reply))" for reply
    by (simp add: request_future_def split: reply.split)
  then have "list_all (quiet (sw_id s)) (take k (fst (request_future host s reply)))" for k reply
    by (metis append_take_drop_id list_all_append)
  with future show ?thesis
    using assms
    by (cases "ex_cancelled ex") (auto simp: route_request_def forward_worker_request_def case_prod_beta
        settledI settled_prepend)
qed

text \<open>
  C1. Slots are conserved: whatever the network does to a chat completion, plain or
  streamed, rejected, failed, cancelled or completed, afterwards every worker has as many slots
  in use as before. The one exception is a streaming handler that is dropped while it waits
  for the worker's headers.
\<close>

theorem chat_completions_conserves_slots:
  assumes "registry_inv reg" and "cr_stream public \<longrightarrow> ex_stream_reply ex \<noteq> None"
  shows "slots_used (run_effects reg (snd (chat_completions host ex header public reg))) i =
    slots_used reg i"
proof (cases "prepare_request host (ex_new_id ex) header public")
  case (Inl message)
  then show ?thesis by (simp add: chat_completions_def)
next
  case (Inr request)
  let ?sel = "select_and_reserve (ex_now ex) (gr_model request) (gr_session_id request) reg"
  show ?thesis
  proof (cases "fst ?sel")
    case None
    with Inr select_none [OF assms(1) None] show ?thesis
      by (auto simp: chat_completions_def stream_request_def route_request_def in_flight_def)
  next
    case (Some s)
    have "\<exists>effects. settled (sw_id s) effects \<and> snd (chat_completions host ex header public reg) =
        RegistryOp (SelectAndReserve (ex_now ex) (gr_model request) (gr_session_id request)) # effects"
      using stream_request_settles [OF Some, of host "cr_model public"] route_request_settles [OF Some, of host] assms(2) Inr
      by (auto simp: chat_completions_def case_prod_beta split: sum.split)
    then show ?thesis
      using slots_balanced [OF assms(1) Some] by auto
  qed
qed

section \<open>A sample host\<close>

text \<open>Events as one-letter tags, identifiers as fixed texts.\<close>

definition demo_print_event :: "generation_stream_event \<Rightarrow> string" where
  "demo_print_event event =
     (case event of TextDelta t \<Rightarrow> CHR ''T'' # t | Completed _ _ _ _ \<Rightarrow> ''C'' | StreamError m \<Rightarrow> CHR ''E'' # m)"

definition demo_parse_event :: "string \<Rightarrow> string + generation_stream_event" where
  "demo_parse_event payload =
     (case payload of
        [] \<Rightarrow> Inl ''empty''
      | c # rest \<Rightarrow>
          if c = CHR ''T'' then Inr (TextDelta rest)
          else if c = CHR ''C'' then Inr (Completed 3 1 [] Stop)
          else Inl ''unknown event'')"

definition demo_host :: host where
  "demo_host =
     \<lparr>h_parse_uuid = (\<lambda>s. if s = ''seven'' then Some 7 else None), h_show_uuid = (\<lambda>_. ''seven''),
      h_parse_json = (\<lambda>_. None), h_print_json = (\<lambda>_. ''{}''), h_parse_event = demo_parse_event,
      h_utf8_error = (\<lambda>_. []), h_show_status = (\<lambda>_. ''500'')\<rparr>"

definition demo_task :: stream_task where
  "demo_task =
     \<lparr>st_context = stream_context_new (\<lambda>_. ''seven'') 0 ''m'' 7,
      st_worker = \<lparr>sw_id = ''b'', sw_address = ''http://b/''\<rparr>, st_request_id = 7, st_post_ok = True\<rparr>"

definition demo_public :: "bool \<Rightarrow> chat_completion_request" where
  "demo_public streaming =
     \<lparr>cr_model = ''m'',
      cr_messages = [\<lparr>om_role = OUser, om_content = Some (JString ''hi''), om_tool_calls = [],
                      om_tool_call_id = None\<rparr>],
      cr_tools = [], cr_stream = streaming, cr_max_tokens = None, cr_max_completion_tokens = None,
      cr_template = None\<rparr>"

definition demo_exchange :: "(string + bytes) list reply option \<Rightarrow> exchange" where
  "demo_exchange stream_reply =
     \<lparr>ex_now = 1, ex_new_id = 7, ex_created = 0, ex_stream_reply = stream_reply,
      ex_generate_reply = ReplyFailed ''refused'', ex_cancelled = None, ex_client = None,
      ex_post_ok = True\<rparr>"

theorem stream_task_chunking_witness:
  "forward_worker_stream demo_host demo_task None (map Inr [''data: Ta'', [LF, LF]]) =
   forward_worker_stream demo_host demo_task None (map Inr [''data: Ta'' @ [LF, LF]])"
  by (rule stream_task_chunking) simp_all

theorem stream_forwarded_witness:
  "fw_trace (forward_worker_stream demo_host demo_task (Some 1)
     (map Inr [worker_body demo_print_event [TextDelta ''a'', Completed 3 1 [] Stop]])) =
   [Sent (ChunkEvent (role_chunk (st_context demo_task))), TokenCancelled,
    PostedCancel ''http://b/requests/seven/cancel'', RegistryOp (Release ''b'')]"
proof -
  have "prints_events demo_host demo_print_event (map TextDelta [''a''] @ [Completed 3 1 [] Stop])"
    by code_simp
  moreover have "cancel_and_release demo_host (st_post_ok demo_task) (st_worker demo_task) (st_request_id demo_task) =
      [TokenCancelled, PostedCancel ''http://b/requests/seven/cancel'', RegistryOp (Release ''b'')]"
    and "sw_id (st_worker demo_task) = ''b''"
    by code_simp+
  ultimately show ?thesis
    using stream_forwarded [of demo_host demo_print_event "[''a'']" 3 1 "[]" Stop
        "[worker_body demo_print_event [TextDelta ''a'', Completed 3 1 [] Stop]]" demo_task "Some 1"]
    by (simp add: public_stream_def)
qed

theorem broken_stream_witness:
  "fw_trace (forward_worker_stream demo_host demo_task None ([Inr (''data: Ta'' @ [LF, LF]), Inl ''reset''])) =
   [Sent (ChunkEvent (role_chunk (st_context demo_task))),
    Sent (ChunkEvent (text_chunk (st_context demo_task) ''a'')),
    RegistryOp (MarkOfflineWorkers ''b''), RegistryOp (MarkOfflineAffinity ''b''),
    Sent (ErrorEvent ''worker stream failed: reset''),
    Sent (ErrorEvent ''worker stream ended before completion''), TokenCancelled,
    PostedCancel ''http://b/requests/seven/cancel'', RegistryOp (Release ''b'')]"
proof -
  have "\<forall>t \<in> set [''a'']. sse_payload (demo_print_event (TextDelta t)) \<and>
      demo_print_event (TextDelta t) \<noteq> ''[DONE]'' \<and>
      h_parse_event demo_host (demo_print_event (TextDelta t)) = Inr (TextDelta t)"
    by code_simp
  moreover have "cancel_and_release demo_host (st_post_ok demo_task) (st_worker demo_task) (st_request_id demo_task) =
      [TokenCancelled, PostedCancel ''http://b/requests/seven/cancel'', RegistryOp (Release ''b'')]"
    and "sw_id (st_worker demo_task) = ''b''"
    by code_simp+
  ultimately show ?thesis
    using broken_stream [of "[''a'']" demo_print_event demo_host "[''data: Ta'' @ [LF, LF]]" demo_task "Some ''reset''"]
    by (simp add: sse_encode_def demo_print_event_def mark_offline_effects_def)
qed

theorem chat_completions_conserves_slots_witness:
  "slots_used (run_effects demo_registry (snd (chat_completions demo_host
     (demo_exchange (Some (Replied 200 [Inr ''data: junk'', Inl ''reset'']))) None (demo_public True)
     demo_registry))) ''b'' = slots_used demo_registry ''b''"
  by (rule chat_completions_conserves_slots [OF demo_registry_inv]) (simp add: demo_exchange_def)

end
