(* ===== verification/Worker_Runtime.thy ===== *)
theory Worker_Runtime
  imports Protocol Interfaces
begin

text \<open>
  The state of a worker, \<open>crates/worker/src/state.rs\<close>: request controls, session leases, the
  counter of active requests, and how a request is handed to the model. Shared objects are kept
  in a store: a cancellation token and its completion channel are a number, and the sets
  \<open>wk_cancelled\<close> and \<open>wk_completed\<close> say which have fired. What the model does is an argument.
\<close>

section \<open>State\<close>

type_synonym token = nat

record worker_runtime =
  wk_node_id :: string
  wk_model_id :: string
  wk_address :: string
  wk_max_requests :: usize
  wk_manifest :: model_manifest
  wk_active :: usize
  wk_draining :: bool
  wk_hardware :: hardware_info
  wk_requests :: "(uuid \<times> token) list"
  wk_next_token :: token
  wk_cancelled :: "token list"
  wk_completed :: "token list"
  wk_leases :: "uuid list"
  wk_cache_enabled :: bool
  wk_slot_wait :: duration

record session_cache_config =
  sc_min_tokens :: usize
  sc_max_entries :: usize
  sc_max_bytes :: usize
  sc_idle_ttl_ms :: u64
  sc_slot_wait_timeout_ms :: u64

definition session_cache_config_default :: session_cache_config where
  "session_cache_config_default =
     \<lparr>sc_min_tokens = 100, sc_max_entries = 1, sc_max_bytes = 0, sc_idle_ttl_ms = 15 * 60 * 1000,
      sc_slot_wait_timeout_ms = 30 * 1000\<rparr>"

definition idle_ttl :: "session_cache_config \<Rightarrow> duration" where
  "idle_ttl config = unat (sc_idle_ttl_ms config) * 1000000"

definition slot_wait_timeout :: "session_cache_config \<Rightarrow> duration" where
  "slot_wait_timeout config = unat (sc_slot_wait_timeout_ms config) * 1000000"

definition new_runtime ::
  "string \<Rightarrow> string \<Rightarrow> string \<Rightarrow> usize \<Rightarrow> model_manifest \<Rightarrow> hardware_info \<Rightarrow> session_cache_config \<Rightarrow>
   worker_runtime" where
  "new_runtime node_id model_id address max_requests manifest hardware session_cache =
     \<lparr>wk_node_id = node_id, wk_model_id = model_id, wk_address = address,
      wk_max_requests = max_requests, wk_manifest = manifest, wk_active = 0, wk_draining = False,
      wk_hardware = hardware, wk_requests = [], wk_next_token = 0, wk_cancelled = [],
      wk_completed = [], wk_leases = [],
      wk_cache_enabled = (0 < sc_max_entries session_cache),
      wk_slot_wait = slot_wait_timeout session_cache\<rparr>"

section \<open>Request controls\<close>

definition begin_request :: "uuid \<Rightarrow> worker_runtime \<Rightarrow> token option \<times> worker_runtime" where
  "begin_request request_id w =
     (case map_of (wk_requests w) request_id of
        Some _ \<Rightarrow> (None, w)
      | None \<Rightarrow>
          (let token = wk_next_token w in
           (Some token, w\<lparr>wk_requests := AList.update request_id token (wk_requests w),
                          wk_next_token := token + 1\<rparr>)))"

text \<open>\<open>cancel\<close> is two steps: fire the token of the request, then wait for its completion. While
  the control is in the table its completion channel is open; the answer of the wait is
  \<open>None\<close> as long as nothing is known, and \<open>False\<close> if the channel closes without a completion.\<close>

definition cancel_start :: "uuid \<Rightarrow> worker_runtime \<Rightarrow> token option \<times> worker_runtime" where
  "cancel_start request_id w =
     (case map_of (wk_requests w) request_id of
        None \<Rightarrow> (None, w)
      | Some token \<Rightarrow> (Some token, w\<lparr>wk_cancelled := List.insert token (wk_cancelled w)\<rparr>))"

definition cancel_wait :: "token \<Rightarrow> worker_runtime \<Rightarrow> bool option" where
  "cancel_wait token w =
     (if token \<in> set (wk_completed w) then Some True
      else if token \<in> set (al_values (wk_requests w)) then None
      else Some False)"

definition finish_control :: "uuid \<Rightarrow> worker_runtime \<Rightarrow> worker_runtime" where
  "finish_control request_id w =
     (case map_of (wk_requests w) request_id of
        None \<Rightarrow> w
      | Some token \<Rightarrow>
          w\<lparr>wk_requests := AList.delete request_id (wk_requests w),
            wk_completed := List.insert token (wk_completed w)\<rparr>)"

section \<open>The request counter\<close>

definition drain :: "worker_runtime \<Rightarrow> worker_runtime" where
  "drain w = w\<lparr>wk_draining := True\<rparr>"

definition check_reservable :: "string \<Rightarrow> worker_runtime \<Rightarrow> string + unit" where
  "check_reservable model w =
     (if model \<noteq> wk_model_id w then Inl ''requested model is not loaded''
      else if wk_draining w then Inl ''worker is draining''
      else Inr ())"

text \<open>One round of the loop in \<open>try_reserve\<close>, with the value last seen: a full worker refuses;
  otherwise the exchange succeeds if the counter still has that value and the processor does
  not fail it spuriously, and a failed exchange yields the value found.\<close>

datatype round = Full | Taken | Retry usize

definition reserve_round :: "usize \<Rightarrow> bool \<Rightarrow> worker_runtime \<Rightarrow> round \<times> worker_runtime" where
  "reserve_round seen spurious w =
     (if wk_max_requests w \<le> seen then (Full, w)
      else if wk_active w = seen \<and> \<not> spurious then (Taken, w\<lparr>wk_active := seen + 1\<rparr>)
      else (Retry (wk_active w), w))"

text \<open>The loop when no other task acts in between; the exchange fails spuriously as often as
  \<open>spurious\<close> has elements.\<close>

function reserve_loop :: "usize \<Rightarrow> unit list \<Rightarrow> worker_runtime \<Rightarrow> (string + unit) \<times> worker_runtime" where
  "reserve_loop seen spurious w =
     (case reserve_round seen (spurious \<noteq> []) w of
        (Full, w') \<Rightarrow> (Inl ''worker is at capacity'', w')
      | (Taken, w') \<Rightarrow> (Inr (), w')
      | (Retry found, w') \<Rightarrow> reserve_loop found (tl spurious) w')"
  by pat_completeness auto
termination
  by (relation "measure (\<lambda>(seen, spurious, w). 2 * length spurious + (if seen = wk_active w then 0 else 1))")
    (auto simp: reserve_round_def split: if_splits)

declare reserve_loop.simps [simp del]

definition try_reserve :: "string \<Rightarrow> unit list \<Rightarrow> worker_runtime \<Rightarrow> (string + unit) \<times> worker_runtime" where
  "try_reserve model spurious w =
     (case check_reservable model w of
        Inl e \<Rightarrow> (Inl e, w)
      | Inr _ \<Rightarrow> reserve_loop (wk_active w) spurious w)"

text \<open>\<open>fetch_sub\<close> wraps around.\<close>

definition release_active :: "worker_runtime \<Rightarrow> worker_runtime" where
  "release_active w = w\<lparr>wk_active := wk_active w - 1\<rparr>"

definition finish_request :: "uuid \<Rightarrow> worker_runtime \<Rightarrow> worker_runtime" where
  "finish_request request_id w = release_active (finish_control request_id w)"

definition capabilities :: "worker_runtime \<Rightarrow> worker_capabilities" where
  "capabilities w =
     \<lparr>wc_node_id = wk_node_id w,
      wc_models = [\<lparr>mc_id = wk_model_id w, mc_status = Loaded,
                    mc_manifest_sha256 = Some (mm_id (wk_manifest w))\<rparr>],
      wc_active_requests = wk_active w, wc_max_requests = wk_max_requests w,
      wc_state = (if wk_draining w then Draining
                  else if wk_max_requests w \<le> wk_active w then Busy else Available),
      wc_hardware = wk_hardware w\<rparr>"

section \<open>Session leases\<close>

datatype lease_round = Leased | NoLease | WaitFor duration

text \<open>One round of \<open>acquire\<close> for a session, \<open>elapsed\<close> after its start.\<close>

definition lease_attempt ::
  "uuid \<Rightarrow> duration \<Rightarrow> duration \<Rightarrow> worker_runtime \<Rightarrow> lease_round \<times> worker_runtime" where
  "lease_attempt session_id timeout elapsed w =
     (if session_id \<notin> set (wk_leases w)
      then (Leased, w\<lparr>wk_leases := session_id # wk_leases w\<rparr>)
      else if timeout = 0 then (NoLease, w)
      else if timeout - elapsed = 0 then (NoLease, w)
      else (WaitFor (timeout - elapsed), w))"

definition drop_lease :: "uuid \<Rightarrow> worker_runtime \<Rightarrow> worker_runtime" where
  "drop_lease session_id w = w\<lparr>wk_leases := removeAll session_id (wk_leases w)\<rparr>"

text \<open>The loop of \<open>acquire\<close> when no other task acts in between: the elapsed time at the
  start of every round, the last of which ends by the timeout.\<close>

fun acquire :: "uuid option \<Rightarrow> duration \<Rightarrow> duration list \<Rightarrow> worker_runtime \<Rightarrow> bool \<times> worker_runtime" where
  "acquire None timeout rounds w = (False, w)"
| "acquire (Some session_id) timeout [] w = (False, w)"
| "acquire (Some session_id) timeout (elapsed # rounds) w =
     (case lease_attempt session_id timeout elapsed w of
        (Leased, w') \<Rightarrow> (True, w')
      | (NoLease, w') \<Rightarrow> (False, w')
      | (WaitFor _, w') \<Rightarrow> acquire (Some session_id) timeout rounds w')"

text \<open>The session under which a request runs: a session that is contended, i.e.\ whose lease
  was not granted in time, runs isolated.\<close>

definition cache_session_id :: "bool \<Rightarrow> uuid option \<Rightarrow> bool \<Rightarrow> uuid option" where
  "cache_session_id cache_enabled session_id leased =
     (if cache_enabled \<and> session_id \<noteq> None \<and> \<not> leased then None else session_id)"

section \<open>Requests to the model\<close>

record generation_config =
  gc_max_tokens :: usize
  gc_temperature :: "nat option"

record chat_request =
  cq_request_id :: uuid
  cq_session_id :: "uuid option"
  cq_messages :: "chat_message list"
  cq_template :: "string option"
  cq_tools :: "tool_definition list"
  cq_generation :: generation_config
  cq_cancellation :: token

record generation_result =
  gt_text :: string
  gt_input_tokens :: usize
  gt_output_tokens :: usize
  gt_tool_calls :: "tool_call list"
  gt_finish_reason :: finish_reason

datatype generation_event =
    EventTextDelta string
  | EventCompleted generation_result
  | EventError string

definition chat_request_of ::
  "generate_request \<Rightarrow> token \<Rightarrow> uuid option \<Rightarrow> string + chat_request" where
  "chat_request_of request cancellation session_id =
     (case normalized_messages request of
        Inl e \<Rightarrow> Inl (request_validation_error_to_string e)
      | Inr messages \<Rightarrow>
          Inr \<lparr>cq_request_id = gr_request_id request, cq_session_id = session_id,
               cq_messages = messages, cq_template = gr_template request, cq_tools = gr_tools request,
               cq_generation = \<lparr>gc_max_tokens = gr_max_tokens request, gc_temperature = None\<rparr>,
               cq_cancellation = cancellation\<rparr>)"

definition generate ::
  "(chat_request \<Rightarrow> string + generation_result) \<Rightarrow> worker_runtime \<Rightarrow> generate_request \<Rightarrow> token \<Rightarrow>
   bool \<Rightarrow> string + generate_response" where
  "generate model w request cancellation leased =
     (case chat_request_of request cancellation
             (cache_session_id (wk_cache_enabled w) (gr_session_id request) leased) of
        Inl e \<Rightarrow> Inl e
      | Inr chat \<Rightarrow>
          (case model chat of
             Inl e \<Rightarrow> Inl e
           | Inr generated \<Rightarrow>
               Inr \<lparr>gp_request_id = gr_request_id request, gp_worker_id = wk_node_id w,
                    gp_model = gr_model request, gp_text = gt_text generated,
                    gp_input_tokens = gt_input_tokens generated,
                    gp_output_tokens = gt_output_tokens generated,
                    gp_tool_calls = gt_tool_calls generated,
                    gp_finish_reason = gt_finish_reason generated\<rparr>))"

fun stream_event_of :: "generation_event \<Rightarrow> generation_stream_event" where
  "stream_event_of (EventTextDelta t) = TextDelta t"
| "stream_event_of (EventCompleted r) =
     Completed (gt_input_tokens r) (gt_output_tokens r) (gt_tool_calls r) (gt_finish_reason r)"
| "stream_event_of (EventError e) = StreamError e"

text \<open>The loop of \<open>stream\<close>: events sent before the receiver goes away (it takes \<open>client\<close>
  events), and whether the token is cancelled because it did.\<close>

fun pump_events :: "nat option \<Rightarrow> generation_event list \<Rightarrow> generation_stream_event list \<times> bool" where
  "pump_events client [] = ([], False)"
| "pump_events (Some 0) (e # es) = ([], True)"
| "pump_events (Some (Suc n)) (e # es) =
     (let (sent, cancelled) = pump_events (Some n) es in (stream_event_of e # sent, cancelled))"
| "pump_events None (e # es) =
     (let (sent, cancelled) = pump_events None es in (stream_event_of e # sent, cancelled))"

definition stream ::
  "(chat_request \<Rightarrow> string + generation_event list) \<Rightarrow> worker_runtime \<Rightarrow> generate_request \<Rightarrow> token \<Rightarrow>
   bool \<Rightarrow> nat option \<Rightarrow> generation_stream_event list \<times> bool" where
  "stream model w request cancellation leased client =
     (case chat_request_of request cancellation
             (cache_session_id (wk_cache_enabled w) (gr_session_id request) leased) of
        Inl e \<Rightarrow> (if client = Some 0 then [] else [StreamError e], False)
      | Inr chat \<Rightarrow>
          (case model chat of
             Inl e \<Rightarrow> (if client = Some 0 then [] else [StreamError e], False)
           | Inr events \<Rightarrow> pump_events client events))"

end
