(* ===== verification/Worker_Api.thy ===== *)
theory Worker_Api
  imports Worker_Runtime "HOL-Library.Multiset"
begin

text \<open>
  The handlers of \<open>crates/worker/src/api.rs\<close>: first one at a time, as functions of the worker's
  state, then as tasks that run interleaved, as a step relation with its invariant.
\<close>

section \<open>Handlers\<close>

datatype worker_response =
    ResponseBody generate_response
  | ErrorBody nat string
  | StreamBody "generation_stream_event list"

definition normalize_request :: "generate_request \<Rightarrow> string + generate_request" where
  "normalize_request request =
     (case request_validate_tools request of
        Inl e \<Rightarrow> Inl (request_validation_error_to_string e)
      | Inr _ \<Rightarrow>
          (case normalized_messages request of
             Inl e \<Rightarrow> Inl (request_validation_error_to_string e)
           | Inr messages \<Rightarrow>
               (case validate_tool_history_messages request messages of
                  Inl e \<Rightarrow> Inl (request_validation_error_to_string e)
                | Inr _ \<Rightarrow> Inr (request\<lparr>gr_prompt := None, gr_messages := Some messages\<rparr>))))"

text \<open>What a request body sees of its surroundings: spurious failures of the exchange, rounds
  of the lease loop, events a stream's client takes.\<close>

record request_env =
  rq_spurious :: "unit list"
  rq_rounds :: "duration list"
  rq_client :: "nat option"

definition acquire_if_enabled ::
  "request_env \<Rightarrow> generate_request \<Rightarrow> worker_runtime \<Rightarrow> bool \<times> worker_runtime" where
  "acquire_if_enabled env request w =
     (if wk_cache_enabled w then acquire (gr_session_id request) (wk_slot_wait w) (rq_rounds env) w
      else (False, w))"

text \<open>The lease is a guard: it is dropped when the request is done.\<close>

definition drop_lease_if :: "bool \<Rightarrow> generate_request \<Rightarrow> worker_runtime \<Rightarrow> worker_runtime" where
  "drop_lease_if leased request w =
     (case gr_session_id request of Some s \<Rightarrow> if leased then drop_lease s w else w | None \<Rightarrow> w)"

definition admit ::
  "request_env \<Rightarrow> generate_request \<Rightarrow> worker_runtime \<Rightarrow>
   (worker_response + generate_request \<times> token) \<times> worker_runtime" where
  "admit env request w =
     (case normalize_request request of
        Inl e \<Rightarrow> (Inl (ErrorBody 400 e), w)
      | Inr request \<Rightarrow>
          (case try_reserve (gr_model request) (rq_spurious env) w of
             (Inl message, w1) \<Rightarrow> (Inl (ErrorBody 503 message), w1)
           | (Inr _, w1) \<Rightarrow>
               (case begin_request (gr_request_id request) w1 of
                  (None, w2) \<Rightarrow> (Inl (ErrorBody 409 ''request is already active''), release_active w2)
                | (Some token, w2) \<Rightarrow> (Inr (request, token), w2))))"

definition generate_handler ::
  "(chat_request \<Rightarrow> string + generation_result) \<Rightarrow> request_env \<Rightarrow> generate_request \<Rightarrow>
   worker_runtime \<Rightarrow> worker_response \<times> worker_runtime" where
  "generate_handler model env request w =
     (case admit env request w of
        (Inl response, w1) \<Rightarrow> (response, w1)
      | (Inr (request, token), w1) \<Rightarrow>
          (let (leased, w2) = acquire_if_enabled env request w1;
               result = generate model w2 request token leased;
               w3 = finish_request (gr_request_id request) (drop_lease_if leased request w2)
           in (case result of
                 Inr response \<Rightarrow> (ResponseBody response, w3)
               | Inl e \<Rightarrow> (ErrorBody 500 e, w3))))"

definition stream_handler ::
  "(chat_request \<Rightarrow> string + generation_event list) \<Rightarrow> request_env \<Rightarrow> generate_request \<Rightarrow>
   worker_runtime \<Rightarrow> worker_response \<times> worker_runtime" where
  "stream_handler model env request w =
     (case admit env request w of
        (Inl response, w1) \<Rightarrow> (response, w1)
      | (Inr (request, token), w1) \<Rightarrow>
          (let (leased, w2) = acquire_if_enabled env request w1;
               (events, cancelled) = stream model w2 request token leased (rq_client env);
               w3 = (if cancelled then w2\<lparr>wk_cancelled := List.insert token (wk_cancelled w2)\<rparr> else w2)
           in (StreamBody events, finish_request (gr_request_id request) (drop_lease_if leased request w3))))"

text \<open>\<open>POST /requests/{id}/cancel\<close> once it answers: 204 or 404.\<close>

definition cancel_handler :: "uuid \<Rightarrow> worker_runtime \<Rightarrow> nat option \<times> worker_runtime" where
  "cancel_handler request_id w =
     (case cancel_start request_id w of
        (None, w') \<Rightarrow> (Some 404, w')
      | (Some token, w') \<Rightarrow>
          (map_option (\<lambda>found. if found then 204 else 404) (cancel_wait token w'), w'))"

definition drain_handler :: "worker_runtime \<Rightarrow> worker_capabilities \<times> worker_runtime" where
  "drain_handler w = (capabilities (drain w), drain w)"

section \<open>Interleaved requests\<close>

text \<open>
  Where a request stands. \<open>Checked\<close>: model and draining flag are checked; \<open>Trying\<close>: in the loop
  of \<open>try_reserve\<close>; \<open>Conflict\<close>: its id is taken, the slot is still to be given back;
  \<open>Generating\<close>: with the session lease it holds, if any; \<open>Finished\<close>: the control is removed,
  the slot is still to be given back; \<open>Abandoned\<close>: the handler was dropped.
\<close>

datatype phase =
    Arrived | Checked | Trying usize | Reserved | Conflict | Begun token
  | Generating token "uuid option" | Finishing token | Finished | Answered | Rejected nat string
  | Abandoned token

record task =
  tk_streaming :: bool
  tk_request :: generate_request
  tk_phase :: phase

type_synonym worker_system = "worker_runtime \<times> task list"

abbreviation (input) moves :: "task list \<Rightarrow> nat \<Rightarrow> phase \<Rightarrow> task list" where
  "moves ts i ph \<equiv> ts[i := (ts ! i)\<lparr>tk_phase := ph\<rparr>]"

abbreviation (input) at_phase :: "task list \<Rightarrow> nat \<Rightarrow> phase \<Rightarrow> bool" where
  "at_phase ts i ph \<equiv> i < length ts \<and> tk_phase (ts ! i) = ph"

fun lease_drop :: "uuid option \<Rightarrow> worker_runtime \<Rightarrow> worker_runtime" where
  "lease_drop None w = w"
| "lease_drop (Some s) w = drop_lease s w"

text \<open>The steps of the system. A plain handler can be dropped at its two awaits, when
  \<open>drops\<close> allows it; a streamed request runs in a task of its own and cannot.\<close>

inductive worker_step :: "bool \<Rightarrow> worker_system \<Rightarrow> worker_system \<Rightarrow> bool" for drops :: bool where
  arrive: "normalize_request r = Inr r' \<Longrightarrow>
    worker_step drops (w, ts) (w, ts @ [\<lparr>tk_streaming = b, tk_request = r', tk_phase = Arrived\<rparr>])"
| refuse: "at_phase ts i Arrived \<Longrightarrow> check_reservable (gr_model (tk_request (ts ! i))) w = Inl e \<Longrightarrow>
    worker_step drops (w, ts) (w, moves ts i (Rejected 503 e))"
| check: "at_phase ts i Arrived \<Longrightarrow> check_reservable (gr_model (tk_request (ts ! i))) w = Inr () \<Longrightarrow>
    worker_step drops (w, ts) (w, moves ts i Checked)"
| load: "at_phase ts i Checked \<Longrightarrow>
    worker_step drops (w, ts) (w, moves ts i (Trying (wk_active w)))"
| full: "at_phase ts i (Trying seen) \<Longrightarrow> reserve_round seen spurious w = (Full, w') \<Longrightarrow>
    worker_step drops (w, ts) (w', moves ts i (Rejected 503 ''worker is at capacity''))"
| retry: "at_phase ts i (Trying seen) \<Longrightarrow> reserve_round seen spurious w = (Retry found, w') \<Longrightarrow>
    worker_step drops (w, ts) (w', moves ts i (Trying found))"
| take_slot: "at_phase ts i (Trying seen) \<Longrightarrow> reserve_round seen spurious w = (Taken, w') \<Longrightarrow>
    worker_step drops (w, ts) (w', moves ts i Reserved)"
| begin_new: "at_phase ts i Reserved \<Longrightarrow>
    begin_request (gr_request_id (tk_request (ts ! i))) w = (Some token, w') \<Longrightarrow>
    worker_step drops (w, ts) (w', moves ts i (Begun token))"
| begin_taken: "at_phase ts i Reserved \<Longrightarrow>
    begin_request (gr_request_id (tk_request (ts ! i))) w = (None, w') \<Longrightarrow>
    worker_step drops (w, ts) (w', moves ts i Conflict)"
| conflict: "at_phase ts i Conflict \<Longrightarrow>
    worker_step drops (w, ts) (release_active w, moves ts i (Rejected 409 ''request is already active''))"
| lease: "at_phase ts i (Begun token) \<Longrightarrow> wk_cache_enabled w \<Longrightarrow>
    gr_session_id (tk_request (ts ! i)) = Some s \<Longrightarrow>
    lease_attempt s (wk_slot_wait w) elapsed w = (Leased, w') \<Longrightarrow>
    worker_step drops (w, ts) (w', moves ts i (Generating token (Some s)))"
| no_lease: "at_phase ts i (Begun token) \<Longrightarrow>
    worker_step drops (w, ts) (w, moves ts i (Generating token None))"
| generated: "at_phase ts i (Generating token held) \<Longrightarrow>
    worker_step drops (w, ts) (lease_drop held w, moves ts i (Finishing token))"
| finish: "at_phase ts i (Finishing token) \<Longrightarrow>
    worker_step drops (w, ts)
      (finish_control (gr_request_id (tk_request (ts ! i))) w, moves ts i Finished)"
| answer: "at_phase ts i Finished \<Longrightarrow>
    worker_step drops (w, ts) (release_active w, moves ts i Answered)"
| cancel: "cancel_start request_id w = (found, w') \<Longrightarrow> worker_step drops (w, ts) (w', ts)"
| draining: "worker_step drops (w, ts) (drain w, ts)"
| abandon_waiting: "drops \<Longrightarrow> at_phase ts i (Begun token) \<Longrightarrow> \<not> tk_streaming (ts ! i) \<Longrightarrow>
    worker_step drops (w, ts) (w, moves ts i (Abandoned token))"
| abandon_generating: "drops \<Longrightarrow> at_phase ts i (Generating token held) \<Longrightarrow> \<not> tk_streaming (ts ! i) \<Longrightarrow>
    worker_step drops (w, ts) (lease_drop held w, moves ts i (Abandoned token))"

section \<open>The invariant\<close>

text \<open>What a phase holds: a slot, a request control, a session lease.\<close>

fun slot :: "phase \<Rightarrow> nat" where
  "slot Arrived = 0" | "slot Checked = 0" | "slot (Trying _) = 0"
| "slot Answered = 0" | "slot (Rejected _ _) = 0" | "slot _ = 1"

fun control :: "task \<Rightarrow> (uuid \<times> token) multiset" where
  "control t =
     (case tk_phase t of
        Begun token \<Rightarrow> {#(gr_request_id (tk_request t), token)#}
      | Generating token _ \<Rightarrow> {#(gr_request_id (tk_request t), token)#}
      | Finishing token \<Rightarrow> {#(gr_request_id (tk_request t), token)#}
      | Abandoned token \<Rightarrow> {#(gr_request_id (tk_request t), token)#}
      | _ \<Rightarrow> {#})"

fun held_lease :: "phase \<Rightarrow> uuid multiset" where
  "held_lease (Generating _ (Some s)) = {#s#}"
| "held_lease _ = {#}"

definition slots_held :: "task list \<Rightarrow> nat" where
  "slots_held ts = sum_list (map (slot \<circ> tk_phase) ts)"

definition controls_held :: "task list \<Rightarrow> (uuid \<times> token) multiset" where
  "controls_held ts = sum_list (map control ts)"

definition leases_held :: "task list \<Rightarrow> uuid multiset" where
  "leases_held ts = sum_list (map (held_lease \<circ> tk_phase) ts)"

text \<open>Slots are counted exactly and stay within the maximum; the table of controls holds the
  controls of the tasks, one per request id, each with a token of its own that has not
  completed; the leases are those the tasks hold, one per session.\<close>

definition slots_inv :: "worker_system \<Rightarrow> bool" where
  "slots_inv s \<longleftrightarrow> unat (wk_active (fst s)) = slots_held (snd s) \<and>
     wk_active (fst s) \<le> wk_max_requests (fst s)"

definition tokens_inv :: "worker_runtime \<Rightarrow> bool" where
  "tokens_inv w \<longleftrightarrow> distinct (al_keys (wk_requests w)) \<and> distinct (al_values (wk_requests w)) \<and>
     (\<forall>token \<in> set (al_values (wk_requests w)). token < wk_next_token w \<and> token \<notin> set (wk_completed w)) \<and>
     (\<forall>token \<in> set (wk_completed w). token < wk_next_token w)"

definition controls_inv :: "worker_system \<Rightarrow> bool" where
  "controls_inv s \<longleftrightarrow> mset (wk_requests (fst s)) = controls_held (snd s) \<and> tokens_inv (fst s)"

definition leases_inv :: "worker_system \<Rightarrow> bool" where
  "leases_inv s \<longleftrightarrow> distinct (wk_leases (fst s)) \<and> mset (wk_leases (fst s)) = leases_held (snd s)"

definition worker_inv :: "worker_system \<Rightarrow> bool" where
  "worker_inv s \<longleftrightarrow> slots_inv s \<and> controls_inv s \<and> leases_inv s"

definition worker_start :: "worker_system \<Rightarrow> bool" where
  "worker_start s \<longleftrightarrow> (\<exists>node model address max manifest hardware config.
     s = (new_runtime node model address max manifest hardware config, []))"

lemma worker_inv_start: "worker_start s \<Longrightarrow> worker_inv s"
  by (auto simp: worker_start_def worker_inv_def slots_inv_def controls_inv_def leases_inv_def
      tokens_inv_def slots_held_def controls_held_def leases_held_def new_runtime_def)

lemma sum_list_list_update:
  fixes f :: "'a \<Rightarrow> 'b :: comm_monoid_add"
  shows "i < length xs \<Longrightarrow> sum_list (map f (xs[i := y])) + f (xs ! i) = sum_list (map f xs) + f y"
  by (induction xs arbitrary: i) (auto simp: ac_simps split: nat.split)

lemma held_moves:
  assumes "i < length ts"
  shows "slots_held (moves ts i ph) + slot (tk_phase (ts ! i)) = slots_held ts + slot ph"
    and "controls_held (moves ts i ph) + control (ts ! i) =
      controls_held ts + control ((ts ! i)\<lparr>tk_phase := ph\<rparr>)"
    and "leases_held (moves ts i ph) + held_lease (tk_phase (ts ! i)) = leases_held ts + held_lease ph"
  using sum_list_list_update [OF assms, of "slot \<circ> tk_phase" "(ts ! i)\<lparr>tk_phase := ph\<rparr>"]
    sum_list_list_update [OF assms, of control "(ts ! i)\<lparr>tk_phase := ph\<rparr>"]
    sum_list_list_update [OF assms, of "held_lease \<circ> tk_phase" "(ts ! i)\<lparr>tk_phase := ph\<rparr>"]
  by (simp_all add: slots_held_def controls_held_def leases_held_def)

lemma held_arrival [simp]:
  "slots_held (ts @ [\<lparr>tk_streaming = b, tk_request = r, tk_phase = Arrived\<rparr>]) = slots_held ts"
  "controls_held (ts @ [\<lparr>tk_streaming = b, tk_request = r, tk_phase = Arrived\<rparr>]) = controls_held ts"
  "leases_held (ts @ [\<lparr>tk_streaming = b, tk_request = r, tk_phase = Arrived\<rparr>]) = leases_held ts"
  by (simp_all add: slots_held_def controls_held_def leases_held_def)

lemma runtime_frames [simp]:
  "wk_active (finish_control rid w) = wk_active w" "wk_max_requests (finish_control rid w) = wk_max_requests w"
  "wk_leases (finish_control rid w) = wk_leases w" "wk_draining (finish_control rid w) = wk_draining w"
  "wk_active (drop_lease x w) = wk_active w" "wk_max_requests (drop_lease x w) = wk_max_requests w"
  "wk_requests (drop_lease x w) = wk_requests w" "wk_draining (drop_lease x w) = wk_draining w"
  "wk_active (lease_drop h w) = wk_active w" "wk_max_requests (lease_drop h w) = wk_max_requests w"
  "wk_requests (lease_drop h w) = wk_requests w" "wk_draining (lease_drop h w) = wk_draining w"
  "tokens_inv (lease_drop h w) = tokens_inv w"
  "wk_requests (release_active w) = wk_requests w" "wk_leases (release_active w) = wk_leases w"
  "wk_max_requests (release_active w) = wk_max_requests w" "tokens_inv (release_active w) = tokens_inv w"
  "wk_active (drain w) = wk_active w" "wk_max_requests (drain w) = wk_max_requests w"
  "wk_requests (drain w) = wk_requests w" "wk_leases (drain w) = wk_leases w" "tokens_inv (drain w) = tokens_inv w"
  by (cases h; simp add: finish_control_def drop_lease_def release_active_def drain_def tokens_inv_def split: option.split)+

lemma begin_request_cases:
  assumes "begin_request rid w = (r, w')"
  obtains (taken) "r = None" "w' = w" "rid \<in> set (al_keys (wk_requests w))"
  | (fresh) "r = Some (wk_next_token w)" "rid \<notin> set (al_keys (wk_requests w))"
      "w' = w\<lparr>wk_requests := AList.update rid (wk_next_token w) (wk_requests w),
              wk_next_token := wk_next_token w + 1\<rparr>"
  using assms map_of_al_keys [of "wk_requests w" rid]
  by (auto simp: begin_request_def Let_def split: option.splits)

lemma cancel_start_frame:
  assumes "cancel_start rid w = (r, w')"
  shows "wk_active w' = wk_active w" "wk_max_requests w' = wk_max_requests w"
    "wk_requests w' = wk_requests w" "wk_leases w' = wk_leases w" "tokens_inv w' = tokens_inv w"
    "wk_completed w' = wk_completed w" "wk_draining w' = wk_draining w"
proof -
  obtain c where "w' = w\<lparr>wk_cancelled := c\<rparr>"
    using assms by (cases "map_of (wk_requests w) rid")
      (auto simp: cancel_start_def intro: that [of "wk_cancelled w"])
  then show "wk_active w' = wk_active w" "wk_max_requests w' = wk_max_requests w"
    "wk_requests w' = wk_requests w" "wk_leases w' = wk_leases w" "tokens_inv w' = tokens_inv w"
    "wk_completed w' = wk_completed w" "wk_draining w' = wk_draining w"
    by (simp_all add: tokens_inv_def)
qed

lemma reserve_round_results:
  "reserve_round seen spurious w = (Full, w') \<Longrightarrow> w' = w \<and> wk_max_requests w \<le> seen"
  "reserve_round seen spurious w = (Taken, w') \<Longrightarrow>
     w' = w\<lparr>wk_active := wk_active w + 1\<rparr> \<and> wk_active w < wk_max_requests w"
  "reserve_round seen spurious w = (Retry found, w') \<Longrightarrow> w' = w"
  by (simp_all add: reserve_round_def not_le split: if_split_asm)

lemma lease_attempt_cases:
  assumes "lease_attempt s timeout elapsed w = (r, w')"
  obtains (leased) "r = Leased" "s \<notin> set (wk_leases w)" "w' = w\<lparr>wk_leases := s # wk_leases w\<rparr>"
  | (other) "r \<noteq> Leased" "w' = w"
  using assms by (cases "s \<in> set (wk_leases w)") (auto simp: lease_attempt_def split: if_split_asm)

section \<open>Every step keeps the invariant\<close>

text \<open>The three things a step does to what tasks hold: nothing, take one, give one back.\<close>

lemma slots_inv_same:
  assumes "slots_inv (w, ts)" "i < length ts" "slot ph = slot (tk_phase (ts ! i))"
    "wk_active w' = wk_active w" "wk_max_requests w' = wk_max_requests w"
  shows "slots_inv (w', moves ts i ph)"
  using assms held_moves(1) [of i ts ph] by (simp add: slots_inv_def)

lemma slots_inv_take:
  assumes "slots_inv (w, ts)" "at_phase ts i (Trying seen)" "wk_active w < wk_max_requests w"
  shows "slots_inv (w\<lparr>wk_active := wk_active w + 1\<rparr>, moves ts i Reserved)"
  using assms held_moves(1) [of i ts Reserved]
  by (simp add: slots_inv_def unat_plus1_less plus1_le_of_less)

lemma slots_inv_give:
  assumes "slots_inv (w, ts)" "i < length ts" "slot (tk_phase (ts ! i)) = 1" "slot ph = 0"
  shows "slots_inv (release_active w, moves ts i ph)"
proof -
  have held: "slots_held (moves ts i ph) + 1 = slots_held ts"
    using assms held_moves(1) [of i ts ph] by simp
  then have "wk_active w \<noteq> 0" using assms(1) by (auto simp: slots_inv_def)
  then have "unat (wk_active w - 1) = unat (wk_active w) - 1"
    by (simp add: unat_minus_one)
  with held assms(1) show ?thesis
    by (auto simp: slots_inv_def release_active_def word_le_nat_alt)
qed

lemma controls_inv_same:
  assumes "controls_inv (w, ts)" "i < length ts" "control ((ts ! i)\<lparr>tk_phase := ph\<rparr>) = control (ts ! i)"
    "wk_requests w' = wk_requests w" "tokens_inv w' = tokens_inv w"
  shows "controls_inv (w', moves ts i ph)"
  using assms held_moves(2) [of i ts ph] by (simp add: controls_inv_def del: control.simps)

lemma mset_delete: "distinct (al_keys al) \<Longrightarrow> map_of al k = Some v \<Longrightarrow> mset al = add_mset (k, v) (mset (AList.delete k al))"
  by (induction al) (auto simp: delete_id split: if_splits)

lemma controls_inv_begin:
  assumes "controls_inv (w, ts)" "at_phase ts i Reserved"
    "begin_request (gr_request_id (tk_request (ts ! i))) w = (Some token, w')"
  shows "controls_inv (w', moves ts i (Begun token))"
  using assms(3)
proof (cases rule: begin_request_cases)
  case fresh
  then show ?thesis
    using assms held_moves(2) [of i ts "Begun token"] unfolding controls_inv_def tokens_inv_def
    by (auto simp: al_update_new less_Suc_eq)
qed simp

lemma controls_inv_finish:
  assumes "controls_inv (w, ts)" "at_phase ts i (Finishing token)"
  shows "controls_inv (finish_control (gr_request_id (tk_request (ts ! i))) w, moves ts i Finished)"
proof -
  let ?rid = "gr_request_id (tk_request (ts ! i))"
  have held: "add_mset (?rid, token) (controls_held (moves ts i Finished)) = mset (wk_requests w)"
    using assms held_moves(2) [of i ts Finished] by (simp add: controls_inv_def)
  then have "(?rid, token) \<in> set (wk_requests w)"
    by (metis set_mset_mset union_single_eq_member)
  then have lookup: "map_of (wk_requests w) ?rid = Some token"
    using assms(1) by (simp add: controls_inv_def tokens_inv_def)
  have keys: "distinct (al_keys (wk_requests w))"
    using assms(1) by (simp add: controls_inv_def tokens_inv_def)
  note del = mset_delete [OF keys lookup]
  let ?rest = "AList.delete ?rid (wk_requests w)"
  have tokens: "mset (al_values (wk_requests w)) = mset (token # al_values ?rest)"
    using arg_cong [OF del, of "image_mset snd"] by simp
  have "distinct (al_values (wk_requests w))" using assms(1) by (simp add: controls_inv_def tokens_inv_def)
  with tokens have "distinct (token # al_values ?rest)" by (metis mset_eq_imp_distinct_iff)
  moreover have "set (al_values (wk_requests w)) = insert token (set (al_values ?rest))"
    using mset_eq_setD [OF tokens] by simp
  moreover have "distinct (al_keys ?rest)" using keys by (simp add: distinct_delete)
  ultimately have "tokens_inv (finish_control ?rid w)"
    using assms(1) lookup unfolding controls_inv_def tokens_inv_def finish_control_def
    by (simp del: set_map) blast
  with del held lookup show ?thesis
    by (simp add: controls_inv_def finish_control_def)
qed

lemma leases_inv_same:
  assumes "leases_inv (w, ts)" "i < length ts" "held_lease ph = held_lease (tk_phase (ts ! i))"
    "wk_leases w' = wk_leases w"
  shows "leases_inv (w', moves ts i ph)"
  using assms held_moves(3) [of i ts ph] by (simp add: leases_inv_def)

lemma leases_inv_take:
  assumes "leases_inv (w, ts)" "at_phase ts i (Begun token)"
    "lease_attempt s timeout elapsed w = (Leased, w')"
  shows "leases_inv (w', moves ts i (Generating token (Some s)))"
  using assms(3)
proof (cases rule: lease_attempt_cases)
  case leased
  then show ?thesis
    using assms held_moves(3) [of i ts "Generating token (Some s)"] by (auto simp: leases_inv_def)
qed simp

lemma leases_inv_drop:
  assumes "leases_inv (w, ts)" "at_phase ts i (Generating token held)" "held_lease ph = {#}"
  shows "leases_inv (lease_drop held w, moves ts i ph)"
proof (cases held)
  case None
  then show ?thesis using leases_inv_same [of w ts i ph w] assms by simp
next
  case (Some s)
  then have "add_mset s (leases_held (moves ts i ph)) = mset (wk_leases w)"
    using assms held_moves(3) [of i ts ph] by (simp add: leases_inv_def)
  moreover have "distinct (wk_leases w)" using assms(1) by (simp add: leases_inv_def)
  moreover from calculation have "mset (removeAll s (wk_leases w)) = mset (wk_leases w) - {#s#}"
    by (metis distinct_remove1_removeAll mset_remove1)
  ultimately show ?thesis
    using Some by (simp add: leases_inv_def drop_lease_def distinct_removeAll flip: \<open>add_mset s _ = _\<close>)
qed

lemma slots_inv_step: "worker_step drops s s' \<Longrightarrow> slots_inv s \<Longrightarrow> slots_inv s'"
proof (induction rule: worker_step.induct)
  case (arrive r r' w ts b)
  then show ?case by (simp add: slots_inv_def)
next
  case (take_slot ts i seen spurious w w')
  then show ?case using reserve_round_results(2) slots_inv_take by blast
next
  case (conflict ts i w)
  then show ?case by (auto intro!: slots_inv_give)
next
  case (answer ts i w)
  then show ?case by (auto intro!: slots_inv_give)
next
  case (cancel rid w found w' ts)
  then show ?case by (simp add: slots_inv_def cancel_start_frame)
next
  case (draining w ts)
  then show ?case by (simp add: slots_inv_def)
qed (auto intro!: slots_inv_same dest!: reserve_round_results elim!: begin_request_cases lease_attempt_cases)

lemma controls_inv_step: "worker_step drops s s' \<Longrightarrow> controls_inv s \<Longrightarrow> controls_inv s'"
proof (induction rule: worker_step.induct)
  case (arrive r r' w ts b)
  then show ?case by (simp add: controls_inv_def)
next
  case (begin_new ts i w token w')
  then show ?case by (auto intro!: controls_inv_begin)
next
  case (take_slot ts i seen spurious w w')
  then have "tokens_inv w' = tokens_inv w" "wk_requests w' = wk_requests w"
    using reserve_round_results(2) [OF take_slot(2)] by (simp_all add: tokens_inv_def)
  with take_slot show ?case by (intro controls_inv_same) simp_all
next
  case (lease ts i token w s elapsed w')
  from lease(4) have "tokens_inv w' = tokens_inv w" "wk_requests w' = wk_requests w"
    unfolding tokens_inv_def by (cases rule: lease_attempt_cases; simp)+
  with lease show ?case by (intro controls_inv_same) simp_all
next
  case (finish ts i token w)
  then show ?case by (auto intro!: controls_inv_finish)
next
  case (cancel rid w found w' ts)
  then show ?case by (simp add: controls_inv_def cancel_start_frame)
next
  case (draining w ts)
  then show ?case by (simp add: controls_inv_def)
qed (auto intro!: controls_inv_same dest!: reserve_round_results elim!: begin_request_cases)

lemma leases_inv_step: "worker_step drops s s' \<Longrightarrow> leases_inv s \<Longrightarrow> leases_inv s'"
proof (induction rule: worker_step.induct)
  case (arrive r r' w ts b)
  then show ?case by (simp add: leases_inv_def)
next
  case (lease ts i token w s elapsed w')
  then show ?case by (auto intro!: leases_inv_take)
next
  case (generated ts i token held w)
  then show ?case by (auto intro!: leases_inv_drop)
next
  case (abandon_generating ts i token held w)
  then show ?case by (auto intro!: leases_inv_drop)
next
  case (cancel rid w found w' ts)
  then show ?case by (simp add: leases_inv_def cancel_start_frame)
next
  case (draining w ts)
  then show ?case by (simp add: leases_inv_def)
qed (auto intro!: leases_inv_same dest!: reserve_round_results elim!: begin_request_cases)

interpretation worker: transition_system worker_start "worker_step drops" worker_inv for drops
proof
  fix s t
  show "worker_start s \<Longrightarrow> worker_inv s" by (rule worker_inv_start)
  show "worker_inv s \<Longrightarrow> worker_step drops s t \<Longrightarrow> worker_inv t"
    unfolding worker_inv_def using slots_inv_step controls_inv_step leases_inv_step by blast
qed

section \<open>What holds in every reachable state\<close>

definition holds_slot :: "task \<Rightarrow> bool" where
  "holds_slot t \<longleftrightarrow> slot (tk_phase t) = 1"

definition in_control :: "task \<Rightarrow> bool" where
  "in_control t \<longleftrightarrow> control t \<noteq> {#}"

lemma slot_le: "slot ph = (if slot ph = 1 then 1 else 0)"
  by (cases ph) auto

lemma slots_held_filter: "slots_held ts = length (filter holds_slot ts)"
proof (induction ts)
  case (Cons t ts)
  then show ?case
    using slot_le [of "tk_phase t"] by (auto simp: slots_held_def holds_slot_def)
qed (simp add: slots_held_def)

text \<open>
  C7. The counter of active requests is exact under any interleaving of requests, cancellations
  and draining: in every reachable state it is the number of requests that hold a slot, it has
  not wrapped around, and no more requests hold slots than the worker's maximum.
\<close>

theorem worker_slots_exact:
  assumes "worker_start s" and "(worker_step drops)\<^sup>*\<^sup>* s (w, ts)"
  shows "unat (wk_active w) = length (filter holds_slot ts) \<and>
    length (filter holds_slot ts) \<le> unat (wk_max_requests w)"
proof -
  have "worker_inv (w, ts)" using worker.invariant_reachable [OF assms] .
  then show ?thesis
    by (auto simp: worker_inv_def slots_inv_def slots_held_filter word_le_nat_alt)
qed

lemma sum_list_two:
  fixes f :: "'a \<Rightarrow> 'b multiset"
  assumes "i < j" "j < length xs"
  shows "f (xs ! i) + f (xs ! j) \<subseteq># sum_list (map f xs)"
proof -
  obtain as bs where xs: "xs = as @ xs ! j # bs" "length as = j"
    using id_take_nth_drop [OF assms(2)] assms(2) by (metis length_take min.absorb4)
  then obtain cs ds where as: "as = cs @ xs ! i # ds"
    using assms by (metis in_set_conv_decomp nth_append nth_mem)
  have "sum_list (map f xs) = f (xs ! i) + f (xs ! j) + sum_list (map f (cs @ ds @ bs))"
    by (subst xs(1), subst as) (simp add: ac_simps)
  then show ?thesis by simp
qed

lemma distinct_two:
  assumes "mset ys = sum_list (map f xs)" "distinct ys"
    "i < length xs" "j < length xs" "i \<noteq> j" "a \<in># f (xs ! i)" "b \<in># f (xs ! j)"
  shows "a \<noteq> b"
proof
  assume "a = b"
  have "f (xs ! i) + f (xs ! j) \<subseteq># mset ys"
    using sum_list_two [of i j xs f] sum_list_two [of j i xs f] assms(1,3,4,5)
    by (metis add.commute linorder_neqE_nat)
  moreover have "2 \<le> count (f (xs ! i) + f (xs ! j)) a"
    using assms(6,7) \<open>a = b\<close> by (simp add: Suc_le_eq numeral_2_eq_2 add_strict_mono flip: count_greater_zero_iff)
  ultimately have "2 \<le> count (mset ys) a" by (meson mset_subset_eq_count order_trans)
  with \<open>distinct ys\<close> show False by (auto simp: distinct_count_atmost_1 split: if_splits)
qed

lemma image_mset_sum_list: "image_mset g (sum_list (map f xs)) = sum_list (map (\<lambda>x. image_mset g (f x)) xs)"
  by (induction xs) auto

lemma in_control_id: "in_control t \<Longrightarrow> gr_request_id (tk_request t) \<in># image_mset fst (control t)"
  by (cases "tk_phase t") (simp_all add: in_control_def)

text \<open>
  C18. Requests exclude each other where they must: in every reachable state two requests
  that are registered have different ids, and two that hold session leases work on
  different sessions, so no two generations use one session's cache.
\<close>

theorem worker_exclusion:
  assumes "worker_start s" and "(worker_step drops)\<^sup>*\<^sup>* s (w, ts)"
    and "i < length ts" and "j < length ts" and "i \<noteq> j"
  shows "(in_control (ts ! i) \<and> in_control (ts ! j) \<longrightarrow>
      gr_request_id (tk_request (ts ! i)) \<noteq> gr_request_id (tk_request (ts ! j))) \<and>
    (tk_phase (ts ! i) = Generating t1 (Some s1) \<and> tk_phase (ts ! j) = Generating t2 (Some s2) \<longrightarrow> s1 \<noteq> s2)"
proof -
  have inv: "worker_inv (w, ts)" using worker.invariant_reachable [OF assms(1,2)] .
  have ids: "mset (al_keys (wk_requests w)) = sum_list (map (\<lambda>t. image_mset fst (control t)) ts)"
    using inv by (simp add: worker_inv_def controls_inv_def controls_held_def image_mset_sum_list
        del: control.simps)
  have "distinct (al_keys (wk_requests w))"
    using inv by (simp add: worker_inv_def controls_inv_def tokens_inv_def)
  note one = distinct_two [OF ids this assms(3,4,5) in_control_id in_control_id]
  have leases: "mset (wk_leases w) = sum_list (map (held_lease \<circ> tk_phase) ts)" "distinct (wk_leases w)"
    using inv by (simp_all add: worker_inv_def leases_inv_def leases_held_def)
  note two = distinct_two [OF leases assms(3,4,5)]
  show ?thesis using one two [of s1 s2] by auto
qed

definition settled_task :: "task \<Rightarrow> bool" where
  "settled_task t \<longleftrightarrow> (case tk_phase t of Answered \<Rightarrow> True | Rejected _ _ \<Rightarrow> True | _ \<Rightarrow> False)"

text \<open>
  A worker none of whose handlers is dropped gives everything back: once every request
  has been answered or rejected, no slot is in use, no request id is registered and
  no session is leased.
\<close>

theorem worker_settles:
  assumes "worker_start s" and "(worker_step drops)\<^sup>*\<^sup>* s (w, ts)" and "list_all settled_task ts"
  shows "wk_active w = 0 \<and> wk_requests w = [] \<and> wk_leases w = []"
proof -
  have inv: "worker_inv (w, ts)" using worker.invariant_reachable [OF assms(1,2)] .
  have "slots_held ts = 0 \<and> controls_held ts = {#} \<and> leases_held ts = {#}"
    using assms(3)
    by (induction ts) (auto simp: slots_held_def controls_held_def leases_held_def settled_task_def
        split: phase.splits)
  with inv show ?thesis
    by (auto simp: worker_inv_def slots_inv_def controls_inv_def leases_inv_def unat_eq_0)
qed

text \<open>The counter is a pool of slots in the sense of the coordinator's records.\<close>

interpretation worker_slots: slot_pool
  "\<lambda>w. if wk_active w < wk_max_requests w then Some (w\<lparr>wk_active := wk_active w + 1\<rparr>) else None"
  release_active "\<lambda>w. unat (wk_active w)" "\<lambda>w. unat (wk_max_requests w)"
proof
  fix w :: worker_runtime
  show "0 < unat (wk_active w) \<Longrightarrow> unat (wk_active (release_active w)) = unat (wk_active w) - 1"
    by (simp add: release_active_def unat_minus_one unat_gt_0)
qed (auto simp: unat_plus1_less word_less_nat_alt release_active_def split: if_splits)

section \<open>Dropped handlers\<close>

lemma max_requests_steps:
  "(worker_step drops)\<^sup>*\<^sup>* s s' \<Longrightarrow> wk_max_requests (fst s') = wk_max_requests (fst s)"
proof (induction rule: rtranclp_induct)
  case (step t u)
  from step(2) have "wk_max_requests (fst u) = wk_max_requests (fst t)"
    by (induction rule: worker_step.induct)
      (auto simp: cancel_start_frame dest!: reserve_round_results elim!: begin_request_cases lease_attempt_cases)
  with step show ?case by simp
qed simp

lemma abandoned_step:
  assumes "worker_step drops s s'" and "at_phase (snd s) i (Abandoned token)"
  shows "at_phase (snd s') i (Abandoned token) \<and> tk_request (snd s' ! i) = tk_request (snd s ! i)"
  using assms
  by (induction rule: worker_step.induct)
    (auto simp: nth_append nth_list_update cancel_start_frame dest!: reserve_round_results
      elim!: begin_request_cases lease_attempt_cases)

lemma abandoned_steps:
  assumes "(worker_step drops)\<^sup>*\<^sup>* s s'" and "at_phase (snd s) i (Abandoned token)"
  shows "at_phase (snd s') i (Abandoned token) \<and> tk_request (snd s' ! i) = tk_request (snd s ! i)"
  using assms
proof (induction rule: rtranclp_induct)
  case (step t u)
  then show ?case using abandoned_step [of drops t u i token] by simp
qed simp

lemma sum_list_one:
  fixes f :: "'a \<Rightarrow> 'b multiset"
  shows "i < length xs \<Longrightarrow> f (xs ! i) \<subseteq># sum_list (map f xs)"
  by (induction xs arbitrary: i) (auto simp: nth_Cons subset_mset.add_increasing split: nat.split)

text \<open>
  A plain handler that is dropped, because its client closed the connection while it was
  generating, never gives its slot back, and a cancel request for it never gets an
  answer: both hold in every state the worker reaches afterwards.
\<close>

theorem dropped_handler_hangs:
  assumes "worker_start s" and "(worker_step True)\<^sup>*\<^sup>* s (w, ts)" and "at_phase ts i (Abandoned token)"
    and "(worker_step True)\<^sup>*\<^sup>* (w, ts) (w', ts')"
  shows "1 \<le> unat (wk_active w') \<and> fst (cancel_handler (gr_request_id (tk_request (ts ! i))) w') = None"
proof -
  have inv: "worker_inv (w', ts')"
    using worker.invariant_reachable [OF assms(1) rtranclp_trans [OF assms(2,4)]] .
  have at: "at_phase ts' i (Abandoned token)" "tk_request (ts' ! i) = tk_request (ts ! i)"
    using abandoned_steps [OF assms(4), of i token] assms(3) by auto
  let ?rid = "gr_request_id (tk_request (ts ! i))"
  have "{#(?rid, token)#} \<subseteq># mset (wk_requests w')"
    using sum_list_one [of i ts' control] at inv
    by (simp add: worker_inv_def controls_inv_def controls_held_def)
  then have "(?rid, token) \<in> set (wk_requests w')" by simp
  moreover have tokens: "tokens_inv w'" using inv by (simp add: worker_inv_def controls_inv_def)
  ultimately have "map_of (wk_requests w') ?rid = Some token" "token \<in> set (al_values (wk_requests w'))"
    "token \<notin> set (wk_completed w')"
    by (force simp: tokens_inv_def)+
  then have "fst (cancel_handler ?rid w') = None"
    by (simp add: cancel_handler_def cancel_start_def cancel_wait_def)
  moreover have "ts' ! i \<in> set (filter holds_slot ts')"
    using at by (simp add: holds_slot_def)
  then have "1 \<le> length (filter holds_slot ts')"
    by (metis One_nat_def Suc_leI length_pos_if_in_set)
  ultimately show ?thesis
    using inv by (simp add: worker_inv_def slots_inv_def slots_held_filter)
qed

definition is_abandoned :: "task \<Rightarrow> bool" where
  "is_abandoned t \<longleftrightarrow> (case tk_phase t of Abandoned _ \<Rightarrow> True | _ \<Rightarrow> False)"

lemma abandoned_set_steps:
  assumes "(worker_step drops)\<^sup>*\<^sup>* (w, ts) (w', ts')"
  shows "{i. i < length ts \<and> is_abandoned (ts ! i)} \<subseteq> {i. i < length ts' \<and> is_abandoned (ts' ! i)}"
proof (rule subsetI, clarify)
  fix i
  assume "i < length ts" "is_abandoned (ts ! i)"
  then obtain token where "at_phase ts i (Abandoned token)"
    by (auto simp: is_abandoned_def split: phase.splits)
  then show "i < length ts' \<and> is_abandoned (ts' ! i)"
    using abandoned_steps [OF assms, of i token] by (auto simp: is_abandoned_def)
qed

lemma reserve_loop_result:
  "fst (reserve_loop (wk_active w) spurious w) =
    (if wk_active w < wk_max_requests w then Inr () else Inl ''worker is at capacity'')"
proof (induction spurious)
  case Nil
  then show ?case by (auto simp: reserve_loop.simps reserve_round_def not_le)
next
  case (Cons u spurious)
  then show ?case by (cases u) (auto simp: reserve_loop.simps [of _ "() # spurious"] reserve_round_def not_le)
qed

lemma reserve_loop_state:
  "snd (reserve_loop (wk_active w) spurious w) =
    (if wk_active w < wk_max_requests w then w\<lparr>wk_active := wk_active w + 1\<rparr> else w)"
proof (induction spurious)
  case Nil
  then show ?case by (auto simp: reserve_loop.simps reserve_round_def not_le)
next
  case (Cons u spurious)
  then show ?case by (cases u) (auto simp: reserve_loop.simps [of _ "() # spurious"] reserve_round_def not_le)
qed

lemma try_reserve_result:
  "try_reserve model spurious w =
    (if model \<noteq> wk_model_id w then (Inl ''requested model is not loaded'', w)
     else if wk_draining w then (Inl ''worker is draining'', w)
     else if wk_active w < wk_max_requests w then (Inr (), w\<lparr>wk_active := wk_active w + 1\<rparr>)
     else (Inl ''worker is at capacity'', w))"
  by (auto simp: try_reserve_def check_reservable_def reserve_loop_result reserve_loop_state
      intro: prod_eqI)

text \<open>
  C38. When as many handlers have been dropped as the worker has slots, it never serves another
  request: from then on no state has a free slot, whatever the other requests do.
\<close>

theorem dropped_handlers_exhaust_worker:
  assumes "worker_start s" and "(worker_step True)\<^sup>*\<^sup>* s (w, ts)"
    and "unat (wk_max_requests w) \<le> length (filter is_abandoned ts)"
    and "(worker_step True)\<^sup>*\<^sup>* (w, ts) (w', ts')"
  shows "fst (try_reserve model spurious w') \<noteq> Inr () \<and> wc_state (capabilities w') \<noteq> Available"
proof -
  have inv: "worker_inv (w', ts')"
    using worker.invariant_reachable [OF assms(1) rtranclp_trans [OF assms(2,4)]] .
  have max: "wk_max_requests w' = wk_max_requests w"
    using max_requests_steps [OF assms(4)] by simp
  have "length (filter is_abandoned ts) \<le> length (filter is_abandoned ts')"
    using card_mono [OF _ abandoned_set_steps [OF assms(4)]] by (simp add: length_filter_conv_card)
  also have "\<dots> \<le> length (filter holds_slot ts')"
    by (induction ts') (auto simp: is_abandoned_def holds_slot_def split: phase.splits)
  also have "\<dots> = unat (wk_active w')"
    using inv by (simp add: worker_inv_def slots_inv_def slots_held_filter)
  finally have "wk_max_requests w' \<le> wk_active w'"
    using assms(3) max by (simp add: word_le_nat_alt)
  then show ?thesis
    by (auto simp: try_reserve_result capabilities_def)
qed

section \<open>One request at a time\<close>

lemma acquire_result:
  "acquire session timeout rounds w = (leased, w') \<Longrightarrow>
   if leased then \<exists>s. session = Some s \<and> s \<notin> set (wk_leases w) \<and> w' = w\<lparr>wk_leases := s # wk_leases w\<rparr>
   else w' = w"
  by (induction session timeout rounds w rule: acquire.induct)
    (auto elim!: lease_attempt_cases split: prod.splits lease_round.splits)

lemma drop_acquired:
  assumes "acquire_if_enabled env request w = (leased, w')"
  shows "drop_lease_if leased request w' = w" "\<not> leased \<Longrightarrow> w' = w"
    "wk_node_id w' = wk_node_id w" "wk_cache_enabled w' = wk_cache_enabled w"
  using assms acquire_result [of "gr_session_id request" "wk_slot_wait w" "rq_rounds env" w leased w']
  by (auto simp: acquire_if_enabled_def drop_lease_if_def drop_lease_def removeAll_id split: if_splits option.splits)

lemma delete_update_new: "k \<notin> set (al_keys al) \<Longrightarrow> AList.delete k (AList.update k v al) = al"
  by (induction al) auto

lemma map_of_update_new: "map_of (AList.update k v al) k = Some v"
  by (simp add: update_conv)

lemma normalize_request_same:
  "normalize_request request = Inr r \<Longrightarrow> gr_request_id r = gr_request_id request \<and>
     gr_model r = gr_model request \<and> gr_session_id r = gr_session_id request \<and> gr_tools r = gr_tools request"
  by (auto simp: normalize_request_def split: sum.splits)

lemma admit_cases:
  obtains (bad) e where "normalize_request request = Inl e" "admit env request w = (Inl (ErrorBody 400 e), w)"
  | (refused) m r where "normalize_request request = Inr r" "admit env request w = (Inl (ErrorBody 503 m), w)"
      "gr_model request \<noteq> wk_model_id w \<or> wk_draining w \<or> wk_max_requests w \<le> wk_active w"
  | (conflict) r where "normalize_request request = Inr r"
      "admit env request w = (Inl (ErrorBody 409 ''request is already active''), w)"
      "gr_request_id request \<in> set (al_keys (wk_requests w))"
  | (admitted) r where "normalize_request request = Inr r" "gr_model request = wk_model_id w"
      "\<not> wk_draining w" "wk_active w < wk_max_requests w"
      "gr_request_id request \<notin> set (al_keys (wk_requests w))"
      "admit env request w = (Inr (r, wk_next_token w),
         w\<lparr>wk_active := wk_active w + 1,
           wk_requests := AList.update (gr_request_id request) (wk_next_token w) (wk_requests w),
           wk_next_token := wk_next_token w + 1\<rparr>)"
proof (cases "normalize_request request")
  case (Inl e)
  then show ?thesis by (intro bad) (simp_all add: admit_def)
next
  case (Inr r)
  note same = normalize_request_same [OF Inr]
  consider "gr_model r \<noteq> wk_model_id w \<or> wk_draining w \<or> wk_max_requests w \<le> wk_active w"
    | "gr_model r = wk_model_id w" "\<not> wk_draining w" "wk_active w < wk_max_requests w"
    by fastforce
  then show ?thesis
  proof cases
    case 1
    then obtain m where "try_reserve (gr_model r) (rq_spurious env) w = (Inl m, w)"
      by (cases "gr_model r = wk_model_id w"; cases "wk_draining w") (auto simp: try_reserve_result not_less)
    with 1 Inr same show ?thesis by (intro refused [of r m]) (auto simp: admit_def)
  next
    case 2
    let ?w1 = "w\<lparr>wk_active := wk_active w + 1\<rparr>"
    have reserve: "try_reserve (gr_model r) (rq_spurious env) w = (Inr (), ?w1)"
      using 2 by (simp add: try_reserve_result)
    show ?thesis
    proof (cases "map_of (wk_requests w) (gr_request_id r)")
      case None
      then have "begin_request (gr_request_id r) ?w1 = (Some (wk_next_token w),
          ?w1\<lparr>wk_requests := AList.update (gr_request_id r) (wk_next_token w) (wk_requests w),
              wk_next_token := wk_next_token w + 1\<rparr>)"
        and "gr_request_id r \<notin> set (al_keys (wk_requests w))"
        using map_of_al_keys [of "wk_requests w" "gr_request_id r"] by (simp_all add: begin_request_def Let_def)
      with 2 Inr same reserve show ?thesis
        by (intro admitted [of r]) (auto simp: admit_def)
    next
      case (Some token)
      with Inr same reserve show ?thesis
        using map_of_al_keys [of "wk_requests w" "gr_request_id r"]
        by (intro conflict [of r]) (auto simp: admit_def begin_request_def release_active_def)
    qed
  qed
qed

lemma finish_admitted:
  assumes "gr_request_id request \<notin> set (al_keys (wk_requests w))"
    "wk_requests w' = AList.update (gr_request_id request) token (wk_requests w)"
    "wk_active w' = wk_active w + 1"
  shows "wk_requests (finish_request (gr_request_id request) w') = wk_requests w"
    "wk_active (finish_request (gr_request_id request) w') = wk_active w"
    "wk_leases (finish_request (gr_request_id request) w') = wk_leases w'"
  using assms
  by (simp_all add: finish_request_def finish_control_def release_active_def map_of_update_new delete_update_new)

text \<open>
  A plain request, run from start to end, leaves the worker's slots, its registered requests
  and its leases as they were, on every path. It is answered 400 exactly when it is not valid;
  an answer carries its own id and model and the worker's id, and comes from a worker that
  has the model loaded, was not draining and had a slot and the request id free.
\<close>

theorem generate_handler_correct:
  "let (response, w') = generate_handler model env request w in
     wk_active w' = wk_active w \<and> wk_requests w' = wk_requests w \<and> wk_leases w' = wk_leases w \<and>
     (case response of
        ResponseBody r \<Rightarrow>
          gp_request_id r = gr_request_id request \<and> gp_model r = gr_model request \<and>
          gp_worker_id r = wk_node_id w \<and> gr_model request = wk_model_id w \<and> \<not> wk_draining w \<and>
          wk_active w < wk_max_requests w \<and> gr_request_id request \<notin> set (al_keys (wk_requests w))
      | ErrorBody status message \<Rightarrow> status \<in> {400, 409, 500, 503} \<and>
          (status = 400) = (normalize_request request = Inl message)
      | StreamBody events \<Rightarrow> False)"
proof (cases rule: admit_cases [of request env w])
  case (admitted r)
  note same = normalize_request_same [OF admitted(1)]
  let ?w1 = "snd (admit env request w)"
  obtain leased w2 where lease: "acquire_if_enabled env r ?w1 = (leased, w2)" by fastforce
  note dropped = drop_acquired [OF lease]
  have w3: "wk_active ?w1 = wk_active w + 1" "wk_leases ?w1 = wk_leases w"
    "wk_requests ?w1 = AList.update (gr_request_id request) (wk_next_token w) (wk_requests w)"
    "wk_node_id ?w1 = wk_node_id w"
    using admitted(6) by simp_all
  note finished = finish_admitted [OF admitted(5) w3(3) w3(1)]
  have response: "generate model w2 r (wk_next_token w) leased = Inr resp \<Longrightarrow>
      gp_request_id resp = gr_request_id r \<and> gp_model resp = gr_model r \<and> gp_worker_id resp = wk_node_id w2" for resp
    by (auto simp: generate_def split: sum.splits)
  show ?thesis
    using admitted lease dropped same finished w3 response
    by (cases "generate model w2 r (wk_next_token w) leased") (simp_all add: generate_handler_def)
qed (simp_all add: generate_handler_def)

lemma handler_answer:
  assumes "generate_handler model env request w = (ResponseBody answer, w')"
  obtains r w2 token leased where "normalize_request request = Inr r" "generate model w2 r token leased = Inr answer"
  using assms
  by (cases rule: admit_cases [of request env w]) (auto simp: generate_handler_def Let_def split: prod.splits sum.splits)

section \<open>Serving a request\<close>

lemma move_last:
  assumes "worker_step drops (w, ts @ [t]) (w', moves (ts @ [t]) (length ts) ph)"
  shows "worker_step drops (w, ts @ [t]) (w', ts @ [t\<lparr>tk_phase := ph\<rparr>])"
  using assms by simp

lemma serve_steps:
  assumes "normalize_request r = Inr r'" "gr_model r' = wk_model_id w" "\<not> wk_draining w"
    "wk_active w < wk_max_requests w" "gr_request_id r' \<notin> set (al_keys (wk_requests w))"
    "wk_cache_enabled w" "gr_session_id r' = Some s" "s \<notin> set (wk_leases w)"
  shows "(worker_step drops)\<^sup>*\<^sup>* (w, ts)
    (w\<lparr>wk_active := wk_active w + 1,
       wk_requests := AList.update (gr_request_id r') (wk_next_token w) (wk_requests w),
       wk_next_token := wk_next_token w + 1, wk_leases := s # wk_leases w\<rparr>,
     ts @ [\<lparr>tk_streaming = b, tk_request = r', tk_phase = Generating (wk_next_token w) (Some s)\<rparr>])"
proof -
  let ?t = "\<lambda>ph. \<lparr>tk_streaming = b, tk_request = r', tk_phase = ph\<rparr>"
  let ?w1 = "w\<lparr>wk_active := wk_active w + 1\<rparr>"
  let ?w2 = "?w1\<lparr>wk_requests := AList.update (gr_request_id r') (wk_next_token w) (wk_requests w),
       wk_next_token := wk_next_token w + 1\<rparr>"
  have begin_ok: "begin_request (gr_request_id r') ?w1 = (Some (wk_next_token w), ?w2)"
    using assms(5) map_of_al_keys [of "wk_requests w" "gr_request_id r'"] by (simp add: begin_request_def Let_def)
  have "worker_step drops (w, ts) (w, ts @ [?t Arrived])" by (rule arrive) (rule assms(1))
  moreover have "worker_step drops (w, ts @ [?t Arrived]) (w, ts @ [?t Arrived\<lparr>tk_phase := Checked\<rparr>])"
    by (rule move_last, rule check) (use assms(2,3) in \<open>simp_all add: check_reservable_def\<close>)
  moreover have "worker_step drops (w, ts @ [?t Checked]) (w, ts @ [?t Checked\<lparr>tk_phase := Trying (wk_active w)\<rparr>])"
    by (rule move_last, rule load) simp
  moreover have "worker_step drops (w, ts @ [?t (Trying (wk_active w))])
      (?w1, ts @ [?t (Trying (wk_active w))\<lparr>tk_phase := Reserved\<rparr>])"
    by (rule move_last, rule take_slot [where seen = "wk_active w" and spurious = False])
      (use assms(4) in \<open>simp_all add: reserve_round_def not_le\<close>)
  moreover have "worker_step drops (?w1, ts @ [?t Reserved])
      (?w2, ts @ [?t Reserved\<lparr>tk_phase := Begun (wk_next_token w)\<rparr>])"
    by (rule move_last, rule begin_new) (use begin_ok in simp_all)
  moreover have "worker_step drops (?w2, ts @ [?t (Begun (wk_next_token w))])
      (?w2\<lparr>wk_leases := s # wk_leases w\<rparr>,
       ts @ [?t (Begun (wk_next_token w))\<lparr>tk_phase := Generating (wk_next_token w) (Some s)\<rparr>])"
    by (rule move_last, rule lease [where elapsed = 0]) (use assms(6-8) in \<open>simp_all add: lease_attempt_def\<close>)
  ultimately show ?thesis
    by (auto intro: converse_rtranclp_into_rtranclp)
qed

section \<open>A sample worker\<close>

definition demo_runtime :: "usize \<Rightarrow> worker_runtime" where
  "demo_runtime maximum =
     new_runtime ''b'' ''m'' ''http://b'' maximum
       \<lparr>mm_id = ''sha'', mm_architecture = ''qwen2'', mm_revision = ''1'', mm_quantization = None, mm_files = []\<rparr>
       \<lparr>hw_architecture = ''arm64'', hw_total_memory_bytes = 1, hw_available_memory_bytes = 1, hw_acceleration = Cpu\<rparr>
       session_cache_config_default"

definition demo_request :: "uuid \<Rightarrow> generate_request" where
  "demo_request i =
     \<lparr>gr_request_id = i, gr_session_id = Some i, gr_model = ''m'', gr_prompt = None,
      gr_messages = Some [\<lparr>cm_role = User, cm_content = ''hi'', cm_tool_calls = [], cm_tool_call_id = None\<rparr>],
      gr_template = None, gr_tools = [], gr_max_tokens = 100\<rparr>"

definition demo_worker_task :: "uuid \<Rightarrow> phase \<Rightarrow> task" where
  "demo_worker_task i ph = \<lparr>tk_streaming = False, tk_request = demo_request i, tk_phase = ph\<rparr>"

lemma demo_start: "worker_start (demo_runtime maximum, [])"
  unfolding worker_start_def demo_runtime_def by blast

lemma demo_normalize: "normalize_request (demo_request i) = Inr (demo_request i)"
  by (simp add: normalize_request_def request_validate_tools_def validate_tools_def normalized_messages_def
      normalize_messages_def validate_tool_history_messages_def validate_tool_history_def check_message_def
      demo_request_def)

definition demo_one :: "usize \<Rightarrow> worker_runtime" where
  "demo_one maximum =
     (demo_runtime maximum)\<lparr>wk_active := 1, wk_requests := [(1, 0)], wk_next_token := 1, wk_leases := [1]\<rparr>"

definition demo_two :: worker_runtime where
  "demo_two = (demo_runtime 2)\<lparr>wk_active := 2, wk_requests := [(1, 0), (2, 1)], wk_next_token := Suc (Suc 0),
                               wk_leases := [2, 1]\<rparr>"

lemmas demo_worker_defs =
  demo_runtime_def new_runtime_def demo_request_def demo_worker_task_def demo_one_def demo_two_def
  session_cache_config_default_def

lemma demo_reaches_one:
  assumes "0 < maximum"
  shows "(worker_step drops)\<^sup>*\<^sup>* (demo_runtime maximum, []) (demo_one maximum, [demo_worker_task 1 (Generating 0 (Some 1))])"
  using serve_steps [OF demo_normalize [of 1], of "demo_runtime maximum" 1 drops "[]" False] assms
  by (simp add: demo_worker_defs)

lemma demo_reaches_two:
  "(worker_step drops)\<^sup>*\<^sup>* (demo_runtime 2, [])
     (demo_two, [demo_worker_task 1 (Generating 0 (Some 1)), demo_worker_task 2 (Generating 1 (Some 2))])"
proof -
  have "(1 :: usize) < 2" by code_simp
  then have "(worker_step drops)\<^sup>*\<^sup>* (demo_one 2, [demo_worker_task 1 (Generating 0 (Some 1))])
     (demo_two, [demo_worker_task 1 (Generating 0 (Some 1)), demo_worker_task 2 (Generating 1 (Some 2))])"
    using serve_steps [OF demo_normalize [of 2], of "demo_one 2" 2 drops
        "[demo_worker_task 1 (Generating 0 (Some 1))]" False]
    by (simp add: demo_worker_defs)
  moreover have "(0 :: usize) < 2" by code_simp
  ultimately show ?thesis using demo_reaches_one [of 2 drops] by simp
qed

theorem worker_slots_exact_witness:
  "unat (wk_active demo_two) = length (filter holds_slot
     [demo_worker_task 1 (Generating 0 (Some 1)), demo_worker_task 2 (Generating 1 (Some 2))])"
  using worker_slots_exact [OF demo_start demo_reaches_two] by blast

theorem worker_exclusion_witness:
  "gr_request_id (tk_request (demo_worker_task 1 (Generating 0 (Some 1)))) \<noteq>
   gr_request_id (tk_request (demo_worker_task 2 (Generating 1 (Some 2))))"
  using worker_exclusion [OF demo_start demo_reaches_two, where i = 0 and j = 1]
  by (simp add: in_control_def demo_worker_task_def)

lemma demo_abandons:
  "(worker_step True)\<^sup>*\<^sup>* (demo_runtime 1, [])
     (lease_drop (Some 1) (demo_one 1), [demo_worker_task 1 (Abandoned 0)])"
proof -
  have "worker_step True (demo_one 1, [] @ [demo_worker_task 1 (Generating 0 (Some 1))])
      (lease_drop (Some 1) (demo_one 1), [] @ [demo_worker_task 1 (Generating 0 (Some 1))\<lparr>tk_phase := Abandoned 0\<rparr>])"
    by (rule move_last, rule abandon_generating) (simp_all add: demo_worker_task_def)
  then show ?thesis
    using demo_reaches_one [of 1 True] by (simp add: demo_worker_task_def)
qed

theorem dropped_handler_hangs_witness:
  "fst (cancel_handler 1 (lease_drop (Some 1) (demo_one 1))) = None"
  using dropped_handler_hangs [OF demo_start demo_abandons, of 0 0, OF _ rtranclp.rtrancl_refl]
  by (simp add: demo_worker_defs)

theorem dropped_handlers_exhaust_worker_witness:
  "fst (try_reserve ''m'' [] (drain (lease_drop (Some 1) (demo_one 1)))) \<noteq> Inr ()"
proof -
  have "(worker_step True)\<^sup>*\<^sup>* (lease_drop (Some 1) (demo_one 1), [demo_worker_task 1 (Abandoned 0)])
      (drain (lease_drop (Some 1) (demo_one 1)), [demo_worker_task 1 (Abandoned 0)])"
    by (rule r_into_rtranclp) (rule draining)
  from dropped_handlers_exhaust_worker [OF demo_start demo_abandons _ this] show ?thesis
    by (simp add: demo_worker_defs is_abandoned_def)
qed

text \<open>A request that is answered.\<close>

lemma demo_last_steps:
  fixes drops :: bool
  defines "w \<equiv> lease_drop (Some 1) (demo_one 1)"
  shows "worker_step drops (demo_one 1, [demo_worker_task 1 (Generating 0 (Some 1))]) (w, [demo_worker_task 1 (Finishing 0)])"
    and "worker_step drops (w, [demo_worker_task 1 (Finishing 0)]) (finish_control 1 w, [demo_worker_task 1 Finished])"
    and "worker_step drops (finish_control 1 w, [demo_worker_task 1 Finished])
      (release_active (finish_control 1 w), [demo_worker_task 1 Answered])"
proof -
  have "worker_step drops (demo_one 1, [] @ [demo_worker_task 1 (Generating 0 (Some 1))])
      (w, [] @ [demo_worker_task 1 (Generating 0 (Some 1))\<lparr>tk_phase := Finishing 0\<rparr>])"
    unfolding w_def by (rule move_last, rule generated) (simp_all add: demo_worker_task_def)
  then show "worker_step drops (demo_one 1, [demo_worker_task 1 (Generating 0 (Some 1))]) (w, [demo_worker_task 1 (Finishing 0)])"
    by (simp add: demo_worker_task_def)
  have "worker_step drops (w, [] @ [demo_worker_task 1 (Finishing 0)])
      (finish_control (gr_request_id (tk_request (([] @ [demo_worker_task 1 (Finishing 0)]) ! length ([] :: task list)))) w,
       [] @ [demo_worker_task 1 (Finishing 0)\<lparr>tk_phase := Finished\<rparr>])"
    by (rule move_last, rule finish) (simp_all add: demo_worker_task_def)
  then show "worker_step drops (w, [demo_worker_task 1 (Finishing 0)]) (finish_control 1 w, [demo_worker_task 1 Finished])"
    by (simp add: demo_worker_task_def demo_request_def)
  have "worker_step drops (finish_control 1 w, [] @ [demo_worker_task 1 Finished])
      (release_active (finish_control 1 w), [] @ [demo_worker_task 1 Finished\<lparr>tk_phase := Answered\<rparr>])"
    by (rule move_last, rule answer) (simp_all add: demo_worker_task_def)
  then show "worker_step drops (finish_control 1 w, [demo_worker_task 1 Finished])
      (release_active (finish_control 1 w), [demo_worker_task 1 Answered])"
    by (simp add: demo_worker_task_def)
qed

lemma demo_answers:
  "(worker_step drops)\<^sup>*\<^sup>* (demo_runtime 1, [])
     (release_active (finish_control 1 (lease_drop (Some 1) (demo_one 1))), [demo_worker_task 1 Answered])"
proof -
  have "(worker_step drops)\<^sup>*\<^sup>* (demo_runtime 1, []) (demo_one 1, [demo_worker_task 1 (Generating 0 (Some 1))])"
    by (rule demo_reaches_one) simp
  then show ?thesis
    using demo_last_steps [of drops] by (meson rtranclp.rtrancl_into_rtrancl)
qed

theorem worker_settles_witness:
  "wk_active (release_active (finish_control 1 (lease_drop (Some 1) (demo_one 1)))) = 0"
  using worker_settles [OF demo_start demo_answers] by (simp add: settled_task_def demo_worker_task_def)

end
