(* ===== verification/Worker_Progress.thy ===== *)
theory Worker_Progress
  imports Worker_Api
begin

text \<open>
  Every request of a worker comes to an end. The steps of \<open>worker_step\<close> that move a request are
  counted; what comes from outside (a new request, a cancellation, draining) and an exchange of the
  counter that fails for no reason do not move one. That the model returns is assumed by the step
  that leaves \<open>Generating\<close>.
\<close>

section \<open>The work that is left\<close>

definition task_step :: "bool \<Rightarrow> worker_system \<Rightarrow> worker_system \<Rightarrow> bool" where
  "task_step drops s t \<longleftrightarrow> worker_step drops s t \<and> length (snd t) = length (snd s) \<and> snd t \<noteq> snd s"

text \<open>The phases a request has still before it, and a request whose view of the counter is out of date.\<close>

fun remaining :: "phase \<Rightarrow> nat" where
  "remaining Arrived = 8" | "remaining Checked = 7" | "remaining (Trying _) = 6" | "remaining Reserved = 5"
| "remaining (Begun _) = 4" | "remaining (Generating _ _) = 3" | "remaining (Finishing _) = 2"
| "remaining Finished = 1" | "remaining Conflict = 1" | "remaining Answered = 0"
| "remaining (Rejected _ _) = 0" | "remaining (Abandoned _) = 0"

definition stale :: "usize \<Rightarrow> task \<Rightarrow> nat" where
  "stale active t = (case tk_phase t of Trying seen \<Rightarrow> if seen = active then 0 else 1 | _ \<Rightarrow> 0)"

definition phases_left :: "task list \<Rightarrow> nat" where
  "phases_left ts = sum_list (map (remaining \<circ> tk_phase) ts)"

definition stale_tasks :: "worker_system \<Rightarrow> nat" where
  "stale_tasks s = sum_list (map (stale (wk_active (fst s))) (snd s))"

definition work :: "worker_system \<Rightarrow> nat" where
  "work s = phases_left (snd s) * (length (snd s) + 1) + stale_tasks s"

lemma phases_left_moves:
  "i < length ts \<Longrightarrow>
   phases_left (moves ts i ph) + remaining (tk_phase (ts ! i)) = phases_left ts + remaining ph"
  using sum_list_list_update [of i ts "remaining \<circ> tk_phase" "(ts ! i)\<lparr>tk_phase := ph\<rparr>"]
  by (simp add: phases_left_def)

lemma stale_tasks_le: "stale_tasks (w, ts) \<le> length ts"
  by (induction ts) (auto simp: stale_tasks_def stale_def split: phase.splits)

lemma phases_left_le: "phases_left ts \<le> 8 * length ts"
proof (induction ts)
  case (Cons t ts)
  have "remaining (tk_phase t) \<le> 8" by (cases "tk_phase t") simp_all
  with Cons show ?case by (simp add: phases_left_def)
qed (simp add: phases_left_def)

lemma work_le: "work s \<le> 8 * length (snd s) * (length (snd s) + 1) + length (snd s)"
  using mult_le_mono1 [OF phases_left_le [of "snd s"], of "length (snd s) + 1"]
    stale_tasks_le [of "fst s" "snd s"] by (simp add: work_def)

text \<open>A request that moves to a later phase outweighs any number of views that become stale.\<close>

lemma work_phase:
  assumes "i < length ts" and "remaining ph < remaining (tk_phase (ts ! i))"
  shows "work (w', moves ts i ph) < work (w, ts)"
proof -
  have "phases_left (moves ts i ph) + 1 \<le> phases_left ts"
    using phases_left_moves [OF assms(1), of ph] assms(2) by linarith
  from mult_le_mono1 [OF this, of "length ts + 1"] stale_tasks_le [of w' "moves ts i ph"] show ?thesis
    by (simp add: work_def)
qed

lemma work_retry:
  assumes "at_phase ts i (Trying seen)" and "seen \<noteq> wk_active w"
  shows "work (w, moves ts i (Trying (wk_active w))) < work (w, ts)"
proof -
  have "stale_tasks (w, moves ts i (Trying (wk_active w))) + 1 = stale_tasks (w, ts)"
    using sum_list_list_update [of i ts "stale (wk_active w)" "(ts ! i)\<lparr>tk_phase := Trying (wk_active w)\<rparr>"] assms
    by (simp add: stale_tasks_def stale_def)
  moreover have "phases_left (moves ts i (Trying (wk_active w))) = phases_left ts"
    using phases_left_moves [of i ts "Trying (wk_active w)"] assms by simp
  ultimately show ?thesis by (simp add: work_def)
qed

lemma moves_same: "at_phase ts i ph \<Longrightarrow> moves ts i ph = ts"
  by (metis list_update_id task.surjective task.update_convs(3))

lemma work_decreases: "worker_step drops s t \<Longrightarrow> length (snd t) = length (snd s) \<Longrightarrow> snd t \<noteq> snd s \<Longrightarrow> work t < work s"
proof (induction rule: worker_step.induct)
  case (retry ts i seen spurious w found w')
  then have "found = wk_active w" "w' = w" by (auto simp: reserve_round_def split: if_splits)
  moreover from this retry have "seen \<noteq> wk_active w" by (auto simp: moves_same)
  ultimately show ?case using retry(1) work_retry [of i ts seen w] by simp
qed (auto intro!: work_phase)

text \<open>Steps that move no request: cancelling, draining, and an exchange that failed for no reason.\<close>

definition quiet_step :: "bool \<Rightarrow> worker_system \<Rightarrow> worker_system \<Rightarrow> bool" where
  "quiet_step drops s t \<longleftrightarrow> worker_step drops s t \<and> snd t = snd s"

definition task_round :: "bool \<Rightarrow> worker_system \<Rightarrow> worker_system \<Rightarrow> bool" where
  "task_round drops = (quiet_step drops)\<^sup>*\<^sup>* OO task_step drops"

lemma tk_phase_same: "ts[i := (ts ! i)\<lparr>tk_phase := ph\<rparr>] = ts \<Longrightarrow> i < length ts \<Longrightarrow> tk_phase (ts ! i) = ph"
  by (metis nth_list_update_eq task.select_convs(3) task.surjective task.update_convs(3))

lemma quiet_active: "worker_step drops s t \<Longrightarrow> snd t = snd s \<Longrightarrow> wk_active (fst t) = wk_active (fst s)"
  by (induction rule: worker_step.induct)
    (auto simp: cancel_start_frame dest!: tk_phase_same reserve_round_results)

lemma quiet_steps:
  "(quiet_step drops)\<^sup>*\<^sup>* s t \<Longrightarrow> (worker_step drops)\<^sup>*\<^sup>* s t \<and> snd t = snd s \<and> work t = work s"
proof (induction rule: rtranclp_induct)
  case (step t u)
  then show ?case using quiet_active [of drops t u]
    by (auto simp: quiet_step_def work_def stale_tasks_def intro: rtranclp.rtrancl_into_rtrancl)
qed simp

lemma task_rounds:
  "(task_round drops ^^ n) s t \<Longrightarrow>
   (worker_step drops)\<^sup>*\<^sup>* s t \<and> length (snd t) = length (snd s) \<and> n + work t \<le> work s"
proof (induction n arbitrary: t)
  case (Suc n)
  then obtain u v where "(task_round drops ^^ n) s u" and quiet: "(quiet_step drops)\<^sup>*\<^sup>* u v" and "task_step drops v t"
    by (auto simp: task_round_def)
  moreover from this(3) have "work t < work v" by (auto simp: task_step_def intro: work_decreases)
  ultimately show ?case
    using Suc.IH [of u] quiet_steps [OF quiet]
    by (auto simp: task_step_def intro: rtranclp.rtrancl_into_rtrancl rtranclp_trans [of _ s u v])
qed simp

section \<open>No request is stuck\<close>

lemma task_stepI:
  "worker_step drops (w, ts) (w', moves ts i ph) \<Longrightarrow> i < length ts \<Longrightarrow> tk_phase (ts ! i) \<noteq> ph \<Longrightarrow>
   \<exists>t. task_step drops (w, ts) t"
  by (rule exI [of _ "(w', moves ts i ph)"], simp add: task_step_def) (metis nth_list_update_eq task.select_convs(3) task.surjective task.update_convs(3))

lemma unsettled_moves:
  assumes "i < length ts" and "\<not> settled_task (ts ! i)" and "\<And>token. tk_phase (ts ! i) \<noteq> Abandoned token"
  shows "\<exists>t. task_step drops (w, ts) t"
proof (cases "tk_phase (ts ! i)")
  case Arrived
  show ?thesis
  proof (cases "check_reservable (gr_model (tk_request (ts ! i))) w")
    case (Inl e)
    with Arrived assms(1) show ?thesis by (intro task_stepI [OF worker_step.refuse]) auto
  next
    case (Inr u)
    with Arrived assms(1) show ?thesis by (intro task_stepI [OF worker_step.check]) auto
  qed
next
  case Checked
  with assms(1) show ?thesis by (intro task_stepI [OF worker_step.load]) auto
next
  case (Trying seen)
  consider (full) "wk_max_requests w \<le> seen" | (taken) "\<not> wk_max_requests w \<le> seen" "wk_active w = seen"
    | (retry) "\<not> wk_max_requests w \<le> seen" "wk_active w \<noteq> seen" by blast
  then show ?thesis
  proof cases
    case full
    then have "reserve_round seen False w = (Full, w)" by (simp add: reserve_round_def)
    with Trying assms(1) show ?thesis by (intro task_stepI [OF worker_step.full]) auto
  next
    case taken
    then have "reserve_round seen False w = (Taken, w\<lparr>wk_active := seen + 1\<rparr>)" by (simp add: reserve_round_def)
    with Trying assms(1) show ?thesis by (intro task_stepI [OF worker_step.take_slot]) auto
  next
    case retry
    then have "reserve_round seen False w = (Retry (wk_active w), w)" by (simp add: reserve_round_def)
    with Trying assms(1) retry(2) show ?thesis by (intro task_stepI [OF worker_step.retry]) auto
  qed
next
  case Reserved
  obtain token w' where begun: "begin_request (gr_request_id (tk_request (ts ! i))) w = (token, w')"
    by (cases "begin_request (gr_request_id (tk_request (ts ! i))) w")
  show ?thesis
  proof (cases token)
    case None
    with begun Reserved assms(1) show ?thesis by (intro task_stepI [OF worker_step.begin_taken]) auto
  next
    case (Some k)
    with begun Reserved assms(1) show ?thesis by (intro task_stepI [OF worker_step.begin_new]) auto
  qed
next
  case Conflict
  with assms(1) show ?thesis by (intro task_stepI [OF worker_step.conflict]) auto
next
  case (Begun token)
  with assms(1) show ?thesis by (intro task_stepI [OF worker_step.no_lease]) auto
next
  case (Generating token held)
  with assms(1) show ?thesis by (intro task_stepI [OF worker_step.generated]) auto
next
  case (Finishing token)
  with assms(1) show ?thesis by (intro task_stepI [OF worker_step.finish]) auto
next
  case Finished
  with assms(1) show ?thesis by (intro task_stepI [OF worker_step.answer]) auto
qed (use assms(2,3) in \<open>auto simp: settled_task_def\<close>)


lemma never_abandoned_step:
  "worker_step False s t \<Longrightarrow> \<forall>task \<in> set (snd s). \<not> is_abandoned task \<Longrightarrow> \<forall>task \<in> set (snd t). \<not> is_abandoned task"
  by (induction rule: worker_step.induct) (auto simp: is_abandoned_def dest!: set_update_subset_insert [THEN subsetD])

lemma never_abandoned:
  assumes "worker_start s0" and "(worker_step False)\<^sup>*\<^sup>* s0 s"
  shows "\<forall>task \<in> set (snd s). \<not> is_abandoned task"
  using assms(2)
proof (induction rule: rtranclp_induct)
  case base
  then show ?case using assms(1) by (auto simp: worker_start_def)
next
  case (step t u)
  then show ?case using never_abandoned_step [of t u] by blast
qed

text \<open>
  C8. Every request of a worker comes to an end, if no handler is dropped and the model
  returns. However the requests interleave, and whatever is cancelled or fails for no reason in between,
  a worker with \<open>n\<close> requests and no new one makes at most \<open>8 * n * (n + 1) + n\<close> steps that move
  a request; as long as some request is unsettled such a step is possible, and when none is, all slots,
  request ids and leases are free.
\<close>

theorem requests_terminate:
  assumes "worker_start s0" and "(worker_step False)\<^sup>*\<^sup>* s0 (w, ts)"
    and "(task_round False ^^ n) (w, ts) (w', ts')"
  shows "n \<le> 8 * length ts * (length ts + 1) + length ts \<and> length ts' = length ts \<and>
    ((\<exists>s. task_step False (w', ts') s) \<or>
     list_all settled_task ts' \<and> wk_active w' = 0 \<and> wk_requests w' = [] \<and> wk_leases w' = [])"
proof -
  note rounds = task_rounds [OF assms(3)]
  then have reached: "(worker_step False)\<^sup>*\<^sup>* s0 (w', ts')" using assms(2) by auto
  have "n \<le> 8 * length ts * (length ts + 1) + length ts"
    using rounds work_le [of "(w, ts)"] by simp
  moreover have "(\<exists>s. task_step False (w', ts') s) \<or> list_all settled_task ts'"
  proof (cases "list_all settled_task ts'")
    case False
    then obtain i where i: "i < length ts'" "\<not> settled_task (ts' ! i)" by (auto simp: list_all_length)
    then have "\<not> is_abandoned (ts' ! i)" using never_abandoned [OF assms(1) reached] by simp
    then have "\<exists>s. task_step False (w', ts') s"
      by (intro unsettled_moves [OF i]) (auto simp: is_abandoned_def)
    then show ?thesis ..
  qed simp
  ultimately show ?thesis
    using rounds worker_settles [OF assms(1) reached] by auto
qed

lemma task_roundI: "worker_step drops s t \<Longrightarrow> length (snd t) = length (snd s) \<Longrightarrow> snd t \<noteq> snd s \<Longrightarrow> task_round drops s t"
  by (auto simp: task_round_def task_step_def)

theorem requests_terminate_witness:
  "3 \<le> 8 * length [demo_worker_task 1 Answered] * (length [demo_worker_task 1 Answered] + 1) +
     length [demo_worker_task 1 Answered] \<and>
   wk_requests (release_active (finish_control 1 (lease_drop (Some 1) (demo_one 1)))) = []"
proof -
  have three: "R a b \<Longrightarrow> R b c \<Longrightarrow> R c d \<Longrightarrow> (R ^^ 3) a d" for R :: "worker_system \<Rightarrow> worker_system \<Rightarrow> bool" and a b c d
    by (auto simp: numeral_3_eq_3)
  have "(task_round False ^^ 3) (demo_one 1, [demo_worker_task 1 (Generating 0 (Some 1))])
      (release_active (finish_control 1 (lease_drop (Some 1) (demo_one 1))), [demo_worker_task 1 Answered])"
    by (rule three; rule task_roundI, rule demo_last_steps) (simp_all add: demo_worker_task_def)
  from requests_terminate [OF demo_start demo_reaches_one this] show ?thesis
    by (auto simp: demo_worker_task_def demo_worker_defs finish_control_def release_active_def drop_lease_def)
qed

end
