(* ===== verification/Lease_Wait.thy ===== *)
theory Lease_Wait
  imports Worker_Api
begin

text \<open>
  How requests wait for the lease of their session: the loop of \<open>SessionLeases::acquire\<close> and the
  drop of a \<open>SessionLease\<close> in \<open>crates/worker/src/state.rs\<close>, interleaved at the grain of the lock
  and of the notification. A \<open>Notified\<close> future of tokio receives every \<open>notify_waiters\<close> from its
  creation on, polled or not; nothing else wakes it.
\<close>

section \<open>Steps\<close>

text \<open>\<open>Arriving\<close>: at the head of the loop; \<open>Listening\<close>: the future is created and has been
  notified or not; \<open>Refused\<close>: the lease was taken when the table was looked at; \<open>Waiting\<close>: at
  the await; \<open>Dropping\<close>: the lease is out of the set, the others
  are not yet notified; \<open>Gone\<close>: returned, timed out or dropped.\<close>

datatype wait_phase =
    Arriving | Listening bool | Refused bool | Waiting bool | Holding | Dropping | Gone

record waiter =
  wt_session :: uuid
  wt_phase :: wait_phase

type_synonym lease_system = "worker_runtime \<times> waiter list"

abbreviation waits :: "waiter list \<Rightarrow> nat \<Rightarrow> wait_phase \<Rightarrow> waiter list" where
  "waits ts i ph \<equiv> ts[i := (ts ! i)\<lparr>wt_phase := ph\<rparr>]"

abbreviation waits_at :: "waiter list \<Rightarrow> nat \<Rightarrow> wait_phase \<Rightarrow> bool" where
  "waits_at ts i ph \<equiv> i < length ts \<and> wt_phase (ts ! i) = ph"

fun woken :: "wait_phase \<Rightarrow> wait_phase" where
  "woken (Listening _) = Listening True"
| "woken (Refused _) = Refused True"
| "woken (Waiting _) = Waiting True"
| "woken ph = ph"

definition notify_waiters :: "waiter list \<Rightarrow> waiter list" where
  "notify_waiters = map (wt_phase_update woken)"

fun after_attempt :: "bool \<Rightarrow> lease_round \<Rightarrow> wait_phase" where
  "after_attempt notified Leased = Holding"
| "after_attempt notified NoLease = Gone"
| "after_attempt notified (WaitFor _) = Refused notified"

inductive lease_step :: "lease_system \<Rightarrow> lease_system \<Rightarrow> bool" where
  comes: "lease_step (w, ts) (w, ts @ [\<lparr>wt_session = s, wt_phase = Arriving\<rparr>])"
| listens: "waits_at ts i Arriving \<Longrightarrow> lease_step (w, ts) (w, waits ts i (Listening False))"
| attempts: "waits_at ts i (Listening notified) \<Longrightarrow>
    lease_attempt (wt_session (ts ! i)) (wk_slot_wait w) elapsed w = (r, w') \<Longrightarrow>
    lease_step (w, ts) (w', waits ts i (after_attempt notified r))"
| awaits: "waits_at ts i (Refused notified) \<Longrightarrow> lease_step (w, ts) (w, waits ts i (Waiting notified))"
| wakes: "waits_at ts i (Waiting True) \<Longrightarrow> lease_step (w, ts) (w, waits ts i Arriving)"
| gives_up: "waits_at ts i (Waiting notified) \<Longrightarrow> lease_step (w, ts) (w, waits ts i Gone)"
| removes: "waits_at ts i Holding \<Longrightarrow>
    lease_step (w, ts) (drop_lease (wt_session (ts ! i)) w, waits ts i Dropping)"
| notifies: "waits_at ts i Dropping \<Longrightarrow>
    lease_step (w, ts) (w, notify_waiters (waits ts i Gone))"

definition lease_start :: "lease_system \<Rightarrow> bool" where
  "lease_start s \<longleftrightarrow> wk_leases (fst s) = [] \<and> snd s = []"

section \<open>Who sleeps\<close>

text \<open>The set holds exactly the sessions of the holders, one each; a request sleeps without a
  notification only while a lease of its session is held or about to be announced as free.\<close>

definition held_session :: "waiter \<Rightarrow> uuid multiset" where
  "held_session t = (if wt_phase t = Holding then {#wt_session t#} else {#})"

definition asleep_ok :: "lease_system \<Rightarrow> bool" where
  "asleep_ok s \<longleftrightarrow>
     (\<forall>j < length (snd s). wt_phase (snd s ! j) \<in> {Refused False, Waiting False} \<longrightarrow>
        wt_session (snd s ! j) \<in> set (wk_leases (fst s)) \<or>
        (\<exists>k. waits_at (snd s) k Dropping \<and> wt_session (snd s ! k) = wt_session (snd s ! j)))"

definition lease_inv :: "lease_system \<Rightarrow> bool" where
  "lease_inv s \<longleftrightarrow>
     distinct (wk_leases (fst s)) \<and> mset (wk_leases (fst s)) = sum_list (map held_session (snd s)) \<and>
     asleep_ok s"

lemma held_waits:
  "i < length ts \<Longrightarrow>
   sum_list (map held_session (waits ts i ph)) + held_session (ts ! i) =
     sum_list (map held_session ts) + (if ph = Holding then {#wt_session (ts ! i)#} else {#})"
  using sum_list_list_update [of i ts held_session "(ts ! i)\<lparr>wt_phase := ph\<rparr>"]
  by (simp add: held_session_def)

lemma held_notify [simp]: "sum_list (map held_session (notify_waiters ts)) = sum_list (map held_session ts)"
proof -
  have "held_session (wt_phase_update woken t) = held_session t" for t
    by (cases "wt_phase t") (simp_all add: held_session_def)
  then show ?thesis by (simp add: notify_waiters_def o_def)
qed

lemma notify_simps [simp]:
  "length (notify_waiters ts) = length ts"
  "i < length ts \<Longrightarrow> wt_phase (notify_waiters ts ! i) = woken (wt_phase (ts ! i))"
  "i < length ts \<Longrightarrow> wt_session (notify_waiters ts ! i) = wt_session (ts ! i)"
  by (simp_all add: notify_waiters_def)

lemma woken_awake [simp]: "woken ph \<noteq> Refused False" "woken ph \<noteq> Waiting False"
  by (cases ph; simp)+

lemma held_member: "s \<in># sum_list (map held_session ts) \<longleftrightarrow> (\<exists>k. waits_at ts k Holding \<and> wt_session (ts ! k) = s)"
  by (auto simp: held_session_def set_conv_nth split: if_splits)

lemma lease_held:
  assumes "lease_inv (w, ts)" and "s \<in> set (wk_leases w)"
  obtains k where "waits_at ts k Holding" "wt_session (ts ! k) = s"
proof -
  from assms have "s \<in># sum_list (map held_session ts)" by (metis fst_conv lease_inv_def set_mset_mset snd_conv)
  then show ?thesis unfolding held_member using that by blast
qed

text \<open>A step of one task that neither takes nor frees a lease.\<close>

lemma lease_inv_same:
  assumes "lease_inv (w, ts)" and "i < length ts" and "wt_phase (ts ! i) \<notin> {Holding, Dropping}"
    and "ph \<noteq> Holding" and "ph \<in> {Refused False, Waiting False} \<Longrightarrow> wt_phase (ts ! i) = Refused False \<or> wt_session (ts ! i) \<in> set (wk_leases w)"
  shows "lease_inv (w, waits ts i ph)"
proof -
  have "asleep_ok (w, waits ts i ph)"
    using assms unfolding lease_inv_def asleep_ok_def
    by (auto simp: nth_list_update) (metis wait_phase.distinct)+
  then show ?thesis
    using assms held_waits [OF assms(2), of ph] by (simp add: lease_inv_def held_session_def)
qed

lemma lease_inv_attempt:
  assumes "lease_inv (w, ts)" and "waits_at ts i (Listening notified)"
    and "lease_attempt (wt_session (ts ! i)) (wk_slot_wait w) elapsed w = (r, w')"
  shows "lease_inv (w', waits ts i (after_attempt notified r))"
proof (cases "wt_session (ts ! i) \<in> set (wk_leases w)")
  case True
  with assms(3) have "w' = w" "r \<noteq> Leased" by (auto simp: lease_attempt_def split: if_split_asm)
  with assms(1,2) True show ?thesis by (cases r) (auto intro!: lease_inv_same)
next
  case False
  with assms(3) have w': "w' = w\<lparr>wk_leases := wt_session (ts ! i) # wk_leases w\<rparr>" and r: "r = Leased"
    by (auto simp: lease_attempt_def)
  have "asleep_ok (w', waits ts i Holding)"
    using assms(1,2) unfolding lease_inv_def asleep_ok_def w'
    by (auto simp: nth_list_update) (metis wait_phase.distinct)+
  then show ?thesis
    using assms(1,2) False held_waits [of i ts Holding] by (simp add: lease_inv_def held_session_def w' r)
qed

lemma lease_inv_remove:
  assumes "lease_inv (w, ts)" and "waits_at ts i Holding"
  shows "lease_inv (drop_lease (wt_session (ts ! i)) w, waits ts i Dropping)"
proof -
  let ?s = "wt_session (ts ! i)"
  have sum: "add_mset ?s (sum_list (map held_session (waits ts i Dropping))) = mset (wk_leases w)"
    using assms held_waits [of i ts Dropping] by (simp add: lease_inv_def held_session_def)
  moreover have dist: "distinct (wk_leases w)" using assms(1) by (simp add: lease_inv_def)
  moreover from calculation have "mset (removeAll ?s (wk_leases w)) = mset (wk_leases w) - {#?s#}"
    by (metis distinct_remove1_removeAll mset_remove1)
  ultimately have "mset (removeAll ?s (wk_leases w)) = sum_list (map held_session (waits ts i Dropping))"
    by (metis add_mset_remove_trivial)
  moreover have "asleep_ok (drop_lease ?s w, waits ts i Dropping)"
    using assms unfolding lease_inv_def asleep_ok_def drop_lease_def
    by (auto simp: nth_list_update)
  ultimately show ?thesis using dist by (simp add: lease_inv_def drop_lease_def distinct_removeAll)
qed

lemma lease_inv_notify:
  assumes "lease_inv (w, ts)" and "waits_at ts i Dropping"
  shows "lease_inv (w, notify_waiters (waits ts i Gone))"
  using assms held_waits [of i ts Gone] by (simp add: lease_inv_def asleep_ok_def held_session_def)

lemma lease_inv_step: "lease_step s t \<Longrightarrow> lease_inv s \<Longrightarrow> lease_inv t"
proof (induction rule: lease_step.induct)
  case (comes w ts s)
  then show ?case
    by (auto simp: lease_inv_def asleep_ok_def held_session_def nth_append less_Suc_eq)
qed (auto intro: lease_inv_same lease_inv_attempt lease_inv_remove lease_inv_notify)

interpretation leases: transition_system lease_start lease_step lease_inv
proof unfold_locales
  show "lease_inv s" if "lease_start s" for s
    using that by (simp add: lease_start_def lease_inv_def asleep_ok_def)
qed (blast intro: lease_inv_step)

section \<open>No wake-up is lost\<close>

text \<open>The next steps of a task whose lease is free: it sees the notification, listens again and
  takes the lease.\<close>

lemma awake_takes:
  assumes "waits_at ts i (Waiting True)" and "wt_session (ts ! i) \<notin> set (wk_leases w)"
  shows "\<exists>w' ts'. (lease_step ^^ 3) (w, ts) (w', ts') \<and> waits_at ts' i Holding"
proof -
  let ?s = "wt_session (ts ! i)"
  have 1: "lease_step (w, ts) (w, waits ts i Arriving)" using assms(1) by (rule lease_step.wakes)
  have 2: "lease_step (w, waits ts i Arriving) (w, waits ts i (Listening False))"
    using lease_step.listens [of i "waits ts i Arriving" w] assms(1) by simp
  have "lease_attempt ?s (wk_slot_wait w) 0 w = (Leased, w\<lparr>wk_leases := ?s # wk_leases w\<rparr>)"
    using assms(2) by (simp add: lease_attempt_def)
  then have 3: "lease_step (w, waits ts i (Listening False)) (w\<lparr>wk_leases := ?s # wk_leases w\<rparr>, waits ts i Holding)"
    using lease_step.attempts [of i "waits ts i (Listening False)" False w 0 Leased] assms(1) by simp
  have "(lease_step ^^ 3) (w, ts) (w\<lparr>wk_leases := ?s # wk_leases w\<rparr>, waits ts i Holding)"
    using 1 2 3 by (auto simp: numeral_3_eq_3)
  then show ?thesis using assms(1) by (intro exI conjI) (assumption, simp_all)
qed

text \<open>
  C19. No wake-up is lost. In every reachable state of the lease table, if a request waits for
  its session's lease then another request holds it, or the lease is free and the waiting request
  takes it within four steps of its own and of a drop that is under way, without any other
  request having to come or go.
\<close>

theorem lease_never_missed:
  assumes "lease_start s0" and "lease_step\<^sup>*\<^sup>* s0 (w, ts)" and "waits_at ts i (Waiting notified)"
  shows "if wt_session (ts ! i) \<in> set (wk_leases w)
    then \<exists>k. k \<noteq> i \<and> waits_at ts k Holding \<and> wt_session (ts ! k) = wt_session (ts ! i)
    else \<exists>n w' ts'. n \<le> 4 \<and> (lease_step ^^ n) (w, ts) (w', ts') \<and> waits_at ts' i Holding"
proof (cases "wt_session (ts ! i) \<in> set (wk_leases w)")
  case True
  obtain k where "waits_at ts k Holding" "wt_session (ts ! k) = wt_session (ts ! i)"
    using lease_held [OF leases.invariant_reachable [OF assms(1,2)] True] by blast
  moreover from this assms(3) have "k \<noteq> i" by auto
  ultimately show ?thesis using True by (simp only: if_True) blast
next
  case free: False
  show ?thesis
  proof (cases notified)
    case True
    with awake_takes [of i ts w] assms(3) free show ?thesis by (auto intro!: exI [of _ "3::nat"])
  next
    case False
    with leases.invariant_reachable [OF assms(1,2)] assms(3) free obtain k where k: "waits_at ts k Dropping"
      by (auto simp: lease_inv_def asleep_ok_def)
    let ?ts = "notify_waiters (waits ts k Gone)"
    have "lease_step (w, ts) (w, ?ts)" using k by (rule lease_step.notifies)
    moreover have "k \<noteq> i" using k assms(3) by auto
    then have "waits_at ?ts i (Waiting True)" "wt_session (?ts ! i) \<notin> set (wk_leases w)"
      using assms(3) free by simp_all
    from awake_takes [OF this] obtain w' ts' where "(lease_step ^^ 3) (w, ?ts) (w', ts')" "waits_at ts' i Holding" by blast
    ultimately have "(lease_step ^^ 4) (w, ts) (w', ts')" "waits_at ts' i Holding"
      using relpowp_Suc_I2 [of lease_step "(w, ts)" "(w, ?ts)" 3 "(w', ts')"] by simp_all
    then show ?thesis using free by auto
  qed
qed

text \<open>Two requests of one session: the first holds the lease, the second waits.\<close>

definition demo_waiters :: "waiter list" where
  "demo_waiters = [\<lparr>wt_session = 7, wt_phase = Holding\<rparr>, \<lparr>wt_session = 7, wt_phase = Waiting False\<rparr>]"

definition demo_leased :: worker_runtime where
  "demo_leased = (demo_runtime 1)\<lparr>wk_leases := [7]\<rparr>"

lemma demo_free: "wk_leases (demo_runtime 1) = []" "0 < wk_slot_wait (demo_runtime 1)"
  by (simp_all add: demo_runtime_def new_runtime_def slot_wait_timeout_def session_cache_config_default_def)

lemma demo_lease_waits: "lease_step\<^sup>*\<^sup>* (demo_runtime 1, []) (demo_leased, demo_waiters)"
proof -
  let ?t = "\<lambda>ph. \<lparr>wt_session = 7, wt_phase = ph\<rparr>"
  have 1: "lease_step (demo_runtime 1, []) (demo_runtime 1, [?t Arriving])"
    using lease_step.comes [of "demo_runtime 1" "[]" 7] by simp
  have 2: "lease_step (demo_runtime 1, [?t Arriving]) (demo_runtime 1, [?t (Listening False)])"
    using lease_step.listens [of 0 "[?t Arriving]"] by simp
  have 3: "lease_step (demo_runtime 1, [?t (Listening False)]) (demo_leased, [?t Holding])"
    using lease_step.attempts [of 0 "[?t (Listening False)]" False "demo_runtime 1" 0 Leased demo_leased]
    by (simp add: lease_attempt_def demo_leased_def demo_free)
  have 4: "lease_step (demo_leased, [?t Holding]) (demo_leased, [?t Holding, ?t Arriving])"
    using lease_step.comes [of demo_leased "[?t Holding]" 7] by simp
  have 5: "lease_step (demo_leased, [?t Holding, ?t Arriving]) (demo_leased, [?t Holding, ?t (Listening False)])"
    using lease_step.listens [of 1 "[?t Holding, ?t Arriving]"] by simp
  have 6: "lease_step (demo_leased, [?t Holding, ?t (Listening False)]) (demo_leased, [?t Holding, ?t (Refused False)])"
    using lease_step.attempts [of 1 "[?t Holding, ?t (Listening False)]" False demo_leased 0
        "WaitFor (wk_slot_wait demo_leased)" demo_leased] demo_free(2)
    by (simp add: lease_attempt_def demo_leased_def)
  have 7: "lease_step (demo_leased, [?t Holding, ?t (Refused False)]) (demo_leased, demo_waiters)"
    using lease_step.awaits [of 1 "[?t Holding, ?t (Refused False)]" False] by (simp add: demo_waiters_def)
  note step = converse_rtranclp_into_rtranclp [of lease_step]
  show ?thesis
    by (rule step [OF 1], rule step [OF 2], rule step [OF 3], rule step [OF 4], rule step [OF 5], rule step [OF 6],
        rule r_into_rtranclp [of lease_step, OF 7])
qed

theorem lease_never_missed_witness:
  "\<exists>k. k \<noteq> 1 \<and> waits_at demo_waiters k Holding \<and> wt_session (demo_waiters ! k) = 7"
proof -
  have "lease_start (demo_runtime 1, [])" by (simp add: lease_start_def demo_free)
  moreover have "waits_at demo_waiters 1 (Waiting False)" "wt_session (demo_waiters ! 1) = 7"
    by (simp_all add: demo_waiters_def)
  moreover have "7 \<in> set (wk_leases demo_leased)" by (simp add: demo_leased_def)
  ultimately show ?thesis
    using lease_never_missed [OF _ demo_lease_waits, of 1 False] by metis
qed

end
