(* ===== verification/Session_Cache.thy ===== *)
theory Session_Cache
  imports Worker_Runtime
begin

text \<open>
  The prompt cache of the GGUF runtime: configuration and counters of
  \<open>crates/decompute-core/src/cache.rs\<close>, and the cache of \<open>crates/decompute-llama/src/runtime.rs\<close>
  with its expiry, its lookup by prompt prefix, its least-recently-used eviction under an entry
  and a byte budget, and its accounting. A llama.cpp context is an opaque value.
\<close>

section \<open>Counters\<close>

record session_cache_stats =
  ss_hits :: u64
  ss_misses :: u64
  ss_evictions :: u64
  ss_expirations :: u64
  ss_invalidations :: u64

definition session_cache_stats_default :: session_cache_stats where
  "session_cache_stats_default =
     \<lparr>ss_hits = 0, ss_misses = 0, ss_evictions = 0, ss_expirations = 0, ss_invalidations = 0\<rparr>"

definition increment_hits :: "session_cache_stats \<Rightarrow> session_cache_stats" where
  "increment_hits s = s\<lparr>ss_hits := ss_hits s + 1\<rparr>"

definition increment_misses :: "session_cache_stats \<Rightarrow> session_cache_stats" where
  "increment_misses s = s\<lparr>ss_misses := ss_misses s + 1\<rparr>"

definition increment_evictions :: "session_cache_stats \<Rightarrow> session_cache_stats" where
  "increment_evictions s = s\<lparr>ss_evictions := ss_evictions s + 1\<rparr>"

definition increment_expirations :: "session_cache_stats \<Rightarrow> session_cache_stats" where
  "increment_expirations s = s\<lparr>ss_expirations := ss_expirations s + 1\<rparr>"

definition increment_invalidations :: "session_cache_stats \<Rightarrow> session_cache_stats" where
  "increment_invalidations s = s\<lparr>ss_invalidations := ss_invalidations s + 1\<rparr>"

definition snapshot :: "session_cache_stats \<Rightarrow> u64 list" where
  "snapshot s = [ss_hits s, ss_misses s, ss_evictions s, ss_expirations s, ss_invalidations s]"

text \<open>\<open>Clone\<close> goes through a snapshot.\<close>

definition stats_clone :: "session_cache_stats \<Rightarrow> session_cache_stats" where
  "stats_clone s =
     \<lparr>ss_hits = snapshot s ! 0, ss_misses = snapshot s ! 1, ss_evictions = snapshot s ! 2,
      ss_expirations = snapshot s ! 3, ss_invalidations = snapshot s ! 4\<rparr>"

lemma stats_clone_same [simp]: "stats_clone s = s"
  by (simp add: stats_clone_def snapshot_def)

text \<open>Why a session's context could not be used, and the names in the log.\<close>

datatype session_cache_miss =
    MissDisabled | MissTooShort | MissMissing | MissExpired | MissPrefixMismatch | MissIncompatible
  | MissOverflow | MissContended | MissInvalidated

fun miss_as_str :: "session_cache_miss \<Rightarrow> string" where
  "miss_as_str MissDisabled = ''disabled''"
| "miss_as_str MissTooShort = ''too_short''"
| "miss_as_str MissMissing = ''missing''"
| "miss_as_str MissExpired = ''expired''"
| "miss_as_str MissPrefixMismatch = ''prefix_mismatch''"
| "miss_as_str MissIncompatible = ''incompatible''"
| "miss_as_str MissOverflow = ''overflow''"
| "miss_as_str MissContended = ''contended''"
| "miss_as_str MissInvalidated = ''invalidated''"

lemma miss_as_str_inj: "inj miss_as_str"
proof (rule injI)
  fix a b
  show "miss_as_str a = miss_as_str b \<Longrightarrow> a = b" by (cases a; cases b) simp_all
qed

section \<open>The cache\<close>

record ('t, 'c) cache_entry =
  ce_context :: 'c
  ce_tokens :: "'t list"
  ce_bytes :: usize
  ce_last_used :: instant

text \<open>The part of \<open>GgufModel\<close> that changes: the counters are shared with the worker, if given.\<close>

record ('t, 'c) cache_state =
  cs_config :: session_cache_config
  cs_stats :: "session_cache_stats option"
  cs_cache :: "(uuid \<times> ('t, 'c) cache_entry) list"

definition bump :: "(session_cache_stats \<Rightarrow> session_cache_stats) \<Rightarrow> ('t, 'c) cache_state \<Rightarrow> ('t, 'c) cache_state" where
  "bump f s = s\<lparr>cs_stats := map_option f (cs_stats s)\<rparr>"

definition cache_enabled :: "session_cache_config \<Rightarrow> uuid option \<Rightarrow> bool" where
  "cache_enabled config session_id \<longleftrightarrow> session_id \<noteq> None \<and> 0 < sc_max_entries config"

definition prompt_is_cacheable :: "session_cache_config \<Rightarrow> uuid option \<Rightarrow> 't list \<Rightarrow> bool" where
  "prompt_is_cacheable config session_id tokens \<longleftrightarrow>
     cache_enabled config session_id \<and> unat (sc_min_tokens config) \<le> length tokens"

text \<open>\<open>estimated_cache_bytes\<close>: the model's dimensions are \<open>i32\<close> values, negative ones count as 0;
  the products saturate.\<close>

definition dimension :: "int \<Rightarrow> usize" where
  "dimension n = (if n < 0 then 0 else word_of_int n)"

definition estimated_cache_bytes :: "u32 \<Rightarrow> int \<Rightarrow> int \<Rightarrow> int \<Rightarrow> int \<Rightarrow> usize" where
  "estimated_cache_bytes context_tokens n_embd n_layer n_head n_head_kv =
     (let embedding = dimension n_embd; layers = dimension n_layer; heads = dimension n_head;
          kv_heads = dimension n_head_kv;
          head_width = (case checked_div embedding heads of Some q \<Rightarrow> q | None \<Rightarrow> embedding);
          kv_width = (case checked_mul kv_heads head_width of
                        Some width \<Rightarrow> if 0 < width then width else embedding
                      | None \<Rightarrow> embedding)
      in saturating_mul (saturating_mul (saturating_mul (saturating_mul
           (ucast context_tokens) layers) kv_width) 2) 4)"

text \<open>Idle entries expire before the lookup.\<close>

definition is_idle :: "session_cache_config \<Rightarrow> instant \<Rightarrow> ('t, 'c) cache_entry \<Rightarrow> bool" where
  "is_idle config now entry \<longleftrightarrow>
     0 < sc_idle_ttl_ms config \<and> idle_ttl config < now - ce_last_used entry"

definition expire_idle :: "instant \<Rightarrow> ('t, 'c) cache_state \<Rightarrow> ('t, 'c) cache_state" where
  "expire_idle now s =
     (let idle = filter (\<lambda>(_, entry). is_idle (cs_config s) now entry) (cs_cache s) in
      s\<lparr>cs_cache := al_retain (\<lambda>_ entry. \<not> is_idle (cs_config s) now entry) (cs_cache s),
        cs_stats := map_option (\<lambda>stats. foldl (\<lambda>st _. increment_expirations st) stats idle) (cs_stats s)\<rparr>)"

definition total_bytes :: "(uuid \<times> ('t, 'c) cache_entry) list \<Rightarrow> usize" where
  "total_bytes cache = foldl saturating_add 0 (map ce_bytes (al_values cache))"

definition over_budget :: "session_cache_config \<Rightarrow> usize \<Rightarrow> (uuid \<times> ('t, 'c) cache_entry) list \<Rightarrow> bool" where
  "over_budget config bytes cache \<longleftrightarrow>
     unat (sc_max_entries config) \<le> length cache \<or>
     0 < sc_max_bytes config \<and> sc_max_bytes config < saturating_add (total_bytes cache) bytes"

definition lru_key :: "(uuid \<times> ('t, 'c) cache_entry) list \<Rightarrow> uuid option" where
  "lru_key cache = map_option fst (min_by_key (\<lambda>(_, entry). ce_last_used entry) cache)"

lemma lru_key_Some:
  "lru_key cache = Some k \<Longrightarrow>
   \<exists>entry. (k, entry) \<in> set cache \<and> (\<forall>e \<in> set (al_values cache). ce_last_used entry \<le> ce_last_used e)"
  using min_by_key_Some [of "\<lambda>(_, entry). ce_last_used entry" cache] by (fastforce simp: lru_key_def)

lemma length_delete_key: "k \<in> set (al_keys al) \<Longrightarrow> length (AList.delete k al) < length al"
proof (induction al)
  case (Cons x al)
  then show ?case using length_delete_le [of k al] by (cases x) (force simp: less_Suc_eq_le)
qed simp

lemma length_delete_lru: "lru_key cache = Some k \<Longrightarrow> length (AList.delete k cache) < length cache"
  using lru_key_Some [of cache k] by (force intro: length_delete_key)

text \<open>The eviction loop; it ends because every round removes an entry.\<close>

function evict :: "usize \<Rightarrow> ('t, 'c) cache_state \<Rightarrow> ('t, 'c) cache_state" where
  "evict bytes s =
     (if over_budget (cs_config s) bytes (cs_cache s)
      then (case lru_key (cs_cache s) of
              Some evicted \<Rightarrow>
                evict bytes (bump increment_evictions (s\<lparr>cs_cache := AList.delete evicted (cs_cache s)\<rparr>))
            | None \<Rightarrow> s)
      else s)"
  by pat_completeness auto

termination
  by (relation "measure (\<lambda>(bytes, s). length (cs_cache s))") (auto simp: bump_def dest: length_delete_lru)

declare evict.simps [simp del]

section \<open>What eviction keeps\<close>

lemma delete_filter: "AList.delete k al = filter (\<lambda>e. fst e \<noteq> k) al"
  by (induction al) auto

lemma delete_subset: "set (AList.delete k al) = {e \<in> set al. fst e \<noteq> k}"
  by (auto simp: delete_filter)

lemma keys_delete [simp]: "distinct (al_keys al) \<Longrightarrow> distinct (al_keys (AList.delete k al))"
  by (simp add: distinct_delete)

lemma evict_step:
  "over_budget (cs_config s) bytes (cs_cache s) \<Longrightarrow> lru_key (cs_cache s) = Some k \<Longrightarrow>
   evict bytes s = evict bytes (bump increment_evictions (s\<lparr>cs_cache := AList.delete k (cs_cache s)\<rparr>))"
  by (subst evict.simps) simp

lemma evict_stop:
  "\<not> over_budget (cs_config s) bytes (cs_cache s) \<or> cs_cache s = [] \<Longrightarrow> evict bytes s = s"
  by (subst evict.simps) (auto simp: lru_key_def)

lemma evict_induct [case_names stop step]:
  assumes "\<And>s. \<not> over_budget (cs_config s) bytes (cs_cache s) \<or> cs_cache s = [] \<Longrightarrow> P s"
    and "\<And>s k. over_budget (cs_config s) bytes (cs_cache s) \<Longrightarrow> lru_key (cs_cache s) = Some k \<Longrightarrow>
      P (bump increment_evictions (s\<lparr>cs_cache := AList.delete k (cs_cache s)\<rparr>)) \<Longrightarrow> P s"
  shows "P s"
proof (induction "length (cs_cache s)" arbitrary: s rule: less_induct)
  case less
  show ?case
  proof (cases "over_budget (cs_config s) bytes (cs_cache s) \<and> cs_cache s \<noteq> []")
    case True
    then have "lru_key (cs_cache s) \<noteq> None" by (simp add: lru_key_def)
    then obtain k where k: "lru_key (cs_cache s) = Some k" by blast
    have "P (bump increment_evictions (s\<lparr>cs_cache := AList.delete k (cs_cache s)\<rparr>))"
      by (rule less) (simp add: bump_def length_delete_lru [OF k])
    with True k show ?thesis using assms(2) by blast
  qed (use assms(1) in blast)
qed

lemma evict_config [simp]: "cs_config (evict bytes s) = cs_config s"
  by (induction s rule: evict_induct [where bytes = bytes]) (simp_all add: evict_stop evict_step bump_def)

lemma evict_subset: "set (cs_cache (evict bytes s)) \<subseteq> set (cs_cache s)"
  by (induction s rule: evict_induct [where bytes = bytes]) (auto simp: evict_stop evict_step bump_def delete_subset)

lemma evict_keys: "distinct (al_keys (cs_cache s)) \<Longrightarrow> distinct (al_keys (cs_cache (evict bytes s)))"
  by (induction s rule: evict_induct [where bytes = bytes]) (simp_all add: evict_stop evict_step bump_def)

lemma evict_fits:
  "\<not> over_budget (cs_config s) bytes (cs_cache (evict bytes s)) \<or> cs_cache (evict bytes s) = []"
  by (induction s rule: evict_induct [where bytes = bytes]) (auto simp: evict_stop evict_step bump_def)

text \<open>
  What eviction promises, over the plain numbers: an entry of a size fits if the cache has fewer
  entries than allowed and the sizes together, the new one included, do not exceed the limit, if there
  is one; a sum over \<open>usize\<close> counts as its greatest value. Eviction takes the entries \<open>victims\<close>
  away, one after the other.
\<close>

definition has_room :: "session_cache_config \<Rightarrow> usize \<Rightarrow> (uuid \<times> ('t, 'c) cache_entry) list \<Rightarrow> bool" where
  "has_room config bytes cache \<longleftrightarrow>
     length cache < unat (sc_max_entries config) \<and>
     (sc_max_bytes config = 0 \<or>
      min ((\<Sum>e \<leftarrow> cache. unat (ce_bytes (snd e))) + unat bytes) (2 ^ 64 - 1) \<le> unat (sc_max_bytes config))"

definition without_first :: "nat \<Rightarrow> 'e list \<Rightarrow> 'e list \<Rightarrow> 'e list" where
  "without_first n victims cache = filter (\<lambda>e. e \<notin> set (take n victims)) cache"

definition lru_victims ::
  "session_cache_config \<Rightarrow> usize \<Rightarrow> (uuid \<times> ('t, 'c) cache_entry) list \<Rightarrow> (uuid \<times> ('t, 'c) cache_entry) list \<Rightarrow> bool" where
  "lru_victims config bytes cache victims \<longleftrightarrow>
     (\<forall>n < length victims.
        \<not> has_room config bytes (without_first n victims cache) \<and>
        victims ! n \<in> set (without_first n victims cache) \<and>
        (\<forall>e \<in> set (without_first n victims cache). ce_last_used (snd (victims ! n)) \<le> ce_last_used (snd e)))"

lemma unat_foldl_saturating_add:
  "unat (foldl saturating_add a ws) = min (unat a + sum_list (map unat ws)) (2 ^ LENGTH('l) - 1)"
  for a :: "'l::len word"
proof (induction ws arbitrary: a)
  case Nil
  have "unat a \<le> 2 ^ LENGTH('l) - 1" using unat_less_exp [of a] by linarith
  then show ?case by simp
next
  case (Cons w ws)
  have "min (min x m + y) m = min (x + y) m" for x y m :: nat by (auto simp: min_def)
  with Cons show ?case by (simp only: foldl.simps unat_saturating_add list.map sum_list.Cons add.assoc)
qed

lemma over_budget_room: "over_budget config bytes cache \<longleftrightarrow> \<not> has_room config bytes cache"
proof -
  have cap: "min (min x m + y) m = min (x + y) m" for x y m :: nat by (auto simp: min_def)
  have "unat (saturating_add (total_bytes cache) bytes) =
      min ((\<Sum>e \<leftarrow> cache. unat (ce_bytes (snd e))) + unat bytes) (2 ^ 64 - 1)"
    unfolding total_bytes_def unat_saturating_add unat_foldl_saturating_add
    by (simp add: cap o_def)
  then show ?thesis
    by (auto simp: over_budget_def has_room_def word_less_nat_alt unat_gt_0)
qed

lemma without_first_0 [simp]: "without_first 0 victims cache = cache"
  by (simp add: without_first_def)

lemma without_first_Suc: "without_first (Suc n) (v # victims) cache = without_first n victims (filter (\<lambda>e. e \<noteq> v) cache)"
  by (auto simp: without_first_def intro: filter_cong)

lemma lru_victims_Cons:
  assumes "\<not> has_room config bytes cache" "v \<in> set cache"
    and "\<forall>e \<in> set cache. ce_last_used (snd v) \<le> ce_last_used (snd e)"
    and "lru_victims config bytes (filter (\<lambda>e. e \<noteq> v) cache) victims"
  shows "lru_victims config bytes cache (v # victims)"
  unfolding lru_victims_def
proof (intro allI impI)
  fix n assume "n < length (v # victims)"
  with assms show "\<not> has_room config bytes (without_first n (v # victims) cache) \<and>
      (v # victims) ! n \<in> set (without_first n (v # victims) cache) \<and>
      (\<forall>e \<in> set (without_first n (v # victims) cache). ce_last_used (snd ((v # victims) ! n)) \<le> ce_last_used (snd e))"
    by (cases n) (simp_all add: lru_victims_def without_first_Suc)
qed

lemma delete_entry:
  "distinct (al_keys cache) \<Longrightarrow> (k, entry) \<in> set cache \<Longrightarrow> AList.delete k cache = filter (\<lambda>e. e \<noteq> (k, entry)) cache"
  unfolding delete_filter by (rule filter_cong) (auto dest: eq_key_imp_eq_value)

lemma evict_victims:
  "distinct (al_keys (cs_cache s)) \<Longrightarrow>
   \<exists>victims. lru_victims (cs_config s) bytes (cs_cache s) victims \<and>
     evict bytes s = s\<lparr>cs_cache := without_first (length victims) victims (cs_cache s),
       cs_stats := map_option (\<lambda>st. st\<lparr>ss_evictions := ss_evictions st + of_nat (length victims)\<rparr>) (cs_stats s)\<rparr> \<and>
     (has_room (cs_config s) bytes (without_first (length victims) victims (cs_cache s)) \<or>
      without_first (length victims) victims (cs_cache s) = [])"
proof (induction s rule: evict_induct [where bytes = bytes])
  case (stop s)
  then have "evict bytes s = s" "has_room (cs_config s) bytes (cs_cache s) \<or> cs_cache s = []"
    by (auto simp: evict_stop over_budget_room)
  then show ?case by (intro exI [of _ "[]"]) (auto simp: lru_victims_def option.map_ident)
next
  case (step s k)
  obtain entry where entry: "(k, entry) \<in> set (cs_cache s)"
    "\<forall>e \<in> set (al_values (cs_cache s)). ce_last_used entry \<le> ce_last_used e"
    using lru_key_Some [OF step(2)] by blast
  note delete = delete_entry [OF step(4) entry(1)]
  let ?s = "bump increment_evictions (s\<lparr>cs_cache := AList.delete k (cs_cache s)\<rparr>)"
  have "distinct (al_keys (cs_cache ?s))" using step(4) by (simp add: bump_def)
  from step.IH [OF this] obtain victims where
    "lru_victims (cs_config ?s) bytes (cs_cache ?s) victims"
    "evict bytes ?s = ?s\<lparr>cs_cache := without_first (length victims) victims (cs_cache ?s),
       cs_stats := map_option (\<lambda>st. st\<lparr>ss_evictions := ss_evictions st + of_nat (length victims)\<rparr>) (cs_stats ?s)\<rparr>"
    "has_room (cs_config ?s) bytes (without_first (length victims) victims (cs_cache ?s)) \<or>
      without_first (length victims) victims (cs_cache ?s) = []"
    by blast
  moreover have "cs_cache ?s = filter (\<lambda>e. e \<noteq> (k, entry)) (cs_cache s)" "cs_config ?s = cs_config s"
    by (simp_all add: bump_def delete)
  ultimately show ?case
    using lru_victims_Cons [of "cs_config s" bytes "cs_cache s" "(k, entry)" victims] step(1) entry
    by (intro exI [of _ "(k, entry) # victims"])
      (simp add: evict_step [OF step(1,2)] without_first_Suc over_budget_room bump_def increment_evictions_def
        option.map_comp o_def algebra_simps)
qed

text \<open>
  C36. Making room in the cache: \<open>evict\<close> takes entries away one after the other, each of them a least
  recently used one of those left, and each only because the new entry does not fit with those left. It
  stops as soon as the new entry fits, or with an empty cache. Nothing else changes, except that the
  counter of evictions, if there is one, grows by the number of entries lost.
\<close>

theorem evict_correct:
  assumes "distinct (al_keys (cs_cache s))"
  shows "\<exists>victims. lru_victims (cs_config s) bytes (cs_cache s) victims \<and>
    evict bytes s = s\<lparr>cs_cache := without_first (length victims) victims (cs_cache s),
      cs_stats := map_option (\<lambda>st. st\<lparr>ss_evictions := ss_evictions st + of_nat (length victims)\<rparr>) (cs_stats s)\<rparr> \<and>
    (has_room (cs_config s) bytes (cs_cache (evict bytes s)) \<or> cs_cache (evict bytes s) = [])"
proof -
  from evict_victims [OF assms, of bytes] obtain victims where v:
    "lru_victims (cs_config s) bytes (cs_cache s) victims"
    "evict bytes s = s\<lparr>cs_cache := without_first (length victims) victims (cs_cache s),
      cs_stats := map_option (\<lambda>st. st\<lparr>ss_evictions := ss_evictions st + of_nat (length victims)\<rparr>) (cs_stats s)\<rparr>"
    "has_room (cs_config s) bytes (without_first (length victims) victims (cs_cache s)) \<or>
      without_first (length victims) victims (cs_cache s) = []"
    by blast
  then have "cs_cache (evict bytes s) = without_first (length victims) victims (cs_cache s)" by simp
  with v show ?thesis by (intro exI [of _ victims]) simp
qed

section \<open>The estimate\<close>

lemma min_mult_bound: "min (min a M * b) M = min (a * b) (M :: nat)"
proof (cases "a \<le> M \<or> b = 0")
  case False
  then have "M \<le> M * b" "M \<le> a * b" using mult_le_mono [of M a 1 b] by simp_all
  with False show ?thesis by (simp add: min_absorb2)
qed auto

lemma unat_saturating_mul_chain:
  "unat (saturating_mul (saturating_mul (saturating_mul (saturating_mul a b) c) d) e :: usize) =
     min (unat a * unat b * unat c * unat d * unat e) (2 ^ 64 - 1)"
  by (simp only: unat_saturating_mul min_mult_bound len_of_numeral_defs) simp

lemma unat_dimension: "0 \<le> n \<Longrightarrow> n < 2 ^ 31 \<Longrightarrow> unat (dimension n) = nat n"
proof -
  assume n: "0 \<le> n" "n < 2 ^ 31"
  then have "dimension n = of_nat (nat n)" by (simp add: dimension_def)
  moreover have "nat n < 2 ^ 64" using n by simp
  ultimately show ?thesis by (simp add: unat_of_nat)
qed

text \<open>
  C39. The size of a cache entry is estimated as two 4-byte floats per layer, key-value
  channel and token of the context, exactly, or as the greatest \<open>usize\<close> if that does not
  fit: no intermediate product wraps around.
\<close>

theorem estimated_cache_bytes_exact:
  assumes "0 < n_head" "n_head \<le> n_embd" "n_embd < 2 ^ 31" "0 < n_head_kv" "n_head_kv < 2 ^ 31"
    "0 \<le> n_layer" "n_layer < 2 ^ 31"
  shows "unat (estimated_cache_bytes context_tokens n_embd n_layer n_head n_head_kv) =
    min (unat context_tokens * nat n_layer * (nat n_head_kv * nat (n_embd div n_head)) * 2 * 4) (2 ^ 64 - 1)"
proof -
  have dims: "unat (dimension n_embd) = nat n_embd" "unat (dimension n_head) = nat n_head"
    "unat (dimension n_head_kv) = nat n_head_kv" "unat (dimension n_layer) = nat n_layer"
    using assms by (simp_all add: unat_dimension)
  have "dimension n_head \<noteq> 0" using dims(2) assms(1) by auto
  then have div: "checked_div (dimension n_embd) (dimension n_head) = Some (dimension n_embd div dimension n_head)"
    by (simp add: checked_div_def)
  let ?width = "dimension n_embd div dimension n_head"
  have width: "unat ?width = nat (n_embd div n_head)"
    using assms by (simp add: unat_div dims nat_div_distrib)
  have "nat (n_embd div n_head) \<le> nat n_embd" using assms by (simp add: nat_div_distrib)
  then have "nat n_head_kv * nat (n_embd div n_head) \<le> 2 ^ 31 * 2 ^ 31"
    using assms by (intro mult_le_mono) auto
  then have small: "unat (dimension n_head_kv) * unat ?width < 2 ^ 64"
    by (simp add: dims width)
  have pos: "0 < nat n_head_kv * nat (n_embd div n_head)"
    using assms by (simp add: pos_imp_zdiv_pos_iff)
  have prod: "unat (dimension n_head_kv * ?width) = nat n_head_kv * nat (n_embd div n_head)"
    using small by (simp add: unat_mult_lem [THEN iffD1] dims width)
  have "checked_mul (dimension n_head_kv) ?width = Some (dimension n_head_kv * ?width)"
    using small by (simp add: checked_mul_def)
  moreover have "0 < dimension n_head_kv * ?width"
    using pos prod by (metis word_gt_0 unat_0 less_irrefl)
  moreover have "unat context_tokens < 2 ^ 64"
    using unat_less_exp [of context_tokens] by simp
  then have "take_bit 64 (unat context_tokens) = unat context_tokens"
    by (rule take_bit_nat_eq_self)
  ultimately show ?thesis
    unfolding estimated_cache_bytes_def Let_def div
    by (simp add: unat_saturating_mul_chain prod dims unsigned_ucast_eq)
qed

text \<open>
  Two concrete values: a model of 24 layers with grouped heads, and two idle entries, of
  which the older has to go.\<close>

theorem estimated_cache_bytes_exact_witness:
  "unat (estimated_cache_bytes 2048 896 24 14 2) = 50331648"
  using estimated_cache_bytes_exact [of 14 896 2 24 2048] by simp

definition demo_entry :: "instant \<Rightarrow> (nat, nat) cache_entry" where
  "demo_entry used = \<lparr>ce_context = 0, ce_tokens = [1, 2], ce_bytes = 100, ce_last_used = used\<rparr>"

definition demo_cache :: "(nat, nat) cache_state" where
  "demo_cache =
     \<lparr>cs_config = session_cache_config_default\<lparr>sc_max_entries := 2\<rparr>, cs_stats = Some session_cache_stats_default,
      cs_cache = [(1, demo_entry 5), (2, demo_entry 3)]\<rparr>"

lemma demo_cache_evict: "cs_cache (evict 100 demo_cache) = [(1, demo_entry 5)]"
  by code_simp

theorem evict_correct_witness:
  "\<exists>victims. lru_victims (cs_config demo_cache) 100 (cs_cache demo_cache) victims \<and>
     without_first (length victims) victims (cs_cache demo_cache) = [(1, demo_entry 5)] \<and>
     has_room (cs_config demo_cache) 100 [(1, demo_entry 5)]"
proof -
  have "distinct (al_keys (cs_cache demo_cache))" by (simp add: demo_cache_def)
  from evict_correct [OF this, of 100] obtain victims where v:
    "lru_victims (cs_config demo_cache) 100 (cs_cache demo_cache) victims"
    "cs_cache (evict 100 demo_cache) = without_first (length victims) victims (cs_cache demo_cache)"
    "has_room (cs_config demo_cache) 100 (cs_cache (evict 100 demo_cache)) \<or> cs_cache (evict 100 demo_cache) = []"
    by force
  then show ?thesis unfolding demo_cache_evict by auto
qed

end
