(* ===== verification/Tool_Calls.thy ===== *)
theory Tool_Calls
  imports Tool_History
begin

text \<open>
  Extraction of tool calls from the text a Qwen model generates,
  \<open>crates/decompute-llama/src/tool_calls.rs\<close>. The JSON parser and the text of a request id
  are parameters; an \<open>anyhow\<close> error is its message.
\<close>

section \<open>Parsing\<close>

abbreviation open_tag :: string where "open_tag \<equiv> ''<tool_call>''"
abbreviation close_tag :: string where "close_tag \<equiv> ''</tool_call>''"

definition parse_one ::
  "(string \<Rightarrow> string + json_value) \<Rightarrow> string set \<Rightarrow> string \<Rightarrow> nat \<Rightarrow> string \<Rightarrow> string + tool_call" where
  "parse_one parse_json names request_id index body =
     (case parse_json body of
        Inl err \<Rightarrow> Inl (''invalid Qwen tool-call JSON: '' @ err)
      | Inr value \<Rightarrow>
          (let function = (case json_get ''function'' value of Some f \<Rightarrow> f | None \<Rightarrow> value) in
           case Option.bind (json_get ''name'' function) as_str of
             None \<Rightarrow> Inl ''tool call has no function name''
           | Some name \<Rightarrow>
               if name \<notin> names then Inl (''model requested undeclared tool '' @ str_debug name)
               else (case json_get ''arguments'' function of
                  None \<Rightarrow> Inl (''tool call '' @ str_debug name @ '' has no arguments'')
                | Some given \<Rightarrow>
                    (case (case given of
                             JString text \<Rightarrow>
                               (case parse_json text of
                                  Inl err \<Rightarrow> Inl (''tool call '' @ str_debug name @
                                    '' has invalid JSON arguments: '' @ err)
                                | Inr v \<Rightarrow> Inr v)
                           | _ \<Rightarrow> Inr given) of
                       Inl err \<Rightarrow> Inl err
                     | Inr arguments \<Rightarrow>
                         if \<not> is_object arguments
                         then Inl (''tool call '' @ str_debug name @ '' arguments must be a JSON object'')
                         else (let i = (case Option.bind (json_get ''id'' value) as_str of
                                          Some i \<Rightarrow> i
                                        | None \<Rightarrow> request_id @ ''-'' @ show_nat index) in
                               if i = [] then Inl ''tool call id must not be empty''
                               else Inr \<lparr>tc_id = i, tc_kind = Function,
                                         tc_function = \<lparr>fc_name = name, fc_arguments = arguments\<rparr>\<rparr>)))))"

text \<open>The loop of \<open>parse_tool_calls\<close>, with the visible text, the calls and the ids so far.\<close>

function parse_loop ::
  "(string \<Rightarrow> string + json_value) \<Rightarrow> string set \<Rightarrow> string \<Rightarrow> string \<Rightarrow> string \<Rightarrow> tool_call list \<Rightarrow>
   string set \<Rightarrow> string + string \<times> tool_call list" where
  "parse_loop parse_json names request_id remainder visible calls ids =
     (case find_sub open_tag remainder of
        None \<Rightarrow> Inr (visible @ remainder, calls)
      | Some start \<Rightarrow>
          (let body = drop (start + length open_tag) remainder in
           case find_sub close_tag body of
             None \<Rightarrow> Inl ''unterminated Qwen <tool_call> block''
           | Some e \<Rightarrow>
               (case parse_one parse_json names request_id (length calls) (str_trim (take e body)) of
                  Inl err \<Rightarrow> Inl err
                | Inr call \<Rightarrow>
                    if tc_id call \<in> ids
                    then Inl (''model returned duplicate tool-call id '' @ str_debug (tc_id call))
                    else parse_loop parse_json names request_id (drop (e + length close_tag) body)
                           (visible @ take start remainder) (calls @ [call]) (insert (tc_id call) ids))))"
  by pat_completeness auto
termination
  by (relation "measure (\<lambda>(parse_json, names, request_id, remainder, visible, calls, ids). length remainder)")
    (auto dest!: find_sub_Some [THEN conjunct2])

declare parse_loop.simps [simp del]

definition parse_tool_calls ::
  "(string \<Rightarrow> string + json_value) \<Rightarrow> string \<Rightarrow> tool_definition list \<Rightarrow> string \<Rightarrow>
   string + string \<times> tool_call list" where
  "parse_tool_calls parse_json text tools request_id =
     (case parse_loop parse_json (declared_names tools) request_id text [] [] {} of
        Inl err \<Rightarrow> Inl err
      | Inr (visible, calls) \<Rightarrow> Inr (str_trim visible, calls))"

section \<open>What is accepted\<close>

lemma parse_one_ok: "parse_one parse_json names request_id index body = Inr call \<Longrightarrow> call_ok names call"
  by (auto simp: parse_one_def call_ok_def Let_def split: sum.splits option.splits if_splits)

lemma parse_loop_None:
  "find_sub open_tag remainder = None \<Longrightarrow>
   parse_loop parse_json names request_id remainder visible calls ids = Inr (visible @ remainder, calls)"
  by (subst parse_loop.simps) simp

lemma parse_loop_Some:
  "find_sub open_tag remainder = Some start \<Longrightarrow>
   find_sub close_tag (drop (start + length open_tag) remainder) = Some e \<Longrightarrow>
   parse_one parse_json names request_id (length calls)
     (str_trim (take e (drop (start + length open_tag) remainder))) = Inr call \<Longrightarrow> tc_id call \<notin> ids \<Longrightarrow>
   parse_loop parse_json names request_id remainder visible calls ids =
     parse_loop parse_json names request_id
       (drop (e + length close_tag) (drop (start + length open_tag) remainder))
       (visible @ take start remainder) (calls @ [call]) (insert (tc_id call) ids)"
  by (subst parse_loop.simps) (simp only: Let_def option.case sum.case if_False)

lemma parse_loop_cases:
  assumes "parse_loop parse_json names request_id remainder visible calls ids = Inr r"
  obtains (finished) "find_sub open_tag remainder = None" "r = (visible @ remainder, calls)"
  | (call) start e call where "find_sub open_tag remainder = Some start"
      "find_sub close_tag (drop (start + length open_tag) remainder) = Some e"
      "parse_one parse_json names request_id (length calls)
         (str_trim (take e (drop (start + length open_tag) remainder))) = Inr call"
      "tc_id call \<notin> ids"
proof (cases "find_sub open_tag remainder")
  case None
  with assms show ?thesis using finished by (simp add: parse_loop_None)
next
  case (Some start)
  let ?body = "drop (start + length open_tag) remainder"
  note unfold = assms [unfolded parse_loop.simps [of parse_json names request_id remainder] Some option.case Let_def]
  show ?thesis
  proof (cases "find_sub close_tag ?body")
    case None
    with unfold show ?thesis by (simp only: option.case) simp
  next
    case close: (Some e)
    show ?thesis
    proof (cases "parse_one parse_json names request_id (length calls) (str_trim (take e ?body))")
      case (Inl err)
      with unfold close show ?thesis by (simp only: option.case sum.case) simp
    next
      case (Inr c)
      have "tc_id c \<notin> ids"
      proof
        assume "tc_id c \<in> ids"
        with unfold close Inr show False by (simp only: option.case sum.case if_True) simp
      qed
      with call Some close Inr show ?thesis by blast
    qed
  qed
qed

lemma parse_loop_ok:
  assumes "parse_loop parse_json names request_id remainder visible calls ids = Inr (v, cs)"
    and "\<forall>c \<in> set calls. call_ok names c" "distinct (map tc_id calls)" "ids = tc_id ` set calls"
  shows "(\<forall>c \<in> set cs. call_ok names c) \<and> distinct (map tc_id cs)"
  using assms
proof (induction "length remainder" arbitrary: remainder visible calls ids rule: less_induct)
  case less
  from less.prems(1) show ?case
  proof (cases rule: parse_loop_cases)
    case finished
    with less.prems show ?thesis by simp
  next
    case (call start e call)
    let ?rest = "drop (e + length close_tag) (drop (start + length open_tag) remainder)"
    have smaller: "length ?rest < length remainder"
      using find_sub_Some [OF call(1), THEN conjunct2] by simp
    have ok: "call_ok names call" using parse_one_ok [OF call(3)] .
    show ?thesis
    proof (rule less.hyps [OF smaller less.prems(1) [unfolded parse_loop_Some [OF call]]])
      show "\<forall>c \<in> set (calls @ [call]). call_ok names c" using less.prems(2) ok by simp
      show "distinct (map tc_id (calls @ [call]))" using less.prems(3,4) call(4) by simp
      show "insert (tc_id call) ids = tc_id ` set (calls @ [call])" using less.prems(4) by simp
    qed
  qed
qed

text \<open>The results a client sends back for calls, in their order.\<close>

definition tool_results :: "(string \<Rightarrow> string) \<Rightarrow> tool_call list \<Rightarrow> chat_message list" where
  "tool_results answer calls =
     map (\<lambda>call. \<lparr>cm_role = Tool, cm_content = answer (tc_id call), cm_tool_calls = [],
                  cm_tool_call_id = Some (tc_id call)\<rparr>) calls"

lemma fifo_results: "fifo (map tc_id calls) (history_events (tool_results answer calls)) = Some []"
  by (induction calls) (simp_all add: tool_results_def)

text \<open>
  C32. What the parser accepts can be sent back: if a conversation is a valid history, it stays one
  when the parsed calls are appended as an assistant message, followed by a result for
  each call in order. So the next request of the client passes the coordinator's and the
  worker's validation.
\<close>

theorem parsed_calls_can_be_answered:
  assumes "parse_tool_calls parse_json generated tools request_id = Inr (visible, calls)"
    and "validate_tool_history history tools = Inr ()"
  shows "validate_tool_history
    (history @
     \<lparr>cm_role = Assistant, cm_content = visible, cm_tool_calls = calls, cm_tool_call_id = None\<rparr> #
     tool_results answer calls) tools = Inr ()"
proof -
  have calls: "\<forall>c \<in> set calls. call_ok (declared_names tools) c" "distinct (map tc_id calls)"
    using assms(1) parse_loop_ok [of parse_json "declared_names tools" request_id generated "[]" "[]" "{}"]
    by (auto simp: parse_tool_calls_def split: sum.splits)
  have "fifo [] (map (\<lambda>c. Call (tc_id c)) calls @ history_events (tool_results answer calls)) = Some []"
    using calls(2) fifo_results [of calls answer] by (simp add: fifo_append fifo_calls)
  moreover have "\<forall>m \<in> set (tool_results answer calls). message_ok (declared_names tools) m"
    using calls(1) by (auto simp: tool_results_def message_ok_def call_ok_def)
  moreover have "message_ok (declared_names tools)
      \<lparr>cm_role = Assistant, cm_content = visible, cm_tool_calls = calls, cm_tool_call_id = None\<rparr>"
    using calls(1) by (simp add: message_ok_def)
  ultimately show ?thesis
    using assms(2) by (auto simp: validate_tool_history_fifo fifo_append)
qed

section \<open>Round trip\<close>

text \<open>A generated text: pieces of visible text, each followed by the body of a call.\<close>

definition render_calls :: "(string \<times> string) list \<Rightarrow> string \<Rightarrow> string" where
  "render_calls pieces final =
     concat (map (\<lambda>(shown, body). shown @ open_tag @ body @ close_tag) pieces) @ final"

lemma find_open: "\<not> occurs open_tag us \<Longrightarrow> find_sub open_tag (us @ open_tag @ vs) = Some (length us)"
  by (rule find_sub_place) simp_all

lemma find_close: "\<not> occurs close_tag us \<Longrightarrow> find_sub close_tag (us @ close_tag @ vs) = Some (length us)"
  by (rule find_sub_place) simp_all

lemma parse_loop_render:
  assumes "list_all (\<lambda>(shown, body). \<not> occurs open_tag shown \<and> \<not> occurs close_tag body) pieces"
    and "\<not> occurs open_tag final" and "length pieces = length new"
    and "\<And>i. i < length pieces \<Longrightarrow> parse_one parse_json names request_id (length calls + i)
        (str_trim (snd (pieces ! i))) = Inr (new ! i)"
    and "distinct (map tc_id new)" and "ids \<inter> set (map tc_id new) = {}"
  shows "parse_loop parse_json names request_id (render_calls pieces final) visible calls ids =
    Inr (visible @ concat (map fst pieces) @ final, calls @ new)"
  using assms
proof (induction pieces arbitrary: new calls visible ids)
  case Nil
  then have "find_sub open_tag final = None" by (simp add: occurs_def)
  with Nil show ?case by (simp add: render_calls_def parse_loop_None)
next
  case (Cons piece pieces)
  obtain shown body where piece: "piece = (shown, body)" by (cases piece)
  obtain call new' where new: "new = call # new'" using Cons.prems(3) by (cases new) auto
  let ?rest = "render_calls pieces final"
  have eq: "render_calls (piece # pieces) final = shown @ open_tag @ (body @ close_tag @ ?rest)"
    by (simp add: render_calls_def piece)
  have "find_sub open_tag (render_calls (piece # pieces) final) = Some (length shown)"
    unfolding eq by (rule find_open) (use Cons.prems(1) piece in simp)
  moreover have drop1: "drop (length shown + length open_tag) (render_calls (piece # pieces) final) =
      body @ close_tag @ ?rest"
    unfolding eq by simp
  moreover have "find_sub close_tag (body @ close_tag @ ?rest) = Some (length body)"
    by (rule find_close) (use Cons.prems(1) piece in simp)
  moreover have "parse_one parse_json names request_id (length calls)
      (str_trim (take (length body) (body @ close_tag @ ?rest))) = Inr call"
    using Cons.prems(4) [of 0] by (simp add: piece new)
  moreover have "tc_id call \<notin> ids" using Cons.prems(6) by (simp add: new)
  ultimately have "parse_loop parse_json names request_id (render_calls (piece # pieces) final) visible calls ids =
      parse_loop parse_json names request_id
        (drop (length body + length close_tag) (body @ close_tag @ ?rest))
        (visible @ take (length shown) (render_calls (piece # pieces) final)) (calls @ [call]) (insert (tc_id call) ids)"
    using parse_loop_Some [of "render_calls (piece # pieces) final" "length shown" "length body"
        parse_json names request_id calls call ids visible, unfolded drop1]
    by blast
  also have "\<dots> = parse_loop parse_json names request_id ?rest (visible @ shown) (calls @ [call]) (insert (tc_id call) ids)"
    unfolding eq by simp
  also have "\<dots> = Inr ((visible @ shown) @ concat (map fst pieces) @ final, (calls @ [call]) @ new')"
  proof (rule Cons.IH)
    show "parse_one parse_json names request_id (length (calls @ [call]) + i) (str_trim (snd (pieces ! i))) = Inr (new' ! i)"
      if "i < length pieces" for i
      using Cons.prems(4) [of "Suc i"] that by (simp add: new)
  qed (use Cons.prems new in auto)
  finally show ?case by (simp add: piece new)
qed

text \<open>
  C33. Every well-formed generation is understood: if the visible pieces do not contain the
  opening tag, the bodies do not contain the closing tag and parse to calls with distinct ids,
  the parser returns exactly these calls in order and the trimmed visible text.
\<close>

theorem tool_calls_extracted:
  assumes "list_all (\<lambda>(shown, body). \<not> occurs open_tag shown \<and> \<not> occurs close_tag body) pieces"
    and "\<not> occurs open_tag final" and "length pieces = length calls"
    and "\<forall>i < length pieces. parse_one parse_json (declared_names tools) request_id i
        (str_trim (snd (pieces ! i))) = Inr (calls ! i)"
    and "distinct (map tc_id calls)"
  shows "parse_tool_calls parse_json (render_calls pieces final) tools request_id =
    Inr (str_trim (concat (map fst pieces) @ final), calls)"
  using parse_loop_render [OF assms(1-3), of parse_json "declared_names tools" request_id "[]" "{}" "[]"] assms(4,5)
  by (simp add: parse_tool_calls_def)

text \<open>
  The other way round: whatever text the parser accepts is made of visible pieces, each followed by a
  complete call, and of a last visible piece. \<open>extracted\<close> says what the parser has to return for it.
\<close>

definition extracted ::
  "(string \<Rightarrow> string + json_value) \<Rightarrow> string set \<Rightarrow> string \<Rightarrow> string \<Rightarrow> string \<Rightarrow> tool_call list \<Rightarrow> bool" where
  "extracted parse_json names request_id raw visible calls \<longleftrightarrow>
     (\<exists>pieces final.
        raw = render_calls pieces final \<and> \<not> occurs open_tag final \<and>
        (\<forall>(shown, body) \<in> set pieces. \<not> occurs open_tag shown \<and> \<not> occurs close_tag body) \<and>
        visible = str_trim (concat (map fst pieces) @ final) \<and> length calls = length pieces \<and>
        (\<forall>i < length pieces. parse_one parse_json names request_id i (str_trim (snd (pieces ! i))) = Inr (calls ! i)))"

lemma find_sub_before: "find_sub p xs = Some n \<Longrightarrow> p \<noteq> [] \<Longrightarrow> \<not> occurs p (take n xs)"
proof
  assume n: "find_sub p xs = Some n" "p \<noteq> []" and "occurs p (take n xs)"
  then obtain us vs where split: "take n xs = us @ p @ vs" by (auto simp: occurs_iff)
  then have "length us < n" using n(2) by (metis append_eq_append_conv_if length_append length_greater_0_conv
    length_take min.cobounded2 add_strict_left_mono less_le_trans nat_add_left_cancel_less add_0_right trans_less_add1)
  moreover have "xs = us @ p @ vs @ drop n xs" using split by (metis append.assoc append_take_drop_id)
  then have "starts_with p (drop (length us) xs)"
    by (metis append_eq_conv_conj starts_with_iff)
  ultimately show False using find_sub_first [OF n(1)] by blast
qed

lemma render_calls_Cons:
  "render_calls ((shown, body) # pieces) final = shown @ open_tag @ body @ close_tag @ render_calls pieces final"
  by (simp add: render_calls_def)

lemma parse_loop_pieces:
  assumes "parse_loop parse_json names request_id remainder visible calls ids = Inr (v, cs)"
  shows "\<exists>pieces final new.
    remainder = render_calls pieces final \<and> \<not> occurs open_tag final \<and>
    (\<forall>(shown, body) \<in> set pieces. \<not> occurs open_tag shown \<and> \<not> occurs close_tag body) \<and>
    v = visible @ concat (map fst pieces) @ final \<and> cs = calls @ new \<and> length new = length pieces \<and>
    (\<forall>i < length pieces. parse_one parse_json names request_id (length calls + i) (str_trim (snd (pieces ! i))) = Inr (new ! i))"
  using assms
proof (induction "length remainder" arbitrary: remainder visible calls ids rule: less_induct)
  case less
  from less.prems show ?case
  proof (cases rule: parse_loop_cases)
    case finished
    then have "remainder = render_calls [] remainder" "\<not> occurs open_tag remainder"
      by (simp_all add: render_calls_def occurs_def)
    with finished show ?thesis by (intro exI [of _ "[]"] exI [of _ remainder]) simp
  next
    case (call start e call)
    let ?body = "drop (start + length open_tag) remainder"
    let ?rest = "drop (e + length close_tag) ?body"
    have cut: "remainder = take start remainder @ open_tag @ ?body" "?body = take e ?body @ close_tag @ ?rest"
      using find_sub_Some [OF call(1)] find_sub_Some [OF call(2)] by blast+
    have "length ?rest < length remainder" using find_sub_Some [OF call(1), THEN conjunct2] by simp
    from less.hyps [OF this less.prems [unfolded parse_loop_Some [OF call]]] obtain pieces final new where r:
      "?rest = render_calls pieces final" "\<not> occurs open_tag final"
      "\<forall>(shown, body) \<in> set pieces. \<not> occurs open_tag shown \<and> \<not> occurs close_tag body"
      "v = (visible @ take start remainder) @ concat (map fst pieces) @ final"
      "cs = (calls @ [call]) @ new" "length new = length pieces"
      "\<forall>i < length pieces. parse_one parse_json names request_id (length (calls @ [call]) + i)
         (str_trim (snd (pieces ! i))) = Inr (new ! i)"
      by blast
    let ?pieces = "(take start remainder, take e ?body) # pieces"
    have "remainder = render_calls ?pieces final"
      unfolding render_calls_Cons r(1) [symmetric] cut(2) [symmetric] by (rule cut(1))
    moreover have "\<forall>(shown, body) \<in> set ?pieces. \<not> occurs open_tag shown \<and> \<not> occurs close_tag body"
      using r(3) find_sub_before [OF call(1)] find_sub_before [OF call(2)] by simp
    moreover have "\<forall>i < length ?pieces. parse_one parse_json names request_id (length calls + i)
        (str_trim (snd (?pieces ! i))) = Inr ((call # new) ! i)"
      using r(7) call(3) by (auto simp: less_Suc_eq_0_disj)
    moreover have "v = visible @ concat (map fst ?pieces) @ final" "cs = calls @ call # new"
      "length (call # new) = length ?pieces"
      using r(4-6) by simp_all
    ultimately show ?thesis using r(2) by blast
  qed
qed

lemma parse_tool_calls_extracted:
  assumes "parse_tool_calls parse_json raw tools request_id = Inr (visible, calls)"
  shows "extracted parse_json (declared_names tools) request_id raw visible calls"
proof -
  obtain v where "parse_loop parse_json (declared_names tools) request_id raw [] [] {} = Inr (v, calls)"
    and v: "visible = str_trim v"
    using assms by (auto simp: parse_tool_calls_def split: sum.splits)
  from parse_loop_pieces [OF this(1)] v show ?thesis
    unfolding extracted_def by (metis append_Nil list.size(3) plus_nat.add_0)
qed

definition demo_json :: "string \<Rightarrow> string + json_value" where
  "demo_json s =
     (if s = ''{f}'' then Inr (JObject [(''name'', JString ''f''), (''arguments'', JObject [])])
      else Inl ''expected value'')"

theorem tool_calls_extracted_witness:
  "parse_tool_calls demo_json ''Hi <tool_call> {f} </tool_call>!'' [demo_tool ''f''] ''r'' =
   Inr (''Hi !'', [demo_call ''r-0'' ''f''])"
proof -
  have "parse_one demo_json (declared_names [demo_tool ''f'']) ''r'' 0 (str_trim '' {f} '') =
      Inr (demo_call ''r-0'' ''f'')"
    by code_simp
  moreover have "\<not> occurs open_tag ''Hi '' \<and> \<not> occurs close_tag '' {f} '' \<and> \<not> occurs open_tag ''!''"
    by code_simp
  moreover have "str_trim ''Hi !'' = ''Hi !''" by code_simp
  ultimately show ?thesis
    using tool_calls_extracted [of "[(''Hi '', '' {f} '')]" "''!''" "[demo_call ''r-0'' ''f'']" demo_json "[demo_tool ''f'']" "''r''"]
    by (simp add: render_calls_def)
qed

theorem parsed_calls_can_be_answered_witness:
  "validate_tool_history
     [demo_message User [] None,
      \<lparr>cm_role = Assistant, cm_content = ''Hi !'', cm_tool_calls = [demo_call ''r-0'' ''f''], cm_tool_call_id = None\<rparr>,
      \<lparr>cm_role = Tool, cm_content = ''ok'', cm_tool_calls = [], cm_tool_call_id = Some ''r-0''\<rparr>]
     [demo_tool ''f''] = Inr ()"
proof -
  have "parse_tool_calls demo_json ''Hi <tool_call> {f} </tool_call>!'' [demo_tool ''f''] ''r'' =
      Inr (''Hi !'', [demo_call ''r-0'' ''f''])"
    by code_simp
  moreover have "validate_tool_history [demo_message User [] None] [demo_tool ''f''] = Inr ()"
    by code_simp
  ultimately show ?thesis
    using parsed_calls_can_be_answered [of demo_json _ "[demo_tool ''f'']" "''r''" "''Hi !''"
        "[demo_call ''r-0'' ''f'']" "[demo_message User [] None]" "\<lambda>_. ''ok''"]
    by (simp add: tool_results_def demo_call_def)
qed

end
