(* ===== verification/Gguf.thy ===== *)
theory Gguf
  imports Session_Cache Tool_Calls
begin

text \<open>
  Generation with a GGUF model, \<open>crates/decompute-llama/src/runtime.rs\<close>, and the choice of the
  chat template, \<open>templates.rs\<close>. The native llama.cpp library, its tokenizer, contexts and
  sampler are the parameter \<open>llama\<close>, a record of functions. \<open>run\<close> is the surroundings of one
  request: how many cancellation checks it passes, how many pieces of text its client takes,
  and what was delivered.
\<close>

section \<open>The native library\<close>

text \<open>\<open>f32\<close> by its bit pattern; all the sources ask is whether a temperature is positive.\<close>

type_synonym f32 = "32 word"

definition f32_positive :: "f32 \<Rightarrow> bool" where
  "f32_positive x \<longleftrightarrow> 0 < x \<and> x \<le> 0x7F800000"

datatype sampler = Greedy | TempDist f32

text \<open>Sequence 0 of a context is the committed prompt, 1 the generation, 2 the candidate. A
  batch is a list of tokens with their positions and whether logits are asked for, all for
  sequence 1. The sampler sees the tokens it has accepted and the context.\<close>

record ('t, 'c, 'd) llama =
  ll_n_embd :: int
  ll_n_layer :: int
  ll_n_head :: int
  ll_n_head_kv :: int
  ll_str_to_token :: "string \<Rightarrow> string + 't list"
  ll_new_context :: "string + 'c"
  ll_clear_seq :: "nat \<Rightarrow> (nat \<times> nat) option \<Rightarrow> 'c \<Rightarrow> string + 'c"
  ll_copy_seq :: "nat \<Rightarrow> nat \<Rightarrow> 'c \<Rightarrow> string + 'c"
  ll_decode :: "('t \<times> nat \<times> bool) list \<Rightarrow> 'c \<Rightarrow> string + 'c"
  ll_sample :: "sampler \<Rightarrow> 't list \<Rightarrow> 'c \<Rightarrow> 't"
  ll_is_eog :: "'t \<Rightarrow> bool"
  ll_decoder :: 'd
  ll_token_to_piece :: "'t \<Rightarrow> 'd \<Rightarrow> string + (string \<times> 'd)"

definition with_context :: "string \<Rightarrow> string + 'a \<Rightarrow> string + 'a" where
  "with_context message r = (case r of Inl e \<Rightarrow> Inl (message @ '': '' @ e) | Inr x \<Rightarrow> Inr x)"

definition bind_result :: "'e + 'a \<Rightarrow> ('a \<Rightarrow> 'e + 'b) \<Rightarrow> 'e + 'b" where
  "bind_result r f = (case r of Inl e \<Rightarrow> Inl e | Inr x \<Rightarrow> f x)"

section \<open>One request's surroundings\<close>

record run =
  rn_checks :: "nat option"
  rn_client :: "nat option"
  rn_output :: string
  rn_pieces :: "string list"

definition check_cancelled :: "run \<Rightarrow> (string + unit) \<times> run" where
  "check_cancelled r =
     (case rn_checks r of
        None \<Rightarrow> (Inr (), r)
      | Some 0 \<Rightarrow> (Inl ''generation cancelled'', r)
      | Some (Suc n) \<Rightarrow> (Inr (), r\<lparr>rn_checks := Some n\<rparr>))"

definition callback :: "string \<Rightarrow> run \<Rightarrow> (string + unit) \<times> run" where
  "callback piece r =
     (case rn_client r of
        None \<Rightarrow> (Inr (), r\<lparr>rn_pieces := rn_pieces r @ [piece]\<rparr>)
      | Some 0 \<Rightarrow> (Inl ''stream receiver dropped'', r)
      | Some (Suc n) \<Rightarrow> (Inr (), r\<lparr>rn_client := Some n, rn_pieces := rn_pieces r @ [piece]\<rparr>))"

definition position_ok :: "nat \<Rightarrow> bool" where
  "position_ok position \<longleftrightarrow> position < 2 ^ 31"

definition out_of_range :: string where
  "out_of_range = ''out of range integral type conversion attempted''"

section \<open>The generation loop\<close>

text \<open>At most \<open>fuel = max_tokens\<close> rounds. \<open>accepted\<close> are the tokens the sampler has seen.\<close>

fun gen_loop ::
  "('t, 'c, 'd) llama \<Rightarrow> sampler \<Rightarrow> nat \<Rightarrow> nat \<Rightarrow> 't list \<Rightarrow> 'd \<Rightarrow> nat \<Rightarrow> 'c \<Rightarrow> run \<Rightarrow>
   (string + nat \<times> 'c) \<times> run" where
  "gen_loop llama sampler maximum 0 accepted decoder position context r = (Inr (position, context), r)"
| "gen_loop llama sampler maximum (Suc fuel) accepted decoder position context r =
     (case check_cancelled r of
        (Inl e, r) \<Rightarrow> (Inl e, r)
      | (Inr _, r) \<Rightarrow>
          (let token = ll_sample llama sampler accepted context in
           if ll_is_eog llama token then (Inr (position, context), r)
           else (case with_context ''decode GGUF output token'' (ll_token_to_piece llama token decoder) of
              Inl e \<Rightarrow> (Inl e, r)
            | Inr (piece, decoder') \<Rightarrow>
                (let r = r\<lparr>rn_output := rn_output r @ piece\<rparr> in
                 case (if piece \<noteq> [] then callback piece r else (Inr (), r)) of
                   (Inl e, r) \<Rightarrow> (Inl e, r)
                 | (Inr _, r) \<Rightarrow>
                     (case check_cancelled r of
                        (Inl e, r) \<Rightarrow> (Inl e, r)
                      | (Inr _, r) \<Rightarrow>
                          if maximum \<le> position then (Inr (position, context), r)
                          else if \<not> position_ok position
                          then (Inl (''GGUF token position overflow: '' @ out_of_range), r)
                          else (case with_context ''decode generated GGUF token''
                                       (ll_decode llama [(token, position, True)] context) of
                                  Inl e \<Rightarrow> (Inl e, r)
                                | Inr context' \<Rightarrow>
                                    gen_loop llama sampler maximum fuel (accepted @ [token]) decoder'
                                      (position + 1) context' r))))))"

section \<open>Prefilling the prompt\<close>

definition prompt_replay_start :: "nat \<Rightarrow> nat" where
  "prompt_replay_start prefix = prefix - 1"

definition prompt_batch :: "'t list \<Rightarrow> nat \<Rightarrow> ('t \<times> nat \<times> bool) list" where
  "prompt_batch tokens start =
     (let replay = drop start tokens in
      map (\<lambda>(offset, token). (token, start + offset, offset + 1 = length replay)) (List.enumerate 0 replay))"

definition prefill :: "('t, 'c, 'd) llama \<Rightarrow> 't list \<Rightarrow> nat \<Rightarrow> 'c \<Rightarrow> string + 'c" where
  "prefill llama tokens prefix context =
     bind_result (with_context ''clear GGUF generation sequence'' (ll_clear_seq llama 1 None context))
     (\<lambda>context. bind_result
       (if 0 < prefix then with_context ''copy GGUF committed checkpoint'' (ll_copy_seq llama 0 1 context)
        else Inr context)
     (\<lambda>context. let start = prompt_replay_start prefix in
       bind_result
         (if 0 < prefix
          then with_context ''rewind GGUF prompt replay'' (ll_clear_seq llama 1 (Some (start, prefix)) context)
          else Inr context)
     (\<lambda>context.
       if \<not> list_all (\<lambda>(_, position, _). position_ok position) (prompt_batch tokens start)
       then Inl (''GGUF prompt position overflow: '' @ out_of_range)
       else with_context ''prefill GGUF prompt'' (ll_decode llama (prompt_batch tokens start) context))))"

text \<open>The candidate checkpoint: sequence 2 becomes a copy of the prefilled prompt.\<close>

definition checkpoint :: "('t, 'c, 'd) llama \<Rightarrow> 'c \<Rightarrow> string + 'c" where
  "checkpoint llama context =
     bind_result (with_context ''clear GGUF candidate checkpoint'' (ll_clear_seq llama 2 None context))
     (\<lambda>context. with_context ''copy GGUF prompt checkpoint'' (ll_copy_seq llama 1 2 context))"

definition publish :: "('t, 'c, 'd) llama \<Rightarrow> 'c \<Rightarrow> string + 'c" where
  "publish llama context =
     bind_result (with_context ''clear GGUF committed checkpoint'' (ll_clear_seq llama 0 None context))
     (\<lambda>context. with_context ''commit GGUF prompt checkpoint'' (ll_copy_seq llama 2 0 context))"

section \<open>Generation\<close>

record gguf_generation_config =
  gg_max_tokens :: usize
  gg_temperature :: "f32 option"

definition sampler_of :: "f32 option \<Rightarrow> sampler" where
  "sampler_of temperature =
     (case temperature of Some t \<Rightarrow> if f32_positive t then TempDist t else Greedy | None \<Rightarrow> Greedy)"

text \<open>From the chosen context and the length of its usable prefix to the end of generation: the
  final position and context.\<close>

definition run_prompt ::
  "('t, 'c, 'd) llama \<Rightarrow> u32 \<Rightarrow> gguf_generation_config \<Rightarrow> 't list \<Rightarrow> nat \<Rightarrow> 'c \<Rightarrow> run \<Rightarrow>
   (string + nat \<times> 'c) \<times> run" where
  "run_prompt llama context_tokens config tokens prefix context r =
     (case prefill llama tokens prefix context of
        Inl e \<Rightarrow> (Inl e, r)
      | Inr context \<Rightarrow>
          (case check_cancelled r of
             (Inl e, r) \<Rightarrow> (Inl e, r)
           | (Inr _, r) \<Rightarrow>
               (case checkpoint llama context of
                  Inl e \<Rightarrow> (Inl e, r)
                | Inr context \<Rightarrow>
                    gen_loop llama (sampler_of (gg_temperature config)) (unat context_tokens)
                      (unat (gg_max_tokens config)) tokens (ll_decoder llama) (length tokens) context r)))"

text \<open>The lookup: the session's entry is taken out of the cache, and used if its tokens are
  a prefix of the prompt.\<close>

definition take_context ::
  "('t, 'c, 'd) llama \<Rightarrow> uuid option \<Rightarrow> 't list \<Rightarrow> ('t, 'c) cache_state \<Rightarrow>
   (string + 'c \<times> nat) \<times> ('t, 'c) cache_state" where
  "take_context llama session_id tokens s =
     (let fresh = (case with_context ''create GGUF inference context'' (ll_new_context llama) of
                     Inl e \<Rightarrow> Inl e
                   | Inr context \<Rightarrow> Inr (context, 0));
          cacheable = prompt_is_cacheable (cs_config s) session_id tokens in
      case (if cacheable then map_of (cs_cache s) (the session_id) else None) of
        Some entry \<Rightarrow>
          (let s = s\<lparr>cs_cache := AList.delete (the session_id) (cs_cache s)\<rparr> in
           if starts_with (ce_tokens entry) tokens
           then (Inr (ce_context entry, length (ce_tokens entry)), bump increment_hits s)
           else (fresh, bump increment_misses s))
      | None \<Rightarrow> (fresh, if cacheable then bump increment_misses s else s))"

text \<open>Publication after a complete generation; whether the entry was committed.\<close>

definition commit_context ::
  "('t, 'c, 'd) llama \<Rightarrow> u32 \<Rightarrow> instant \<Rightarrow> uuid \<Rightarrow> 't list \<Rightarrow> 'c \<Rightarrow> ('t, 'c) cache_state \<Rightarrow>
   (string + bool) \<times> ('t, 'c) cache_state" where
  "commit_context llama context_tokens now session_id tokens context s =
     (let bytes = estimated_cache_bytes context_tokens (ll_n_embd llama) (ll_n_layer llama)
                    (ll_n_head llama) (ll_n_head_kv llama);
          config = cs_config s in
      if 0 < sc_max_bytes config \<and> sc_max_bytes config < bytes then (Inr False, s)
      else (let s = evict bytes s in
            case publish llama context of
              Inl e \<Rightarrow> (Inl e, s)
            | Inr context \<Rightarrow>
                (Inr True, s\<lparr>cs_cache := AList.update session_id
                   \<lparr>ce_context = context, ce_tokens = tokens, ce_bytes = bytes, ce_last_used = now\<rparr>
                   (cs_cache s)\<rparr>)))"

text \<open>\<open>CacheReuseGuard\<close>: a reused entry that is not committed again counts as invalidated.\<close>

definition reuse_guard :: "bool \<Rightarrow> bool \<Rightarrow> ('t, 'c) cache_state \<Rightarrow> ('t, 'c) cache_state" where
  "reuse_guard reused committed s =
     (if reused \<and> \<not> committed then bump increment_invalidations s else s)"

definition result_of :: "run \<Rightarrow> 't list \<Rightarrow> nat \<Rightarrow> generation_result" where
  "result_of r tokens position =
     \<lparr>gt_text = rn_output r, gt_input_tokens = of_nat (length tokens),
      gt_output_tokens = of_nat (position - length tokens), gt_tool_calls = [], gt_finish_reason = Stop\<rparr>"

definition gguf_generate ::
  "('t, 'c, 'd) llama \<Rightarrow> u32 \<Rightarrow> instant \<Rightarrow> string \<Rightarrow> uuid option \<Rightarrow> gguf_generation_config \<Rightarrow> run \<Rightarrow>
   ('t, 'c) cache_state \<Rightarrow> (string + generation_result) \<times> run \<times> ('t, 'c) cache_state" where
  "gguf_generate llama context_tokens now prompt session_id config r s =
     (case check_cancelled r of
        (Inl e, r) \<Rightarrow> (Inl e, r, s)
      | (Inr _, r) \<Rightarrow>
     (case with_context ''tokenize GGUF prompt'' (ll_str_to_token llama prompt) of
        Inl e \<Rightarrow> (Inl e, r, s)
      | Inr tokens \<Rightarrow>
          if tokens = [] then (Inl ''GGUF prompt tokenized to zero tokens'', r, s)
          else
          (let cacheable = prompt_is_cacheable (cs_config s) session_id tokens;
               s = (if cacheable then s else bump increment_misses s) in
           if unat context_tokens \<le> length tokens
           then (Inl (''GGUF prompt has '' @ show_nat (length tokens) @ '' tokens but context capacity is '' @
                      show_nat (unat context_tokens)), r, s)
           else
           (case take_context llama session_id tokens (expire_idle now s) of
              (Inl e, s) \<Rightarrow> (Inl e, r, s)
            | (Inr (context, prefix), s) \<Rightarrow>
                (case run_prompt llama context_tokens config tokens prefix context r of
                   (Inl e, r) \<Rightarrow> (Inl e, r, reuse_guard (0 < prefix) False s)
                 | (Inr (position, context), r) \<Rightarrow>
                     (case (if cacheable
                            then commit_context llama context_tokens now (the session_id) tokens context s
                            else (Inr False, s)) of
                        (Inl e, s) \<Rightarrow> (Inl e, r, reuse_guard (0 < prefix) False s)
                      | (Inr committed, s) \<Rightarrow>
                          (Inr (result_of r tokens position), r, reuse_guard (0 < prefix) committed s)))))))"

section \<open>Chat\<close>

text \<open>The fixed parts of a loaded model: template names, whether the architecture is Qwen, and
  the renderers and parsers of the libraries.\<close>

record chat_model =
  ch_names :: "string list"
  ch_qwen :: bool
  ch_render :: "string \<Rightarrow> chat_message list \<Rightarrow> tool_definition list \<Rightarrow> string + string"
  ch_render_embedded :: "chat_message list \<Rightarrow> string + string"
  ch_parse_json :: "string \<Rightarrow> string + json_value"
  ch_show_uuid :: "uuid \<Rightarrow> string"

definition is_qwen :: "string \<Rightarrow> bool" where
  "is_qwen architecture \<longleftrightarrow> starts_with ''qwen'' (to_ascii_lowercase architecture)"

definition select_template :: "string list \<Rightarrow> bool \<Rightarrow> string option \<Rightarrow> bool \<Rightarrow> string + string option" where
  "select_template names qwen requested has_tools =
     (case requested of
        Some name \<Rightarrow>
          if name \<in> set names then Inr (Some name)
          else Inl (''unknown template '' @ str_debug name @ ''; available overrides: '' @ str_join '', '' names)
      | None \<Rightarrow>
          if has_tools
          then (if qwen then Inr (Some ''qwen-tools'')
                else Inl ''this GGUF model has tools but no tool-aware template; provide a named override'')
          else Inr None)"

definition render_chat ::
  "chat_model \<Rightarrow> chat_message list \<Rightarrow> tool_definition list \<Rightarrow> string option \<Rightarrow> string + string" where
  "render_chat m messages tools requested =
     (case select_template (ch_names m) (ch_qwen m) requested (tools \<noteq> []) of
        Inl e \<Rightarrow> Inl e
      | Inr (Some template) \<Rightarrow> ch_render m template messages tools
      | Inr None \<Rightarrow> ch_render_embedded m messages)"

definition invalidate_session :: "uuid option \<Rightarrow> ('t, 'c) cache_state \<Rightarrow> ('t, 'c) cache_state" where
  "invalidate_session session_id s =
     (case session_id of
        None \<Rightarrow> s
      | Some i \<Rightarrow>
          (case map_of (cs_cache s) i of
             None \<Rightarrow> s
           | Some _ \<Rightarrow> bump increment_invalidations (s\<lparr>cs_cache := AList.delete i (cs_cache s)\<rparr>)))"

text \<open>With tools the text is held back until its tool calls are parsed: the pieces go to the
  buffer \<open>deferred\<close>, which never refuses one, and only the visible text to the client.\<close>

definition generate_chat ::
  "chat_model \<Rightarrow> ('t, 'c, 'd) llama \<Rightarrow> u32 \<Rightarrow> instant \<Rightarrow> chat_message list \<Rightarrow> tool_definition list \<Rightarrow>
   string option \<Rightarrow> uuid option \<Rightarrow> uuid \<Rightarrow> gguf_generation_config \<Rightarrow> run \<Rightarrow> ('t, 'c) cache_state \<Rightarrow>
   (string + generation_result) \<times> run \<times> ('t, 'c) cache_state" where
  "generate_chat m llama context_tokens now messages tools requested session_id request_id config r s =
     (if tools \<noteq> [] \<and> \<not> ch_qwen m
      then (Inl ''tool-call parsing is currently implemented for Qwen GGUF models only'', r, s)
      else (case render_chat m messages tools requested of
         Inl e \<Rightarrow> (Inl e, r, s)
       | Inr prompt \<Rightarrow>
           if tools = []
           then gguf_generate llama context_tokens now prompt session_id config r s
           else (case gguf_generate llama context_tokens now prompt session_id config
                        (r\<lparr>rn_client := None, rn_pieces := []\<rparr>) s of
              (Inl e, captured, s) \<Rightarrow> (Inl e, captured\<lparr>rn_client := rn_client r, rn_pieces := rn_pieces r\<rparr>, s)
            | (Inr generated, captured, s) \<Rightarrow>
                (let deferred = concat (rn_pieces captured);
                     r' = captured\<lparr>rn_client := rn_client r, rn_pieces := rn_pieces r\<rparr> in
                 case parse_tool_calls (ch_parse_json m) deferred tools (ch_show_uuid m request_id) of
                   Inl e \<Rightarrow> (Inl e, r', invalidate_session session_id s)
                 | Inr (shown, calls) \<Rightarrow>
                     (case (if shown \<noteq> [] then callback shown r' else (Inr (), r')) of
                        (Inl e, r') \<Rightarrow> (Inl e, r', s)
                      | (Inr _, r') \<Rightarrow>
                          (Inr (generated\<lparr>gt_text := shown,
                             gt_finish_reason := (if calls = [] then Stop else ToolCalls),
                             gt_tool_calls := calls\<rparr>), r', s))))))"

section \<open>What the native library is relied on for\<close>

text \<open>
  \<open>kv c q\<close> are the tokens sequence \<open>q\<close> of a context holds, by position, and \<open>logits c\<close> the tokens
  of the sequence whose last token the last logits are for. As llama.cpp documents its operations: a new
  context holds nothing, clearing removes positions from a sequence, copying adds the cells of one sequence
  to another, and decoding appends a batch that starts at the next position and leaves logits
  for the token they were asked for. Nothing is assumed about the logits themselves or the sampler: the
  same tokens may well give other logits in another batch or next to other sequences.
\<close>

definition kv_laws ::
  "('t, 'c, 'd) llama \<Rightarrow> ('c \<Rightarrow> nat \<Rightarrow> 't list) \<Rightarrow> ('c \<Rightarrow> 't list option) \<Rightarrow> bool" where
  "kv_laws llama kv logits \<longleftrightarrow>
     (\<forall>c q. ll_new_context llama = Inr c \<longrightarrow> kv c q = []) \<and>
     (\<forall>q c c'. ll_clear_seq llama q None c = Inr c' \<longrightarrow> kv c' = (kv c)(q := []) \<and> logits c' = logits c) \<and>
     (\<forall>q a c c'. ll_clear_seq llama q (Some (a, length (kv c q))) c = Inr c' \<longrightarrow>
        kv c' = (kv c)(q := take a (kv c q)) \<and> logits c' = logits c) \<and>
     (\<forall>p q c c'. ll_copy_seq llama p q c = Inr c' \<and> kv c q = [] \<longrightarrow>
        kv c' = (kv c)(q := kv c p) \<and> logits c' = logits c) \<and>
     (\<forall>tokens start c c'. ll_decode llama (prompt_batch tokens start) c = Inr c' \<and>
        kv c 1 = take start tokens \<and> start < length tokens \<longrightarrow>
        kv c' = (kv c)(1 := tokens) \<and> logits c' = Some tokens)"

lemma kv_lawsD:
  assumes "kv_laws llama kv logits"
  shows "ll_new_context llama = Inr c \<Longrightarrow> kv c q = []"
    and "ll_clear_seq llama q None c = Inr c' \<Longrightarrow> kv c' = (kv c)(q := []) \<and> logits c' = logits c"
    and "ll_clear_seq llama q (Some (a, length (kv c q))) c = Inr c' \<Longrightarrow>
      kv c' = (kv c)(q := take a (kv c q)) \<and> logits c' = logits c"
    and "ll_copy_seq llama p q c = Inr c' \<Longrightarrow> kv c q = [] \<Longrightarrow> kv c' = (kv c)(q := kv c p) \<and> logits c' = logits c"
    and "ll_decode llama (prompt_batch tokens start) c = Inr c' \<Longrightarrow> kv c 1 = take start tokens \<Longrightarrow>
      start < length tokens \<Longrightarrow> kv c' = (kv c)(1 := tokens) \<and> logits c' = Some tokens"
  using assms unfolding kv_laws_def by - (elim conjE, metis)+

text \<open>
  A sampler that agrees with the library's wherever the context is exact: sequence 1 holds exactly the
  accepted tokens, and the logits are those for the last of them. Elsewhere it may return anything.
\<close>

definition agrees_when_exact ::
  "('t, 'c, 'd) llama \<Rightarrow> ('c \<Rightarrow> nat \<Rightarrow> 't list) \<Rightarrow> ('c \<Rightarrow> 't list option) \<Rightarrow> (sampler \<Rightarrow> 't list \<Rightarrow> 'c \<Rightarrow> 't) \<Rightarrow> bool" where
  "agrees_when_exact llama kv logits sample \<longleftrightarrow>
     (\<forall>smp accepted c. kv c 1 = accepted \<and> logits c = Some accepted \<longrightarrow>
        sample smp accepted c = ll_sample llama smp accepted c)"

lemma bind_result_Inr [simp]: "bind_result r f = Inr y \<longleftrightarrow> (\<exists>x. r = Inr x \<and> f x = Inr y)"
  by (cases r) (simp_all add: bind_result_def)

lemma with_context_Inr [simp]: "with_context m r = Inr x \<longleftrightarrow> r = Inr x"
  by (cases r) (simp_all add: with_context_def)

lemma prefill_kv:
  assumes laws: "kv_laws llama kv logits" and "prefill llama tokens prefix c = Inr c'"
    and "prefix = 0 \<or> kv c 0 = take prefix tokens" and "prefix \<le> length tokens" and "tokens \<noteq> []"
  shows "kv c' 1 = tokens \<and> logits c' = Some tokens"
proof -
  let ?start = "prompt_replay_start prefix"
  obtain c1 c2 c3 where c1: "ll_clear_seq llama 1 None c = Inr c1"
    and c2: "(if 0 < prefix then ll_copy_seq llama 0 1 c1 else Inr c1) = Inr c2"
    and c3: "(if 0 < prefix then ll_clear_seq llama 1 (Some (?start, prefix)) c2 else Inr c2) = Inr c3"
    and c4: "ll_decode llama (prompt_batch tokens ?start) c3 = Inr c'"
    using assms(2) by (auto simp: prefill_def Let_def split: if_splits)
  note kv1 = kv_lawsD(2) [OF laws c1]
  have "kv c3 1 = take ?start tokens"
  proof (cases "prefix = 0")
    case True
    with kv1 c2 c3 show ?thesis by (simp add: prompt_replay_start_def)
  next
    case False
    with c2 kv1 have "kv c2 = (kv c1)(1 := kv c1 0)"
      using kv_lawsD(4) [OF laws, of 0 1 c1 c2] by simp
    with kv1 False assms(3) have kv2: "kv c2 1 = take prefix tokens" by simp
    with assms(4) have "length (kv c2 1) = prefix" by simp
    with c3 False have "kv c3 = (kv c2)(1 := take ?start (kv c2 1))"
      using kv_lawsD(3) [OF laws, of 1 ?start c2 c3] by simp
    with kv2 show ?thesis by (simp add: prompt_replay_start_def min_def)
  qed
  moreover have "?start < length tokens"
    using assms(4,5) by (cases prefix) (auto simp: prompt_replay_start_def)
  ultimately show ?thesis
    using kv_lawsD(5) [OF laws c4] by simp
qed

lemma checkpoint_kv:
  assumes laws: "kv_laws llama kv logits" and "checkpoint llama c = Inr c'"
  shows "kv c' 1 = kv c 1 \<and> kv c' 2 = kv c 1 \<and> logits c' = logits c"
proof -
  obtain c1 where c1: "ll_clear_seq llama 2 None c = Inr c1" and c2: "ll_copy_seq llama 1 2 c1 = Inr c'"
    using assms(2) by (auto simp: checkpoint_def)
  show ?thesis
    using kv_lawsD(2) [OF laws c1] kv_lawsD(4) [OF laws c2] by simp
qed

lemma publish_kv:
  assumes laws: "kv_laws llama kv logits" and "publish llama c = Inr c'"
  shows "kv c' 0 = kv c 2"
proof -
  obtain c1 where c1: "ll_clear_seq llama 0 None c = Inr c1" and c2: "ll_copy_seq llama 2 0 c1 = Inr c'"
    using assms(2) by (auto simp: publish_def)
  show ?thesis
    using kv_lawsD(2) [OF laws c1] kv_lawsD(4) [OF laws c2] by simp
qed

lemma single_batch: "prompt_batch (tokens @ [t]) (length tokens) = [(t, length tokens, True)]"
  by (simp add: prompt_batch_def)

section \<open>The loop\<close>

lemma gen_loop_Suc_cases:
  assumes "gen_loop llama sampler maximum (Suc fuel) accepted decoder position c r = (Inr (position', c'), r')"
  obtains (eog) r1 where "check_cancelled r = (Inr (), r1)"
      "ll_is_eog llama (ll_sample llama sampler accepted c)" "position' = position" "c' = c" "r' = r1"
  | (full) r1 r2 piece decoder' where "check_cancelled r = (Inr (), r1)"
      "\<not> ll_is_eog llama (ll_sample llama sampler accepted c)"
      "ll_token_to_piece llama (ll_sample llama sampler accepted c) decoder = Inr (piece, decoder')"
      "(let r = r1\<lparr>rn_output := rn_output r1 @ piece\<rparr> in
        if piece \<noteq> [] then callback piece r else (Inr (), r)) = (Inr (), r2)"
      "check_cancelled r2 = (Inr (), r')" "maximum \<le> position" "position' = position" "c' = c"
  | (more) r1 r2 r3 piece decoder' c1 where "check_cancelled r = (Inr (), r1)"
      "\<not> ll_is_eog llama (ll_sample llama sampler accepted c)"
      "ll_token_to_piece llama (ll_sample llama sampler accepted c) decoder = Inr (piece, decoder')"
      "(let r = r1\<lparr>rn_output := rn_output r1 @ piece\<rparr> in
        if piece \<noteq> [] then callback piece r else (Inr (), r)) = (Inr (), r2)"
      "check_cancelled r2 = (Inr (), r3)" "\<not> maximum \<le> position" "position_ok position"
      "ll_decode llama [(ll_sample llama sampler accepted c, position, True)] c = Inr c1"
      "gen_loop llama sampler maximum fuel (accepted @ [ll_sample llama sampler accepted c]) decoder'
         (position + 1) c1 r3 = (Inr (position', c'), r')"
proof -
  note eq = assms [unfolded gen_loop.simps(2)]
  obtain r1 where r1: "check_cancelled r = (Inr (), r1)"
    using eq by (cases "check_cancelled r"; cases "fst (check_cancelled r)") auto
  let ?token = "ll_sample llama sampler accepted c"
  show ?thesis
  proof (cases "ll_is_eog llama ?token")
    case True
    with eq r1 show ?thesis by (intro eog) auto
  next
    case False
    obtain piece decoder' where piece: "ll_token_to_piece llama ?token decoder = Inr (piece, decoder')"
      using eq r1 False
      by (cases "ll_token_to_piece llama ?token decoder") (auto simp: with_context_def)
    let ?cb = "(let r = r1\<lparr>rn_output := rn_output r1 @ piece\<rparr> in
        if piece \<noteq> [] then callback piece r else (Inr (), r))"
    obtain r2 where r2: "?cb = (Inr (), r2)"
      using eq r1 False piece
      by (cases ?cb; cases "fst ?cb") (auto simp: with_context_def Let_def split: if_splits)
    obtain r3 where r3: "check_cancelled r2 = (Inr (), r3)"
      using eq r1 False piece r2
      by (cases "check_cancelled r2"; cases "fst (check_cancelled r2)") (auto simp: with_context_def Let_def)
    show ?thesis
    proof (cases "maximum \<le> position")
      case True
      with eq r1 False piece r2 r3 show ?thesis
        by (intro full [of r1 piece decoder' r2]) (auto simp: with_context_def Let_def)
    next
      case below: False
      have ok: "position_ok position"
        using eq r1 False piece r2 r3 below by (auto simp: with_context_def Let_def split: if_splits)
      obtain c1 where c1: "ll_decode llama [(?token, position, True)] c = Inr c1"
        using eq r1 False piece r2 r3 below ok
        by (cases "ll_decode llama [(?token, position, True)] c") (auto simp: with_context_def Let_def)
      show ?thesis
        using eq r1 False piece r2 r3 below ok c1
        by (intro more [of r1 piece decoder' r2 r3 c1]) (auto simp: with_context_def Let_def)
    qed
  qed
qed

lemma gen_loop_bounds:
  "gen_loop llama sampler maximum fuel accepted decoder position c r = (Inr (position', c'), r') \<Longrightarrow>
   position \<le> position' \<and> position' \<le> position + fuel \<and> (position \<le> maximum \<longrightarrow> position' \<le> maximum)"
proof (induction fuel arbitrary: accepted decoder position c r)
  case (Suc fuel)
  from Suc.prems show ?case
    by (cases rule: gen_loop_Suc_cases) (auto dest!: Suc.IH)
qed simp

lemma decode_one:
  assumes "kv_laws llama kv logits" "ll_decode llama [(token, position, True)] c = Inr c'"
    "length (kv c 1) = position"
  shows "kv c' = (kv c)(1 := kv c 1 @ [token]) \<and> logits c' = Some (kv c 1 @ [token])"
proof -
  have "[(token, position, True)] = prompt_batch (kv c 1 @ [token]) (length (kv c 1))"
    using single_batch [of "kv c 1" token] assms(3) by simp
  then show ?thesis
    using kv_lawsD(5) [OF assms(1), of "kv c 1 @ [token]" "length (kv c 1)" c c'] assms(2) by simp
qed

lemma gen_loop_candidate:
  "kv_laws llama kv logits \<Longrightarrow> length (kv c 1) = position \<Longrightarrow>
   gen_loop llama sampler maximum fuel accepted decoder position c r = (Inr (position', c'), r') \<Longrightarrow>
   kv c' 2 = kv c 2"
proof (induction fuel arbitrary: accepted decoder position c r)
  case (Suc fuel)
  from Suc.prems(3) show ?case
  proof (cases rule: gen_loop_Suc_cases)
    case (more r1 r2 r3 piece decoder' c1)
    note one = decode_one [OF Suc.prems(1) more(8) Suc.prems(2)]
    then have "kv c' 2 = kv c1 2" using Suc.IH [OF Suc.prems(1) _ more(9)] Suc.prems(2) by simp
    with one show ?thesis by simp
  qed auto
qed auto

text \<open>The loop only samples from exact contexts, so a sampler that differs elsewhere is not noticed.\<close>

lemma gen_loop_exact:
  assumes laws: "kv_laws llama kv logits" and agrees: "agrees_when_exact llama kv logits sample"
  shows "kv c 1 = accepted \<Longrightarrow> logits c = Some accepted \<Longrightarrow> length accepted = position \<Longrightarrow>
   gen_loop (llama\<lparr>ll_sample := sample\<rparr>) sampler maximum fuel accepted decoder position c r =
   gen_loop llama sampler maximum fuel accepted decoder position c r"
proof (induction fuel arbitrary: accepted decoder position c r)
  case (Suc fuel)
  let ?token = "ll_sample llama sampler accepted c"
  have token: "sample sampler accepted c = ?token"
    using agrees Suc.prems(1,2) unfolding agrees_when_exact_def by blast
  have rest: "gen_loop (llama\<lparr>ll_sample := sample\<rparr>) sampler maximum fuel (accepted @ [?token]) d (Suc position) c1 q =
      gen_loop llama sampler maximum fuel (accepted @ [?token]) d (Suc position) c1 q"
    if "ll_decode llama [(?token, position, True)] c = Inr c1" for c1 d q
    using decode_one [OF laws that] Suc.prems by (intro Suc.IH) simp_all
  show ?case
    by (auto simp: token with_context_def Let_def rest split: prod.split sum.split)
qed simp

lemma run_prompt_cases:
  assumes "run_prompt llama context_tokens config tokens prefix c r = (Inr (position, c'), r')"
  obtains c1 r1 c2 where "prefill llama tokens prefix c = Inr c1" "check_cancelled r = (Inr (), r1)"
    "checkpoint llama c1 = Inr c2"
    "gen_loop llama (sampler_of (gg_temperature config)) (unat context_tokens)
       (unat (gg_max_tokens config)) tokens (ll_decoder llama) (length tokens) c2 r1 = (Inr (position, c'), r')"
proof -
  note eq = assms [unfolded run_prompt_def]
  obtain c1 where c1: "prefill llama tokens prefix c = Inr c1"
    using eq by (cases "prefill llama tokens prefix c") auto
  obtain r1 where r1: "check_cancelled r = (Inr (), r1)"
    using eq c1 by (cases "check_cancelled r"; cases "fst (check_cancelled r)") auto
  obtain c2 where c2: "checkpoint llama c1 = Inr c2"
    using eq c1 r1 by (cases "checkpoint llama c1") auto
  show ?thesis
    by (rule that [OF c1 r1 c2]) (use eq c1 r1 c2 in simp)
qed

definition usable :: "('c \<Rightarrow> nat \<Rightarrow> 't list) \<Rightarrow> 't list \<Rightarrow> nat \<Rightarrow> 'c \<Rightarrow> bool" where
  "usable kv tokens prefix c \<longleftrightarrow>
     tokens \<noteq> [] \<and> prefix \<le> length tokens \<and> (prefix = 0 \<or> kv c 0 = take prefix tokens)"

lemma run_prompt_start:
  assumes laws: "kv_laws llama kv logits" and "usable kv tokens p c"
    and "prefill llama tokens p c = Inr c1" "checkpoint llama c1 = Inr c2"
  shows "kv c2 1 = tokens" "kv c2 2 = tokens" "logits c2 = Some tokens"
  using assms(2) prefill_kv [OF laws assms(3)] checkpoint_kv [OF laws assms(4)] by (auto simp: usable_def)

lemma run_prompt_candidate:
  assumes laws: "kv_laws llama kv logits" and "usable kv tokens p c"
    and "run_prompt llama context_tokens config tokens p c r = (Inr (position, c'), r')"
  shows "kv c' 2 = tokens"
proof -
  from assms(3) obtain c1 ra c2 where run: "prefill llama tokens p c = Inr c1" "checkpoint llama c1 = Inr c2"
    "gen_loop llama (sampler_of (gg_temperature config)) (unat context_tokens)
       (unat (gg_max_tokens config)) tokens (ll_decoder llama) (length tokens) c2 ra = (Inr (position, c'), r')"
    by (rule run_prompt_cases)
  note start = run_prompt_start [OF laws assms(2) run(1,2)]
  show ?thesis using gen_loop_candidate [OF laws _ run(3)] start by simp
qed

lemma same_library:
  "ll_clear_seq (llama\<lparr>ll_sample := f\<rparr>) = ll_clear_seq llama" "ll_copy_seq (llama\<lparr>ll_sample := f\<rparr>) = ll_copy_seq llama"
  "ll_decode (llama\<lparr>ll_sample := f\<rparr>) = ll_decode llama" "ll_new_context (llama\<lparr>ll_sample := f\<rparr>) = ll_new_context llama"
  "ll_n_embd (llama\<lparr>ll_sample := f\<rparr>) = ll_n_embd llama" "ll_n_layer (llama\<lparr>ll_sample := f\<rparr>) = ll_n_layer llama"
  "ll_n_head (llama\<lparr>ll_sample := f\<rparr>) = ll_n_head llama" "ll_n_head_kv (llama\<lparr>ll_sample := f\<rparr>) = ll_n_head_kv llama"
  by simp_all

lemma other_sampler [simp]:
  "prefill (llama\<lparr>ll_sample := f\<rparr>) tokens prefix c = prefill llama tokens prefix c"
  "checkpoint (llama\<lparr>ll_sample := f\<rparr>) c = checkpoint llama c"
  "take_context (llama\<lparr>ll_sample := f\<rparr>) session_id tokens s = take_context llama session_id tokens s"
  "commit_context (llama\<lparr>ll_sample := f\<rparr>) context_tokens now sid tokens c s =
     commit_context llama context_tokens now sid tokens c s"
  unfolding prefill_def checkpoint_def take_context_def commit_context_def publish_def same_library by (rule refl)+

lemma run_prompt_exact:
  assumes "kv_laws llama kv logits" and "agrees_when_exact llama kv logits sample" and "usable kv tokens p c"
  shows "run_prompt (llama\<lparr>ll_sample := sample\<rparr>) context_tokens config tokens p c r =
    run_prompt llama context_tokens config tokens p c r"
  using gen_loop_exact [OF assms(1,2)] run_prompt_start [OF assms(1,3)]
  by (auto simp: run_prompt_def split: sum.split prod.split)

section \<open>No generation sees another one's tokens\<close>

definition entries_ok :: "('c \<Rightarrow> nat \<Rightarrow> 't list) \<Rightarrow> ('t, 'c) cache_state \<Rightarrow> bool" where
  "entries_ok kv s \<longleftrightarrow> (\<forall>e \<in> set (al_values (cs_cache s)). kv (ce_context e) 0 = ce_tokens e)"

lemma bump_frame [simp]:
  "cs_cache (bump f s) = cs_cache s" "cs_config (bump f s) = cs_config s"
  "cs_stats (bump f s) = map_option f (cs_stats s)"
  by (simp_all add: bump_def)

lemma reuse_guard_frame [simp]:
  "cs_cache (reuse_guard b c s) = cs_cache s" "cs_config (reuse_guard b c s) = cs_config s"
  by (simp_all add: reuse_guard_def)

lemma expire_idle_frame [simp]:
  "cs_config (expire_idle now s) = cs_config s"
  "cs_cache (expire_idle now s) = al_retain (\<lambda>_ entry. \<not> is_idle (cs_config s) now entry) (cs_cache s)"
  by (simp_all add: expire_idle_def Let_def)

lemma al_retain_subset: "set (al_retain P m) \<subseteq> set m"
  by (auto simp: al_retain_def)

lemma entries_ok_subset:
  "entries_ok kv s \<Longrightarrow> set (cs_cache t) \<subseteq> set (cs_cache s) \<Longrightarrow> entries_ok kv t"
  by (auto simp: entries_ok_def)

lemma entries_ok_bump [simp]: "entries_ok kv (bump f s) = entries_ok kv s"
  by (simp add: entries_ok_def)

lemma entries_ok_expire: "entries_ok kv s \<Longrightarrow> entries_ok kv (expire_idle now s)"
  by (rule entries_ok_subset) (auto simp: al_retain_def)

lemma take_context_cache:
  "cs_config (snd (take_context llama session_id tokens s)) = cs_config s \<and>
   (set (cs_cache (snd (take_context llama session_id tokens s))) \<subseteq> set (cs_cache s)) \<and>
   (distinct (al_keys (cs_cache s)) \<longrightarrow>
      distinct (al_keys (cs_cache (snd (take_context llama session_id tokens s))))) \<and>
   (prompt_is_cacheable (cs_config s) session_id tokens \<longrightarrow>
      the session_id \<notin> set (al_keys (cs_cache (snd (take_context llama session_id tokens s))))) \<and>
   (\<exists>P. cs_cache (snd (take_context llama session_id tokens s)) = filter P (cs_cache s))"
proof (cases "if prompt_is_cacheable (cs_config s) session_id tokens
    then map_of (cs_cache s) (the session_id) else None")
  case None
  then show ?thesis
    using map_of_al_keys [of "cs_cache s" "the session_id"]
    by (auto simp: take_context_def Let_def split: if_splits intro: exI [of _ "\<lambda>_. True"])
next
  case (Some entry)
  then have "cs_cache (snd (take_context llama session_id tokens s)) =
      filter (\<lambda>e. fst e \<noteq> the session_id) (cs_cache s)"
    and "cs_config (snd (take_context llama session_id tokens s)) = cs_config s"
    by (simp_all add: take_context_def Let_def delete_filter)
  then show ?thesis by (auto simp: distinct_map_filter)
qed

lemma take_context_usable:
  assumes "kv_laws llama kv logits" "entries_ok kv s" "tokens \<noteq> []"
    and "take_context llama session_id tokens s = (Inr (c, prefix), s')"
  shows "usable kv tokens prefix c"
proof (cases "if prompt_is_cacheable (cs_config s) session_id tokens
    then map_of (cs_cache s) (the session_id) else None")
  case None
  with assms(3,4) show ?thesis
    by (auto simp: take_context_def Let_def usable_def with_context_def split: sum.splits)
next
  case (Some entry)
  then have "entry \<in> set (al_values (cs_cache s))"
    by (force dest: map_of_SomeD split: if_splits)
  then have "kv (ce_context entry) 0 = ce_tokens entry" using assms(2) unfolding entries_ok_def by blast
  with Some assms(3,4) show ?thesis
    by (auto simp: take_context_def Let_def usable_def with_context_def starts_with_iff split: sum.splits if_splits)
qed

lemma gguf_generate_cases:
  assumes "gguf_generate llama context_tokens now prompt session_id config r s = (Inr res, r', s')"
  obtains tokens r1 c prefix sx position c' committed sy where
    "check_cancelled r = (Inr (), r1)" "ll_str_to_token llama prompt = Inr tokens" "tokens \<noteq> []"
    "length tokens < unat context_tokens"
    "take_context llama session_id tokens (expire_idle now
       (if prompt_is_cacheable (cs_config s) session_id tokens then s else bump increment_misses s)) =
       (Inr (c, prefix), sx)"
    "run_prompt llama context_tokens config tokens prefix c r1 = (Inr (position, c'), r')"
    "(if prompt_is_cacheable (cs_config s) session_id tokens
      then commit_context llama context_tokens now (the session_id) tokens c' sx
      else (Inr False, sx)) = (Inr committed, sy)"
    "res = result_of r' tokens position" "s' = reuse_guard (0 < prefix) committed sy"
proof -
  note eq = assms [unfolded gguf_generate_def]
  obtain r1 where r1: "check_cancelled r = (Inr (), r1)"
    using eq by (cases "check_cancelled r"; cases "fst (check_cancelled r)") auto
  obtain tokens where tokens: "ll_str_to_token llama prompt = Inr tokens"
    using eq r1 by (cases "ll_str_to_token llama prompt") (auto simp: with_context_def)
  have size: "tokens \<noteq> []" "length tokens < unat context_tokens"
    using eq r1 tokens by (auto simp: with_context_def Let_def not_le split: if_splits)
  let ?sel = "take_context llama session_id tokens (expire_idle now
       (if prompt_is_cacheable (cs_config s) session_id tokens then s else bump increment_misses s))"
  note eq1 = eq [unfolded r1 tokens with_context_def Let_def prod.case sum.case, simplified size if_False]
  obtain c prefix sx where sel: "?sel = (Inr (c, prefix), sx)"
    using eq1 size by (cases ?sel; cases "fst ?sel") auto
  obtain position c' where run: "run_prompt llama context_tokens config tokens prefix c r1 = (Inr (position, c'), r')"
    using eq1 size sel
    by (cases "run_prompt llama context_tokens config tokens prefix c r1";
        cases "fst (run_prompt llama context_tokens config tokens prefix c r1)") (auto split: prod.splits sum.splits)
  let ?commit = "if prompt_is_cacheable (cs_config s) session_id tokens
      then commit_context llama context_tokens now (the session_id) tokens c' sx else (Inr False, sx)"
  obtain committed sy where commit: "?commit = (Inr committed, sy)"
    using eq1 size sel run by (cases ?commit; cases "fst ?commit") auto
  show ?thesis
    by (rule that [OF r1 tokens size sel run commit]) (use eq1 size sel run commit in auto)
qed

text \<open>
  With sound entries in the cache, a generation is the same, its outcome and the cache after it, with
  every sampler that agrees with the library's on exact contexts.
\<close>

lemma gguf_generate_exact:
  assumes "kv_laws llama kv logits" and "agrees_when_exact llama kv logits sample" and "entries_ok kv s"
  shows "gguf_generate (llama\<lparr>ll_sample := sample\<rparr>) context_tokens now prompt session_id config r s =
    gguf_generate llama context_tokens now prompt session_id config r s"
proof -
  obtain ch r1 where check: "check_cancelled r = (ch, r1)" by fastforce
  show ?thesis
  proof (cases "ch = Inr () \<and> (\<exists>tokens. ll_str_to_token llama prompt = Inr tokens \<and> tokens \<noteq> [] \<and>
      length tokens < unat context_tokens)")
    case False
    with check show ?thesis
      by (cases ch; cases "ll_str_to_token llama prompt")
        (auto simp: gguf_generate_def with_context_def Let_def not_less)
  next
    case True
    then obtain tokens where tokens: "ch = Inr ()" "ll_str_to_token llama prompt = Inr tokens" "tokens \<noteq> []"
      "length tokens < unat context_tokens" by blast
    let ?s = "expire_idle now (if prompt_is_cacheable (cs_config s) session_id tokens then s else bump increment_misses s)"
    have sound: "entries_ok kv ?s" using assms(3) by (simp add: entries_ok_expire)
    obtain sel sx where sel: "take_context llama session_id tokens ?s = (sel, sx)" by fastforce
    show ?thesis
    proof (cases sel)
      case (Inl e)
      with check tokens sel show ?thesis by (simp add: gguf_generate_def with_context_def Let_def)
    next
      case (Inr cp)
      obtain c prefix where cp: "cp = (c, prefix)" by (cases cp)
      have "usable kv tokens prefix c"
        using take_context_usable [OF assms(1) sound tokens(3)] sel Inr cp by simp
      from run_prompt_exact [OF assms(1,2) this] check tokens sel Inr cp show ?thesis
        by (simp add: gguf_generate_def with_context_def Let_def split: prod.split sum.split)
    qed
  qed
qed

section \<open>The cache stays sound and within its budgets\<close>

definition cache_inv :: "('c \<Rightarrow> nat \<Rightarrow> 't list) \<Rightarrow> ('t, 'c) cache_state \<Rightarrow> bool" where
  "cache_inv kv s \<longleftrightarrow> entries_ok kv s \<and> distinct (al_keys (cs_cache s)) \<and>
     length (cs_cache s) \<le> unat (sc_max_entries (cs_config s)) \<and>
     (sc_max_bytes (cs_config s) = 0 \<or> total_bytes (cs_cache s) \<le> sc_max_bytes (cs_config s))"

lemma saturating_add_0: "saturating_add 0 b = b"
  using unat_less_exp [of b] by (simp add: saturating_add_def)

lemma total_bytes_filter: "total_bytes (filter P cache) \<le> total_bytes cache"
proof -
  have "sum_list (map (unat \<circ> ce_bytes \<circ> snd) (filter P cache)) \<le> sum_list (map (unat \<circ> ce_bytes \<circ> snd) cache)"
    by (induction cache) auto
  then show ?thesis
    by (simp add: word_le_nat_alt total_bytes_def unat_foldl_saturating_add o_assoc min_le_iff_disj)
qed

lemma total_bytes_snoc: "total_bytes (cache @ [(k, e)]) = saturating_add (total_bytes cache) (ce_bytes e)"
  by (simp add: total_bytes_def)

lemma cache_inv_filter:
  "cache_inv kv s \<Longrightarrow> cs_cache t = filter P (cs_cache s) \<Longrightarrow> cs_config t = cs_config s \<Longrightarrow> cache_inv kv t"
  using total_bytes_filter [of P "cs_cache s"]
  by (auto simp: cache_inv_def entries_ok_def distinct_map_filter intro: order_trans [OF length_filter_le])

lemma cache_inv_bump [simp]: "cache_inv kv (bump f s) = cache_inv kv s"
  by (simp add: cache_inv_def)

lemma cache_inv_guard [simp]: "cache_inv kv (reuse_guard b c s) = cache_inv kv s"
  by (simp add: reuse_guard_def)

lemma cache_inv_expire: "cache_inv kv s \<Longrightarrow> cache_inv kv (expire_idle now s)"
  by (erule cache_inv_filter) (auto simp: al_retain_def)

lemma cache_inv_evict: "cache_inv kv s \<Longrightarrow> cache_inv kv (evict bytes s)"
proof (induction s rule: evict_induct [where bytes = bytes])
  case (stop s)
  then show ?case by (simp add: evict_stop)
next
  case (step s k)
  have "cache_inv kv (s\<lparr>cs_cache := AList.delete k (cs_cache s)\<rparr>)"
    using step(4) by (rule cache_inv_filter) (simp_all add: delete_filter)
  with step show ?case by (simp add: evict_step)
qed

lemma cache_inv_take_context:
  "cache_inv kv s \<Longrightarrow> cache_inv kv (snd (take_context llama session_id tokens s))"
  using take_context_cache [of llama session_id tokens s] cache_inv_filter by blast

lemma cache_inv_commit:
  assumes laws: "kv_laws llama kv logits" and inv: "cache_inv kv s" and "kv c 2 = tokens"
    and key: "session_id \<notin> set (al_keys (cs_cache s))" and enabled: "0 < sc_max_entries (cs_config s)"
  shows "cache_inv kv (snd (commit_context llama context_tokens now session_id tokens c s))"
proof -
  let ?bytes = "estimated_cache_bytes context_tokens (ll_n_embd llama) (ll_n_layer llama)
      (ll_n_head llama) (ll_n_head_kv llama)"
  let ?s = "evict ?bytes s"
  have evicted: "cache_inv kv ?s" using inv by (rule cache_inv_evict)
  consider "0 < sc_max_bytes (cs_config s) \<and> sc_max_bytes (cs_config s) < ?bytes"
    | e where "publish llama c = Inl e" "\<not> (0 < sc_max_bytes (cs_config s) \<and> sc_max_bytes (cs_config s) < ?bytes)"
    | d where "publish llama c = Inr d" "\<not> (0 < sc_max_bytes (cs_config s) \<and> sc_max_bytes (cs_config s) < ?bytes)"
    by (cases "publish llama c") auto
  then show ?thesis
  proof cases
    case 1
    with inv show ?thesis by (simp add: commit_context_def)
  next
    case 2
    with evicted show ?thesis by (auto simp: commit_context_def Let_def)
  next
    case (3 d)
    let ?entry = "\<lparr>ce_context = d, ce_tokens = tokens, ce_bytes = ?bytes, ce_last_used = now\<rparr>"
    have "session_id \<notin> set (al_keys (cs_cache ?s))"
      using key evict_subset [of ?bytes s] by auto
    then have new: "AList.update session_id ?entry (cs_cache ?s) = cs_cache ?s @ [(session_id, ?entry)]"
      and keys: "session_id \<notin> set (al_keys (cs_cache ?s))"
      by (simp_all add: al_update_new)
    have room: "length (cs_cache ?s) < unat (sc_max_entries (cs_config s))"
      "sc_max_bytes (cs_config s) = 0 \<or> saturating_add (total_bytes (cs_cache ?s)) ?bytes \<le> sc_max_bytes (cs_config s)"
      using evict_fits [of s ?bytes] enabled 3(2)
      by (auto simp: over_budget_def not_le not_less total_bytes_def saturating_add_0 word_gt_0 unat_gt_0 split: if_splits)
    have "kv d 0 = tokens" using publish_kv [OF laws 3(1)] assms(3) by simp
    then have "cache_inv kv (?s\<lparr>cs_cache := AList.update session_id ?entry (cs_cache ?s)\<rparr>)"
      using evicted room keys unfolding new
      by (simp add: cache_inv_def entries_ok_def total_bytes_snoc Suc_le_eq)
    moreover have "snd (commit_context llama context_tokens now session_id tokens c s) =
        ?s\<lparr>cs_cache := AList.update session_id ?entry (cs_cache ?s)\<rparr>"
      unfolding commit_context_def Let_def if_not_P [OF 3(2)] by (simp add: 3(1))
    ultimately show ?thesis by simp
  qed
qed

text \<open>
  The cache stays sound and bounded through every generation, successful or not.
\<close>

lemma cache_inv_generate:
  assumes "kv_laws llama kv logits" and "cache_inv kv s"
  shows "cache_inv kv (snd (snd (gguf_generate llama context_tokens now prompt session_id config r s)))"
proof -
  obtain ch r1 where check: "check_cancelled r = (ch, r1)" by fastforce
  show ?thesis
  proof (cases "ch = Inr () \<and> (\<exists>tokens. ll_str_to_token llama prompt = Inr tokens \<and> tokens \<noteq> [] \<and>
      length tokens < unat context_tokens)")
    case False
    with check assms(2) show ?thesis
      by (cases ch; cases "ll_str_to_token llama prompt")
        (auto simp: gguf_generate_def with_context_def Let_def not_less)
  next
    case True
    then obtain tokens where tokens: "ch = Inr ()" "ll_str_to_token llama prompt = Inr tokens" "tokens \<noteq> []"
      "length tokens < unat context_tokens" by blast
    let ?cacheable = "prompt_is_cacheable (cs_config s) session_id tokens"
    let ?s = "expire_idle now (if ?cacheable then s else bump increment_misses s)"
    have s: "cache_inv kv ?s" using assms(2) by (simp add: cache_inv_expire)
    obtain sel sx where sel: "take_context llama session_id tokens ?s = (sel, sx)" by fastforce
    have sx: "cache_inv kv sx" "cs_config sx = cs_config s" "?cacheable \<longrightarrow> the session_id \<notin> set (al_keys (cs_cache sx))"
      using cache_inv_take_context [OF s, of llama session_id tokens] take_context_cache [of llama session_id tokens ?s] sel
      by (auto split: if_splits)
    show ?thesis
    proof (cases sel)
      case (Inl e)
      with check tokens sel sx show ?thesis by (simp add: gguf_generate_def with_context_def Let_def)
    next
      case (Inr cp)
      obtain c prefix where cp: "cp = (c, prefix)" by (cases cp)
      obtain out r2 where run: "run_prompt llama context_tokens config tokens prefix c r1 = (out, r2)" by fastforce
      show ?thesis
      proof (cases out)
        case (Inl e)
        with check tokens sel sx Inr cp run show ?thesis
          by (simp add: gguf_generate_def with_context_def Let_def)
      next
        case out: (Inr pc)
        obtain position c' where pc: "pc = (position, c')" by (cases pc)
        have usable: "usable kv tokens prefix c"
          using take_context_usable [OF assms(1) _ tokens(3)] s sel Inr cp by (auto simp: cache_inv_def)
        have candidate: "kv c' 2 = tokens"
          using run_prompt_candidate [OF assms(1) usable] run out pc by simp
        have "cache_inv kv (snd (if ?cacheable
            then commit_context llama context_tokens now (the session_id) tokens c' sx else (Inr False, sx)))"
          using cache_inv_commit [OF assms(1) sx(1) candidate] sx
          by (auto simp: prompt_is_cacheable_def cache_enabled_def)
        with check tokens sel Inr cp run out pc show ?thesis
          by (auto simp: gguf_generate_def with_context_def Let_def split: prod.splits sum.splits)
      qed
    qed
  qed
qed

text \<open>
  C34. The counts of a successful generation are bounded: at most \<open>max_tokens\<close> tokens are
  reported as generated, and prompt and generation together fit the context.
\<close>

theorem generation_bounds:
  assumes "gguf_generate llama context_tokens now prompt session_id config r s = (Inr res, r', s')"
  shows "0 < gt_input_tokens res \<and> gt_output_tokens res \<le> gg_max_tokens config \<and>
    unat (gt_input_tokens res) + unat (gt_output_tokens res) \<le> unat context_tokens"
proof -
  from assms obtain tokens ra c p sx position c' where a: "tokens \<noteq> []" "length tokens < unat context_tokens"
    "run_prompt llama context_tokens config tokens p c ra = (Inr (position, c'), r')" "res = result_of r' tokens position"
    by (rule gguf_generate_cases)
  from a(3) have bounds: "length tokens \<le> position" "position \<le> length tokens + unat (gg_max_tokens config)"
    "position \<le> unat context_tokens"
    using a(2) by (auto elim!: run_prompt_cases dest!: gen_loop_bounds)
  have small: "unat context_tokens < 2 ^ 64" using unat_less_exp [of context_tokens] by simp
  have size: "unat (of_nat n :: usize) = n" if "n < 2 ^ 64" for n
    using that by (simp add: unat_of_nat take_bit_nat_eq_self)
  have "unat (of_nat (length tokens) :: usize) = length tokens"
    "unat (of_nat (position - length tokens) :: usize) = position - length tokens"
    by (rule size, use a(2) bounds small in linarith)+
  then show ?thesis
    using a bounds by (auto simp: result_of_def word_le_nat_alt word_less_nat_alt)
qed

section \<open>Tool calls are not streamed as text\<close>

lemma callback_pieces:
  "callback piece r = (out, r') \<Longrightarrow> rn_pieces r' = rn_pieces r @ (if out = Inr () then [piece] else [])"
  by (auto simp: callback_def split: option.splits nat.splits)

text \<open>
  C35. With tools declared the client never sees tool-call markup as text: everything the model generates is
  held back. If the chat succeeds, that text was made of visible pieces and complete calls; the only
  piece the client receives, and the text of the result, is the visible pieces put together and
  trimmed (nothing if that is empty), the result has the calls in order, and the finish reason says
  whether there are any. A chat that fails sends nothing.
\<close>

theorem tool_markup_not_streamed:
  assumes "tools \<noteq> []"
    and "generate_chat m llama context_tokens now messages tools requested session_id request_id config r s =
      (out, r', s')"
  shows "case out of
      Inl e \<Rightarrow> rn_pieces r' = rn_pieces r
    | Inr g \<Rightarrow>
        (\<exists>prompt generated captured.
           render_chat m messages tools requested = Inr prompt \<and>
           gguf_generate llama context_tokens now prompt session_id config (r\<lparr>rn_client := None, rn_pieces := []\<rparr>) s =
             (Inr generated, captured, s') \<and>
           extracted (ch_parse_json m) (declared_names tools) (ch_show_uuid m request_id)
             (concat (rn_pieces captured)) (gt_text g) (gt_tool_calls g) \<and>
           gt_input_tokens g = gt_input_tokens generated \<and> gt_output_tokens g = gt_output_tokens generated) \<and>
        rn_pieces r' = rn_pieces r @ (if gt_text g = [] then [] else [gt_text g]) \<and>
        gt_finish_reason g = (if gt_tool_calls g = [] then Stop else ToolCalls)"
proof -
  let ?gen = "\<lambda>prompt. gguf_generate llama context_tokens now prompt session_id config
      (r\<lparr>rn_client := None, rn_pieces := []\<rparr>) s"
  note eq = assms(2) [unfolded generate_chat_def]
  show ?thesis
  proof (cases "\<not> ch_qwen m")
    case True
    with eq assms(1) show ?thesis by auto
  next
    case qwen: False
    show ?thesis
    proof (cases "render_chat m messages tools requested")
      case (Inl e)
      with eq qwen assms(1) show ?thesis by auto
    next
      case (Inr prompt)
      obtain res captured sx where gen: "?gen prompt = (res, captured, sx)" by (cases "?gen prompt")
      show ?thesis
      proof (cases res)
        case (Inl e)
        with eq qwen assms(1) \<open>render_chat _ _ _ _ = _\<close> gen show ?thesis by auto
      next
        case (Inr g)
        let ?parse = "parse_tool_calls (ch_parse_json m) (concat (rn_pieces captured)) tools (ch_show_uuid m request_id)"
        let ?r = "captured\<lparr>rn_client := rn_client r, rn_pieces := rn_pieces r\<rparr>"
        show ?thesis
        proof (cases ?parse)
          case (Inl e)
          with eq qwen assms(1) \<open>render_chat _ _ _ _ = _\<close> gen Inr show ?thesis by (auto simp: Let_def)
        next
          case parsed: (Inr sc)
          obtain shown calls where sc: "sc = (shown, calls)" by (cases sc)
          obtain cb rx where cb: "(if shown \<noteq> [] then callback shown ?r else (Inr (), ?r)) = (cb, rx)" by fastforce
          have "rn_pieces rx = rn_pieces r @ (if shown \<noteq> [] \<and> cb = Inr () then [shown] else [])"
            using cb callback_pieces [of shown ?r cb rx] by (auto split: if_splits)
          moreover have "extracted (ch_parse_json m) (declared_names tools) (ch_show_uuid m request_id)
              (concat (rn_pieces captured)) shown calls"
            using parsed sc by (auto dest: parse_tool_calls_extracted)
          ultimately show ?thesis
            using eq qwen assms(1) \<open>render_chat _ _ _ _ = _\<close> gen Inr parsed sc cb
            by (cases cb) (auto simp: Let_def)
        qed
      qed
    qed
  qed
qed

section \<open>A sample library\<close>

text \<open>Tokens are numbers, a context is its sequences and its logits; the model continues a
  text of \<open>n\<close> tokens with the token \<open>n\<close>, and ends at 5.\<close>

type_synonym demo_context = "(nat \<Rightarrow> nat list) \<times> nat list option"

definition demo_llama :: "(nat, demo_context, unit) llama" where
  "demo_llama =
     \<lparr>ll_n_embd = 896, ll_n_layer = 24, ll_n_head = 14, ll_n_head_kv = 2,
      ll_str_to_token = (\<lambda>s. Inr (map of_char s)),
      ll_new_context = Inr (\<lambda>_. [], None),
      ll_clear_seq = (\<lambda>q range (kv, l). Inr (kv(q := (case range of None \<Rightarrow> []
          | Some (a, b) \<Rightarrow> take a (kv q) @ drop b (kv q))), l)),
      ll_copy_seq = (\<lambda>p q (kv, l). Inr (kv(q := kv p), l)),
      ll_decode = (\<lambda>batch (kv, l). Inr (kv(1 := kv 1 @ map fst batch), Some (kv 1 @ map fst batch))),
      ll_sample = (\<lambda>_ _ (kv, l). case l of Some ts \<Rightarrow> length ts | None \<Rightarrow> 0),
      ll_is_eog = (\<lambda>t. 5 \<le> t), ll_decoder = (),
      ll_token_to_piece = (\<lambda>t _. Inr ([char_of (48 + t)], ()))\<rparr>"

definition demo_kv :: "demo_context \<Rightarrow> nat \<Rightarrow> nat list" where
  "demo_kv c = fst c"

lemma map_fst_prompt_batch: "map fst (prompt_batch tokens start) = drop start tokens"
proof -
  have "map (fst \<circ> (\<lambda>(offset, token). (token, start + offset, P offset))) (List.enumerate m xs) = xs"
    for P :: "nat \<Rightarrow> bool" and m xs
    by (induction xs arbitrary: m) auto
  then show ?thesis by (simp add: prompt_batch_def Let_def)
qed

lemma demo_laws: "kv_laws demo_llama demo_kv snd"
proof -
  have "take start tokens @ map fst (prompt_batch tokens start) = tokens" for start and tokens :: "nat list"
    by (simp add: map_fst_prompt_batch)
  then show ?thesis
    unfolding kv_laws_def
    by (intro conjI allI impI) (auto simp: demo_llama_def demo_kv_def split: prod.splits)
qed

definition demo_config :: gguf_generation_config where
  "demo_config = \<lparr>gg_max_tokens = 10, gg_temperature = None\<rparr>"

definition demo_run :: run where
  "demo_run = \<lparr>rn_checks = None, rn_client = None, rn_output = [], rn_pieces = []\<rparr>"

definition demo_sessions :: "(nat, demo_context) cache_state" where
  "demo_sessions =
     \<lparr>cs_config = session_cache_config_default\<lparr>sc_min_tokens := 1\<rparr>, cs_stats = Some session_cache_stats_default,
      cs_cache = [(7, \<lparr>ce_context = ((\<lambda>q. if q = 0 then [97, 98] else []), None), ce_tokens = [97, 98],
                       ce_bytes = 8, ce_last_used = 0\<rparr>)]\<rparr>"

definition demo_empty :: "(nat, demo_context) cache_state" where
  "demo_empty = demo_sessions\<lparr>cs_cache := []\<rparr>"

definition demo_result :: generation_result where
  "demo_result = \<lparr>gt_text = ''34'', gt_input_tokens = 3, gt_output_tokens = 2, gt_tool_calls = [],
                  gt_finish_reason = Stop\<rparr>"

lemma demo_chars: "(char_of (51 :: nat) :: char) = CHR ''3''" "(char_of (52 :: nat) :: char) = CHR ''4''"
  by code_simp+

lemmas gen_loop_numeral =
  gen_loop.simps(2) [where fuel = "pred_numeral k" for k, folded numeral_eq_Suc]

lemmas demo_gguf_defs =
  demo_llama_def demo_config_def demo_run_def demo_result_def demo_sessions_def demo_empty_def
  gguf_generate_def check_cancelled_def with_context_def bind_result_def prompt_is_cacheable_def
  cache_enabled_def session_cache_config_default_def session_cache_stats_default_def Let_def
  take_context_def expire_idle_def al_retain_def is_idle_def idle_ttl_def starts_with_def bump_def run_prompt_def prefill_def
  prompt_replay_start_def prompt_batch_def position_ok_def checkpoint_def sampler_of_def callback_def
  result_of_def reuse_guard_def commit_context_def publish_def evict_stop gen_loop_numeral

lemma demo_hit:
  "fst (gguf_generate demo_llama 2048 1 ''abc'' (Some 7) demo_config demo_run demo_sessions) = Inr demo_result"
  by (simp add: demo_gguf_defs demo_chars)

lemma demo_miss:
  "fst (gguf_generate demo_llama 2048 1 ''abc'' None demo_config demo_run demo_empty) = Inr demo_result"
  by (simp add: demo_gguf_defs demo_chars)

lemma demo_entries: "entries_ok demo_kv demo_sessions" "entries_ok demo_kv demo_empty"
  by (simp_all add: entries_ok_def demo_sessions_def demo_empty_def demo_kv_def)

lemma demo_inv: "cache_inv demo_kv demo_sessions"
  by (simp add: cache_inv_def demo_entries) (simp add: demo_sessions_def session_cache_config_default_def)

theorem generation_bounds_witness:
  "gt_output_tokens demo_result \<le> gg_max_tokens demo_config"
proof -
  obtain r1 s1 where "gguf_generate demo_llama 2048 1 ''abc'' (Some 7) demo_config demo_run demo_sessions =
      (Inr demo_result, r1, s1)"
    using demo_hit by (metis prod.collapse)
  from generation_bounds [OF this] show ?thesis by simp
qed

text \<open>
  When the context fills up, the last piece is sent to the client but not counted: with a
  context of 4 tokens the client gets the two pieces \<open>3\<close> and \<open>4\<close>, and one output token is
  reported.
\<close>

theorem full_context_undercounts:
  "(case gguf_generate demo_llama 4 1 ''abc'' None demo_config demo_run demo_empty of
      (Inr res, r, _) \<Rightarrow> rn_pieces r = [''3'', ''4''] \<and> gt_output_tokens res = 1
    | _ \<Rightarrow> False)"
  by (simp add: demo_gguf_defs demo_chars)

definition demo_chat_model :: chat_model where
  "demo_chat_model =
     \<lparr>ch_names = [''qwen-tools''], ch_qwen = True, ch_render = (\<lambda>_ _ _. Inr ''abc''),
      ch_render_embedded = (\<lambda>_. Inr ''abc''), ch_parse_json = demo_json, ch_show_uuid = (\<lambda>_. ''r'')\<rparr>"

text \<open>A model whose third token is a whole tool call.\<close>

definition demo_caller :: "(nat, demo_context, unit) llama" where
  "demo_caller = demo_llama\<lparr>ll_token_to_piece :=
     (\<lambda>t _. Inr (if t = 3 then ''Hi <tool_call>{f}</tool_call>'' else ''!'', ()))\<rparr>"

lemma demo_call_parsed:
  "parse_tool_calls demo_json ''Hi <tool_call>{f}</tool_call>!'' [demo_tool ''f''] ''r'' = Inr (''Hi !'', [demo_call ''r-0'' ''f''])"
  by code_simp

theorem tool_markup_not_streamed_witness:
  "\<exists>g r' s'. generate_chat demo_chat_model demo_caller 2048 1 [] [demo_tool ''f''] None None 0 demo_config demo_run
      demo_empty = (Inr g, r', s') \<and> rn_pieces r' = [''Hi !''] \<and> gt_finish_reason g = ToolCalls"
proof -
  obtain out r' s' where run: "generate_chat demo_chat_model demo_caller 2048 1 [] [demo_tool ''f''] None None 0
      demo_config demo_run demo_empty = (out, r', s')"
    by (metis prod.collapse)
  then have "fst (generate_chat demo_chat_model demo_caller 2048 1 [] [demo_tool ''f''] None None 0
      demo_config demo_run demo_empty) = out" by simp
  then have "out = Inr (demo_result\<lparr>gt_text := ''Hi !'', gt_finish_reason := ToolCalls,
      gt_tool_calls := [demo_call ''r-0'' ''f'']\<rparr>)"
    by (simp add: generate_chat_def demo_chat_model_def render_chat_def select_template_def demo_caller_def
        demo_gguf_defs demo_call_parsed)
  with tool_markup_not_streamed [OF _ run] run show ?thesis
    by (simp add: demo_run_def demo_result_def)
qed

end
