(* ===== verification/Sdk.thy ===== *)
theory Sdk
  imports Gguf
begin

text \<open>
  The model thread of \<open>crates/decompute-sdk/src/gguf.rs\<close>: one thread owns the model and its
  session cache and runs the jobs of its channel one after the other. The conversion of a
  temperature from \<open>f64\<close> to \<open>f32\<close> is the parameter \<open>as_f32\<close>. A receiver of a stream takes
  \<open>jb_client\<close> events before it goes away (all of them if \<open>None\<close>); the cancellation token of a
  job passes \<open>jb_checks\<close> checks.
\<close>

section \<open>Jobs\<close>

record ('t, 'c, 'd) gguf_model =
  gm_chat :: chat_model
  gm_llama :: "('t, 'c, 'd) llama"
  gm_context_tokens :: u32
  gm_as_f32 :: "nat \<Rightarrow> f32"

datatype job = GenerateJob chat_request | StreamJob chat_request

record job_run =
  jb_job :: job
  jb_now :: instant
  jb_checks :: "nat option"
  jb_client :: "nat option"

datatype job_outcome =
    GenerateOutcome "string + generation_result"
  | StreamOutcome "generation_event list"

definition sdk_generate ::
  "('t, 'c, 'd) gguf_model \<Rightarrow> instant \<Rightarrow> chat_request \<Rightarrow> run \<Rightarrow> ('t, 'c) cache_state \<Rightarrow>
   (string + generation_result) \<times> run \<times> ('t, 'c) cache_state" where
  "sdk_generate model now request r s =
     generate_chat (gm_chat model) (gm_llama model) (gm_context_tokens model) now
       (cq_messages request) (cq_tools request) (cq_template request) (cq_session_id request)
       (cq_request_id request)
       \<lparr>gg_max_tokens = gc_max_tokens (cq_generation request),
        gg_temperature = map_option (gm_as_f32 model) (gc_temperature (cq_generation request))\<rparr> r s"

definition start_run :: "nat option \<Rightarrow> nat option \<Rightarrow> run" where
  "start_run checks client = \<lparr>rn_checks = checks, rn_client = client, rn_output = [], rn_pieces = []\<rparr>"

definition final_event :: "string + generation_result \<Rightarrow> generation_event" where
  "final_event result = (case result of Inr g \<Rightarrow> EventCompleted g | Inl e \<Rightarrow> EventError e)"

text \<open>One turn of the loop of the thread: the outcome of the job and the cache after it.\<close>

definition run_job ::
  "('t, 'c, 'd) gguf_model \<Rightarrow> job_run \<Rightarrow> ('t, 'c) cache_state \<Rightarrow> job_outcome \<times> ('t, 'c) cache_state" where
  "run_job model jr s =
     (case jb_job jr of
        GenerateJob request \<Rightarrow>
          (let (result, _, s') = sdk_generate model (jb_now jr) request (start_run (jb_checks jr) None) s
           in (GenerateOutcome result, s'))
      | StreamJob request \<Rightarrow>
          (let (result, r, s') =
                 sdk_generate model (jb_now jr) request (start_run (jb_checks jr) (jb_client jr)) s
           in (StreamOutcome (map EventTextDelta (rn_pieces r) @
                 (if rn_client r = Some 0 then [] else [final_event result])), s')))"


text \<open>The cache of a model that has just been loaded.\<close>

definition loaded_cache :: "session_cache_config \<Rightarrow> session_cache_stats option \<Rightarrow> ('t, 'c) cache_state" where
  "loaded_cache config stats = \<lparr>cs_config = config, cs_stats = stats, cs_cache = []\<rparr>"

text \<open>The handle: a job sent to the thread while its cache is \<open>s\<close>. The other fields of the
  job run are given; the receiver of \<open>stream\<close> gets the events of the job.\<close>

definition handle_generate ::
  "('t, 'c, 'd) gguf_model \<Rightarrow> job_run \<Rightarrow> ('t, 'c) cache_state \<Rightarrow> chat_request \<Rightarrow> string + generation_result" where
  "handle_generate model jr s request =
     (case fst (run_job model (jr\<lparr>jb_job := GenerateJob request\<rparr>) s) of
        GenerateOutcome result \<Rightarrow> result
      | StreamOutcome _ \<Rightarrow> Inl ''GGUF model execution response dropped'')"

definition handle_stream ::
  "('t, 'c, 'd) gguf_model \<Rightarrow> job_run \<Rightarrow> ('t, 'c) cache_state \<Rightarrow> chat_request \<Rightarrow> string + generation_event list" where
  "handle_stream model jr s request =
     (case fst (run_job model (jr\<lparr>jb_job := StreamJob request\<rparr>) s) of
        StreamOutcome events \<Rightarrow> Inr events
      | GenerateOutcome _ \<Rightarrow> Inl ''GGUF model execution response dropped'')"

text \<open>The request of \<open>smoke_test\<close>.\<close>

definition smoke_request :: "token \<Rightarrow> chat_request" where
  "smoke_request token =
     \<lparr>cq_request_id = 0, cq_session_id = None,
      cq_messages = [\<lparr>cm_role = User, cm_content = ''Reply with one word.'', cm_tool_calls = [],
                      cm_tool_call_id = None\<rparr>],
      cq_template = None, cq_tools = [],
      cq_generation = \<lparr>gc_max_tokens = 1, gc_temperature = None\<rparr>, cq_cancellation = token\<rparr>"

definition smoke_test ::
  "('t, 'c, 'd) gguf_model \<Rightarrow> instant \<Rightarrow> token \<Rightarrow> ('t, 'c) cache_state \<Rightarrow> (string + unit) \<times> ('t, 'c) cache_state" where
  "smoke_test model now token s =
     (case run_job model \<lparr>jb_job = GenerateJob (smoke_request token), jb_now = now, jb_checks = None,
                          jb_client = None\<rparr> s of
        (GenerateOutcome result, s') \<Rightarrow> (map_sum id (\<lambda>_. ()) result, s')
      | (StreamOutcome _, s') \<Rightarrow> (Inr (), s'))"

section \<open>Successful chats\<close>

lemma generate_chat_cases:
  assumes "generate_chat m llama context_tokens now messages tools requested session_id request_id config r s =
    (Inr g, r', s')"
  obtains (plain) prompt where "render_chat m messages tools requested = Inr prompt" "tools = []"
      "gguf_generate llama context_tokens now prompt session_id config r s = (Inr g, r', s')"
  | (tools) prompt generated captured shown calls
    where "render_chat m messages tools requested = Inr prompt" "tools \<noteq> []"
      "gguf_generate llama context_tokens now prompt session_id config
         (r\<lparr>rn_client := None, rn_pieces := []\<rparr>) s = (Inr generated, captured, s')"
      "parse_tool_calls (ch_parse_json m) (concat (rn_pieces captured)) tools (ch_show_uuid m request_id) =
         Inr (shown, calls)"
      "(let r1 = captured\<lparr>rn_client := rn_client r, rn_pieces := rn_pieces r\<rparr> in
        if shown \<noteq> [] then callback shown r1 else (Inr (), r1)) = (Inr (), r')"
      "g = generated\<lparr>gt_text := shown, gt_finish_reason := (if calls = [] then Stop else ToolCalls),
                     gt_tool_calls := calls\<rparr>"
proof -
  note eq = assms [unfolded generate_chat_def]
  obtain prompt where prompt: "render_chat m messages tools requested = Inr prompt"
    using eq by (cases "render_chat m messages tools requested") (auto split: if_splits)
  show ?thesis
  proof (cases "tools = []")
    case True
    with eq prompt show ?thesis by (intro plain) auto
  next
    case False
    let ?gen = "gguf_generate llama context_tokens now prompt session_id config
         (r\<lparr>rn_client := None, rn_pieces := []\<rparr>) s"
    obtain generated captured sx where gen: "?gen = (Inr generated, captured, sx)"
      using eq prompt False by (cases ?gen; cases "fst ?gen") (auto split: if_splits)
    let ?parse = "parse_tool_calls (ch_parse_json m) (concat (rn_pieces captured)) tools (ch_show_uuid m request_id)"
    obtain shown calls where parse: "?parse = Inr (shown, calls)"
      using eq prompt False gen by (cases ?parse) (auto simp: Let_def split: if_splits)
    let ?cb = "let r1 = captured\<lparr>rn_client := rn_client r, rn_pieces := rn_pieces r\<rparr> in
        if shown \<noteq> [] then callback shown r1 else (Inr (), r1)"
    obtain r2 where cb: "?cb = (Inr (), r2)"
      using eq prompt False gen parse
      by (cases ?cb; cases "fst ?cb") (auto simp: Let_def split: if_splits)
    have "r2 = r'" "sx = s'" "g = generated\<lparr>gt_text := shown,
        gt_finish_reason := (if calls = [] then Stop else ToolCalls), gt_tool_calls := calls\<rparr>"
      using eq prompt False gen parse cb by (auto simp: Let_def split: if_splits)
    with prompt False gen parse cb show ?thesis by (intro tools) auto
  qed
qed





section \<open>Earlier jobs\<close>







section \<open>What the receiver of a stream gets\<close>

lemma gen_loop_text:
  "gen_loop llama sampler maximum fuel accepted decoder position c r = (Inr (position', c'), r') \<Longrightarrow>
   \<exists>ps. rn_pieces r' = rn_pieces r @ ps \<and> rn_output r' = rn_output r @ concat ps"
proof (induction fuel arbitrary: accepted decoder position c r)
  case (Suc fuel)
  have step: "\<exists>ps. rn_pieces r3 = rn_pieces r @ ps \<and> rn_output r3 = rn_output r @ concat ps"
    if "check_cancelled r = (Inr (), r1)"
      "(let r = r1\<lparr>rn_output := rn_output r1 @ piece\<rparr> in
        if piece \<noteq> [] then callback piece r else (Inr (), r)) = (Inr (), r2)"
      "check_cancelled r2 = (Inr (), r3)" for r1 r2 r3 piece
    using that
    by (auto simp: check_cancelled_def callback_def Let_def split: option.splits nat.splits if_splits)
  from Suc.prems show ?case
  proof (cases rule: gen_loop_Suc_cases)
    case eog
    then show ?thesis by (auto simp: check_cancelled_def split: option.splits nat.splits)
  next
    case (full r1 piece decoder' r2)
    then show ?thesis using step by blast
  next
    case (more r1 r2 r3 piece decoder' c1)
    from step [OF more(1,4,5)] Suc.IH [OF more(9)] show ?thesis by fastforce
  qed
qed simp

lemma gguf_generate_text:
  assumes "gguf_generate llama context_tokens now prompt session_id config r s = (Inr g, r', s')"
    and "rn_output r = []" and "rn_pieces r = []"
  shows "concat (rn_pieces r') = gt_text g"
proof -
  have same: "check_cancelled q = (Inr (), q') \<Longrightarrow> rn_output q' = rn_output q \<and> rn_pieces q' = rn_pieces q" for q q'
    by (auto simp: check_cancelled_def split: option.splits nat.splits)
  from assms(1) obtain tokens r1 c prefix position c' where run: "check_cancelled r = (Inr (), r1)"
    "run_prompt llama context_tokens config tokens prefix c r1 = (Inr (position, c'), r')"
    "g = result_of r' tokens position"
    by (rule gguf_generate_cases)
  from run(2) obtain r2 c2 where "check_cancelled r1 = (Inr (), r2)"
    "gen_loop llama (sampler_of (gg_temperature config)) (unat context_tokens)
       (unat (gg_max_tokens config)) tokens (ll_decoder llama) (length tokens) c2 r2 = (Inr (position, c'), r')"
    by (rule run_prompt_cases)
  then show ?thesis
    using gen_loop_text same [OF run(1)] same [of r1 r2] assms(2,3) run(3) by (fastforce simp: result_of_def)
qed

lemma generate_chat_text:
  assumes "generate_chat m llama context_tokens now messages tools requested session_id request_id config r s =
      (Inr g, r', s')"
    and "rn_output r = []" and "rn_pieces r = []"
  shows "concat (rn_pieces r') = gt_text g"
  using assms(1)
proof (cases rule: generate_chat_cases)
  case (plain prompt)
  then show ?thesis using gguf_generate_text assms(2,3) by blast
next
  case (tools prompt generated captured shown calls)
  then show ?thesis
    using assms(3) by (auto simp: Let_def dest: callback_pieces split: if_splits)
qed

lemma check_cancelled_client: "rn_client (snd (check_cancelled r)) = rn_client r"
  by (simp add: check_cancelled_def split: option.split nat.split)

lemma callback_client: "rn_client r = None \<Longrightarrow> rn_client (snd (callback piece r)) = None"
  by (simp add: callback_def)

lemma gen_loop_client:
  "rn_client r = None \<Longrightarrow>
   rn_client (snd (gen_loop llama sampler maximum fuel accepted decoder position c r)) = None"
proof (induction fuel arbitrary: accepted decoder position c r)
  case (Suc fuel)
  have stays: "rn_client q = None \<Longrightarrow> check_cancelled q = (x, q') \<Longrightarrow> rn_client q' = None" for q x q'
    using check_cancelled_client [of q] by auto
  let ?token = "ll_sample llama sampler accepted c"
  let ?cb = "\<lambda>piece r1. let r = r1\<lparr>rn_output := rn_output r1 @ piece\<rparr> in
        if piece \<noteq> [] then callback piece r else (Inr (), r)"
  obtain x1 r1 where r1: "check_cancelled r = (x1, r1)" by fastforce
  then have c1: "rn_client r1 = None" using stays Suc.prems by blast
  show ?case
  proof (cases "x1 = Inr () \<and> \<not> ll_is_eog llama ?token \<and>
      (\<exists>piece decoder'. ll_token_to_piece llama ?token decoder = Inr (piece, decoder'))")
    case False
    then show ?thesis
      using r1 c1 by (cases x1; cases "ll_token_to_piece llama ?token decoder") (auto simp: with_context_def Let_def)
  next
    case True
    then obtain piece decoder' where go: "x1 = Inr ()" "\<not> ll_is_eog llama ?token"
      "ll_token_to_piece llama ?token decoder = Inr (piece, decoder')" by blast
    obtain x2 r2 where r2: "?cb piece r1 = (x2, r2)" by fastforce
    then have c2: "rn_client r2 = None"
      using c1 callback_client [of "r1\<lparr>rn_output := rn_output r1 @ piece\<rparr>" piece]
      by (auto simp: Let_def split: if_splits)
    obtain x3 r3 where r3: "check_cancelled r2 = (x3, r3)" by fastforce
    then have c3: "rn_client r3 = None" using stays c2 by blast
    show ?thesis
      using r1 go r2 r3 c2 c3
      by (cases x2; cases x3) (auto simp: with_context_def Let_def Suc.IH split: sum.split)
  qed
qed simp

lemma run_prompt_client:
  assumes "run_prompt llama context_tokens config tokens prefix c r = (x, r')" and "rn_client r = None"
  shows "rn_client r' = None"
proof -
  have "rn_client (snd (run_prompt llama context_tokens config tokens prefix c r)) = None"
    using check_cancelled_client [of r] assms(2)
    by (auto simp: run_prompt_def gen_loop_client split: sum.split prod.split)
  then show ?thesis by (simp add: assms(1))
qed

lemma gguf_generate_client:
  assumes "gguf_generate llama context_tokens now prompt session_id config r s = (x, r', s')"
    and "rn_client r = None"
  shows "rn_client r' = None"
proof -
  obtain y r1 where r1: "check_cancelled r = (y, r1)" by fastforce
  then have c1: "rn_client r1 = None" using check_cancelled_client [of r] assms(2) by simp
  have "rn_client (snd (run_prompt llama context_tokens config tokens prefix c r1)) = None" for tokens prefix c
    using run_prompt_client [OF prod.collapse [symmetric] c1] .
  then have "rn_client (fst (snd (gguf_generate llama context_tokens now prompt session_id config r s))) = None"
    using r1 c1 by (simp add: gguf_generate_def Let_def split_beta split: sum.split)
  then show ?thesis by (simp add: assms(1))
qed

lemma generate_chat_client:
  assumes "generate_chat m llama context_tokens now messages tools requested session_id request_id config r s =
      (x, r', s')" and "rn_client r = None"
  shows "rn_client r' = None"
proof -
  have "rn_client (fst (snd (gguf_generate llama context_tokens now prompt session_id config r s))) = None" for prompt
    using gguf_generate_client [OF _ assms(2)] by (metis prod.collapse)
  then have "rn_client (fst (snd (generate_chat m llama context_tokens now messages tools requested session_id
      request_id config r s))) = None"
    using assms(2) by (simp add: generate_chat_def Let_def split_beta callback_client split: sum.split)
  then show ?thesis by (simp add: assms(1))
qed

lemma run_stream_job:
  assumes "jb_job jr = StreamJob request" and "jb_client jr = None"
  shows "\<exists>pieces result. fst (run_job model jr s) =
      StreamOutcome (map EventTextDelta pieces @ [final_event result]) \<and>
    (\<forall>g. result = Inr g \<longrightarrow> concat pieces = gt_text g) \<and>
    run_job model (jr\<lparr>jb_job := GenerateJob request\<rparr>) s = (GenerateOutcome result, snd (run_job model jr s))"
proof -
  obtain result r s' where run: "sdk_generate model (jb_now jr) request (start_run (jb_checks jr) None) s = (result, r, s')"
    by (metis prod.collapse)
  then have "rn_client r = None"
    using generate_chat_client unfolding sdk_generate_def start_run_def by fastforce
  moreover have "result = Inr g \<Longrightarrow> concat (rn_pieces r) = gt_text g" for g
    using run generate_chat_text unfolding sdk_generate_def start_run_def by fastforce
  ultimately show ?thesis
    using run assms by (intro exI [of _ "rn_pieces r"] exI [of _ result]) (simp add: run_job_def)
qed


text \<open>
  The stream of a chat whose receiver stays is a sequence of text deltas followed by the result
  or the error that \<open>generate\<close> returns for the same chat; the deltas of a success, put
  together, are the text of the result.
\<close>

theorem stream_delivers_result:
  assumes "jb_client jr = None"
  shows "\<exists>pieces. handle_stream model jr s request =
      Inr (map EventTextDelta pieces @ [final_event (handle_generate model jr s request)]) \<and>
    (\<forall>g. handle_generate model jr s request = Inr g \<longrightarrow> concat pieces = gt_text g)"
  using run_stream_job [of "jr\<lparr>jb_job := StreamJob request\<rparr>" request model s] assms
  by (auto simp: handle_stream_def handle_generate_def)

section \<open>A sample thread\<close>

definition demo_gguf_model :: "(nat, demo_context, unit) gguf_model" where
  "demo_gguf_model =
     \<lparr>gm_chat = demo_chat_model, gm_llama = demo_llama, gm_context_tokens = 2048, gm_as_f32 = (\<lambda>_. 0)\<rparr>"

definition demo_chat :: chat_request where
  "demo_chat = (smoke_request 0)\<lparr>cq_session_id := Some 7, cq_generation := \<lparr>gc_max_tokens = 10, gc_temperature = None\<rparr>\<rparr>"

definition demo_job :: "job \<Rightarrow> job_run" where
  "demo_job job = \<lparr>jb_job = job, jb_now = 1, jb_checks = None, jb_client = None\<rparr>"

definition demo_loaded :: "(nat, demo_context) cache_state" where
  "demo_loaded = loaded_cache (session_cache_config_default\<lparr>sc_min_tokens := 1\<rparr>) None"

lemmas demo_sdk_defs =
  demo_gguf_model_def demo_chat_def demo_job_def demo_loaded_def loaded_cache_def smoke_request_def
  demo_chat_model_def run_job_def sdk_generate_def start_run_def final_event_def generate_chat_def
  render_chat_def select_template_def demo_gguf_defs demo_chars

lemma demo_first_job:
  "fst (run_job demo_gguf_model (demo_job (GenerateJob demo_chat)) demo_loaded) = GenerateOutcome (Inr demo_result)"
  by (simp add: demo_sdk_defs)




theorem stream_delivers_result_witness:
  "\<exists>pieces. handle_stream demo_gguf_model (demo_job (StreamJob demo_chat)) demo_loaded demo_chat =
      Inr (map EventTextDelta pieces @ [EventCompleted demo_result]) \<and> concat pieces = ''34''"
proof -
  have "handle_generate demo_gguf_model (demo_job (StreamJob demo_chat)) demo_loaded demo_chat = Inr demo_result"
    using demo_first_job by (simp add: handle_generate_def demo_job_def)
  then show ?thesis
    using stream_delivers_result [of "demo_job (StreamJob demo_chat)" demo_gguf_model demo_loaded demo_chat]
    by (auto simp: demo_job_def final_event_def demo_result_def)
qed

end
