(* ===== verification/Models.thy ===== *)
theory Models
  imports Core_Types "HOL-Library.Multiset"
begin

text \<open>
  The curated model catalog and the resolution of its entries to verified files,
  \<open>crates/decompute-models/src/lib.rs\<close>. The file system, the Hugging Face client and SHA-256
  are parameters. Paths are Unix paths.
\<close>

text \<open>An \<open>anyhow\<close> error: its messages, the outermost context first. \<open>to_string\<close> shows the
  outermost.\<close>

type_synonym anyhow = "string list"

definition error_context :: "string \<Rightarrow> anyhow + 'a \<Rightarrow> anyhow + 'a" where
  "error_context message = map_sum (\<lambda>e. message # e) id"

section \<open>Paths\<close>

fun split_slash :: "string \<Rightarrow> string \<Rightarrow> string list" where
  "split_slash acc [] = [rev acc]"
| "split_slash acc (c # cs) =
     (if c = CHR ''/'' then rev acc # split_slash [] cs else split_slash (c # acc) cs)"

definition path_file_name :: "string \<Rightarrow> string option" where
  "path_file_name path =
     (case rev (filter (\<lambda>c. c \<noteq> [] \<and> c \<noteq> ''.'') (split_slash [] path)) of
        [] \<Rightarrow> None
      | name # _ \<Rightarrow> if name = ''..'' then None else Some name)"

text \<open>\<open>Path::extension\<close>: what follows the last dot of the file name, unless that is its first
  character.\<close>

definition path_extension :: "string \<Rightarrow> string option" where
  "path_extension path =
     (case path_file_name path of
        None \<Rightarrow> None
      | Some name \<Rightarrow>
          if CHR ''.'' \<in> set (tl name)
          then Some (rev (takeWhile (\<lambda>c. c \<noteq> CHR ''.'') (rev name))) else None)"

section \<open>The catalog\<close>

record catalog_model =
  ct_id :: string
  ct_display_name :: string
  ct_description :: string
  ct_download_size_bytes :: u64
  ct_recommended :: bool
  ct_format :: string
  ct_repository :: string
  ct_revision :: string
  ct_filename :: string
  ct_sha256 :: string
  ct_architecture :: string
  ct_quantization :: "string option"

type_synonym model_catalog = "catalog_model list"

definition is_sha256 :: "string \<Rightarrow> bool" where
  "is_sha256 s \<longleftrightarrow> length s = 64 \<and> list_all is_ascii_hexdigit s"

definition required_fields :: "catalog_model \<Rightarrow> (string \<times> string) list" where
  "required_fields model =
     [(''id'', ct_id model), (''display_name'', ct_display_name model), (''description'', ct_description model),
      (''repository'', ct_repository model), (''revision'', ct_revision model),
      (''filename'', ct_filename model), (''architecture'', ct_architecture model)]"

fun check_fields :: "(string \<times> string) list \<Rightarrow> anyhow + unit" where
  "check_fields [] = Inr ()"
| "check_fields ((field, v) # rest) =
     (if str_trim v = [] then Inl [''model catalog entry has an empty `'' @ field @ ''` field'']
      else check_fields rest)"

definition bad_repository :: "catalog_model \<Rightarrow> string" where
  "bad_repository model = ''model `'' @ ct_id model @ ''` has invalid Hugging Face repository `'' @
     ct_repository model @ ''`; expected owner/name''"

definition validate_model :: "catalog_model \<Rightarrow> anyhow + unit" where
  "validate_model model =
     (case check_fields (required_fields model) of
        Inl e \<Rightarrow> Inl e
      | Inr _ \<Rightarrow>
          if ct_download_size_bytes model = 0
          then Inl [''model `'' @ ct_id model @ ''` has a zero download size'']
          else (case split_once (CHR ''/'') (ct_repository model) of
             None \<Rightarrow> Inl [bad_repository model]
           | Some (owner, name) \<Rightarrow>
               if str_trim owner = [] \<or> str_trim name = [] \<or> CHR ''/'' \<in> set name then Inl [bad_repository model]
               else if ct_format model \<noteq> ''gguf''
               then Inl [''model `'' @ ct_id model @ ''` has unsupported format `'' @ ct_format model @
                         ''`; only gguf is supported'']
               else if path_extension (ct_filename model) \<noteq> Some ''gguf''
               then Inl [''model `'' @ ct_id model @ ''` has filename `'' @ ct_filename model @
                         ''` which does not match gguf format'']
               else if \<not> is_sha256 (ct_sha256 model)
               then Inl [''model `'' @ ct_id model @ ''` has an invalid sha256 digest'']
               else Inr ()))"

fun validate_entries :: "model_catalog \<Rightarrow> catalog_model list \<Rightarrow> anyhow + unit" where
  "validate_entries catalog [] = Inr ()"
| "validate_entries catalog (model # models) =
     (case validate_model model of
        Inl e \<Rightarrow> Inl e
      | Inr _ \<Rightarrow>
          if length (filter (\<lambda>other. ct_id other = ct_id model) catalog) \<noteq> 1
          then Inl [''model catalog contains duplicate id `'' @ ct_id model @ ''`'']
          else validate_entries catalog models)"

definition validate_catalog :: "model_catalog \<Rightarrow> anyhow + unit" where
  "validate_catalog catalog =
     (if catalog = [] then Inl [''model catalog contains no models'']
      else (case validate_entries catalog catalog of
              Inl e \<Rightarrow> Inl e
            | Inr _ \<Rightarrow>
                if length (filter ct_recommended catalog) \<noteq> 1
                then Inl [''model catalog must contain exactly one recommended model'']
                else Inr ()))"

definition catalog_from_toml :: "(string \<Rightarrow> anyhow + model_catalog) \<Rightarrow> string \<Rightarrow> anyhow + model_catalog" where
  "catalog_from_toml parse_toml input =
     (case error_context ''parse model catalog'' (parse_toml input) of
        Inl e \<Rightarrow> Inl e
      | Inr catalog \<Rightarrow>
          (case validate_catalog catalog of Inl e \<Rightarrow> Inl e | Inr _ \<Rightarrow> Inr catalog))"

definition catalog_get :: "model_catalog \<Rightarrow> string \<Rightarrow> anyhow + catalog_model" where
  "catalog_get catalog i =
     (case find (\<lambda>model. ct_id model = i) catalog of
        Some model \<Rightarrow> Inr model
      | None \<Rightarrow> Inl [''unknown curated model `'' @ i @ ''`; available models: '' @
                     str_join '', '' (map ct_id catalog)])"

section \<open>Verified files\<close>

datatype model_source = HuggingFaceCache | LocalOverride

record resolved_model =
  rm_entry :: catalog_model
  rm_path :: string
  rm_manifest :: model_manifest
  rm_source :: model_source

datatype resolve_stage =
    CheckingCache
  | Downloading u64 u64 "string option"
  | Verifying u64 u64
  | Ready

datatype resolve_error = Cancelled | InsufficientDiskSpace u64 u64 | Other anyhow

text \<open>A path of the file system: whether it is a file, the length its metadata tell, and what
  opening and reading it yields: the buffers of the successive reads.\<close>

record file_state =
  fs_is_file :: bool
  fs_length :: "u64 option"
  fs_open :: "anyhow + unit"
  fs_reads :: "(anyhow + bytes) list"

text \<open>How often a cancellation check passes before the token is cancelled, if ever.\<close>

type_synonym checks = "nat option"

fun passes :: "checks \<Rightarrow> bool \<times> checks" where
  "passes None = (True, None)"
| "passes (Some 0) = (False, Some 0)"
| "passes (Some (Suc n)) = (True, Some n)"

text \<open>The loop of \<open>sha256_file_with_progress\<close>; an empty read, or no further one, is the end of
  the file.\<close>

fun hash_loop ::
  "string \<Rightarrow> u64 \<Rightarrow> checks \<Rightarrow> (anyhow + bytes) list \<Rightarrow> bytes \<Rightarrow> u64 \<Rightarrow>
   (resolve_error + bytes) \<times> resolve_stage list" where
  "hash_loop path file_size checks [] hashed verified =
     (if fst (passes checks) then (Inr hashed, []) else (Inl Cancelled, []))"
| "hash_loop path file_size checks (Inl e # reads) hashed verified =
     (if fst (passes checks) then (Inl (Other ((''read '' @ path) # e)), []) else (Inl Cancelled, []))"
| "hash_loop path file_size checks (Inr bs # reads) hashed verified =
     (if \<not> fst (passes checks) then (Inl Cancelled, [])
      else if bs = [] then (Inr hashed, [])
      else (let verified' = saturating_add verified (of_nat (length bs));
                (result, stages) = hash_loop path file_size (snd (passes checks)) reads (hashed @ bs) verified'
            in (result, Verifying verified' file_size # stages)))"

definition sha256_file ::
  "(bytes \<Rightarrow> string) \<Rightarrow> string \<Rightarrow> file_state \<Rightarrow> u64 \<Rightarrow> checks \<Rightarrow>
   (resolve_error + string) \<times> resolve_stage list" where
  "sha256_file sha256 path file file_size checks =
     (case fs_open file of
        Inl e \<Rightarrow> (Inl (Other ((''open '' @ path) # e)), [])
      | Inr _ \<Rightarrow>
          (let (result, stages) = hash_loop path file_size checks (fs_reads file) [] 0
           in (map_sum id sha256 result, stages)))"

definition verify_file_with_progress ::
  "(bytes \<Rightarrow> string) \<Rightarrow> string \<Rightarrow> file_state \<Rightarrow> catalog_model \<Rightarrow> checks \<Rightarrow>
   (resolve_error + unit) \<times> resolve_stage list" where
  "verify_file_with_progress sha256 path file model checks =
     (if \<not> fs_is_file file then (Inl (Other [''model file does not exist: '' @ path]), [])
      else if path_extension path \<noteq> Some ''gguf''
      then (Inl (Other [''expected a .gguf model file, got '' @ path]), [])
      else (let file_size = (case fs_length file of Some n \<Rightarrow> n | None \<Rightarrow> 0);
                (result, stages) = sha256_file sha256 path file file_size checks
            in (case result of
                  Inl e \<Rightarrow> Inl e
                | Inr digest \<Rightarrow>
                    if \<not> eq_ignore_ascii_case digest (ct_sha256 model)
                    then Inl (Other [''SHA-256 mismatch for '' @ path @ '': expected '' @ ct_sha256 model @
                                     '', got '' @ digest])
                    else Inr (), stages)))"

definition manifest_for :: "string \<Rightarrow> catalog_model \<Rightarrow> model_manifest" where
  "manifest_for path model =
     \<lparr>mm_id = ''sha256:'' @ ct_sha256 model, mm_architecture = ct_architecture model,
      mm_revision = ct_revision model, mm_quantization = ct_quantization model,
      mm_files = [\<lparr>mf_path = (case path_file_name path of Some name \<Rightarrow> name | None \<Rightarrow> []),
                   mf_sha256 = ct_sha256 model\<rparr>]\<rparr>"

definition resolved_model_for :: "catalog_model \<Rightarrow> string \<Rightarrow> model_source \<Rightarrow> resolved_model" where
  "resolved_model_for model path source =
     \<lparr>rm_entry = model, rm_path = path, rm_manifest = manifest_for path model, rm_source = source\<rparr>"

section \<open>Resolution\<close>

datatype hub_lookup = Found string | NotFound | LookupFails anyhow

datatype cache_status = Missing | Verified resolved_model | Corrupt string string

text \<open>What the surroundings do: the construction of the client, the cache lookup, the file
  system before and after the download, the free space, the events of the download and its
  result, which depends on whether the download is forced, and whether the token is cancelled
  during it.\<close>

datatype download_event =
    Start u64
  | Progress "(u64 \<times> u64) list"
  | AggregateProgress u64 u64 "string option"
  | Complete

record surroundings =
  sr_sha256 :: "bytes \<Rightarrow> string"
  sr_client :: "anyhow + unit"
  sr_lookup :: hub_lookup
  sr_files :: "string \<Rightarrow> file_state"
  sr_free_space :: "anyhow + u64"
  sr_download_events :: "download_event list"
  sr_download :: "bool \<Rightarrow> anyhow + string"
  sr_download_cancelled :: bool
  sr_files_after :: "string \<Rightarrow> file_state"

fun download_stage :: "download_event \<Rightarrow> resolve_stage option" where
  "download_stage (Start bytes_total) = Some (Downloading 0 bytes_total None)"
| "download_stage (Progress files) =
     (if files = [] then None else Some (Downloading (fst (last files)) (snd (last files)) None))"
| "download_stage (AggregateProgress completed bytes_total rate) = Some (Downloading completed bytes_total rate)"
| "download_stage Complete = None"

fun resolve_error_to_string :: "resolve_error \<Rightarrow> string" where
  "resolve_error_to_string Cancelled = ''model resolution was cancelled''"
| "resolve_error_to_string (InsufficientDiskSpace available required) =
     ''not enough free space in model cache: '' @ show_nat (unat available) @ '' bytes available, '' @
     show_nat (unat required) @ '' bytes required''"
| "resolve_error_to_string (Other e) = (case e of [] \<Rightarrow> [] | m # _ \<Rightarrow> m)"

definition hugging_face_client :: "surroundings \<Rightarrow> anyhow + unit" where
  "hugging_face_client sr = error_context ''create Hugging Face client'' (sr_client sr)"

definition hugging_face_repository :: "surroundings \<Rightarrow> catalog_model \<Rightarrow> anyhow + unit" where
  "hugging_face_repository sr model =
     (case split_once (CHR ''/'') (ct_repository model) of
        None \<Rightarrow> Inl [''invalid Hugging Face repository `'' @ ct_repository model @ ''`; expected owner/name'']
      | Some _ \<Rightarrow> hugging_face_client sr)"

definition inspect_cache :: "surroundings \<Rightarrow> catalog_model \<Rightarrow> anyhow + cache_status" where
  "inspect_cache sr model =
     (case validate_model model of
        Inl e \<Rightarrow> Inl e
      | Inr _ \<Rightarrow>
          (case hugging_face_repository sr model of
             Inl e \<Rightarrow> Inl e
           | Inr _ \<Rightarrow>
               (case sr_lookup sr of
                  NotFound \<Rightarrow> Inr Missing
                | LookupFails e \<Rightarrow> Inl (''inspect Hugging Face model cache'' # e)
                | Found path \<Rightarrow>
                    (case fst (verify_file_with_progress (sr_sha256 sr) path (sr_files sr path) model None) of
                       Inr _ \<Rightarrow> Inr (Verified (resolved_model_for model path HuggingFaceCache))
                     | Inl e \<Rightarrow> Inr (Corrupt path (resolve_error_to_string e))))))"

definition required_space :: "catalog_model \<Rightarrow> u64" where
  "required_space model =
     saturating_add (ct_download_size_bytes model)
       (max (ct_download_size_bytes model div 10) (256 * 1024 * 1024))"

definition preflight_disk_space :: "surroundings \<Rightarrow> catalog_model \<Rightarrow> resolve_error + unit" where
  "preflight_disk_space sr model =
     (case hugging_face_client sr of
        Inl e \<Rightarrow> Inl (Other e)
      | Inr _ \<Rightarrow>
          (case sr_free_space sr of
             Inl e \<Rightarrow> Inl (Other e)
           | Inr available \<Rightarrow>
               if available < required_space model
               then Inl (InsufficientDiskSpace available (required_space model)) else Inr ()))"

definition download_from_hugging_face ::
  "surroundings \<Rightarrow> catalog_model \<Rightarrow> bool \<Rightarrow> (resolve_error + string) \<times> resolve_stage list" where
  "download_from_hugging_face sr model force_download =
     (case hugging_face_repository sr model of
        Inl e \<Rightarrow> (Inl (Other e), [])
      | Inr _ \<Rightarrow>
          (if sr_download_cancelled sr then Inl Cancelled
           else map_sum Other id
             (error_context (''download '' @ ct_repository model @ '' at revision '' @ ct_revision model @
                            '' from Hugging Face'') (sr_download sr force_download)),
           List.map_filter download_stage (sr_download_events sr)))"

text \<open>The end of the resolution: verify the file at the path, report it ready.\<close>

definition verify_and_finish ::
  "surroundings \<Rightarrow> (string \<Rightarrow> file_state) \<Rightarrow> catalog_model \<Rightarrow> string \<Rightarrow> model_source \<Rightarrow> checks \<Rightarrow>
   (resolve_error + resolved_model) \<times> resolve_stage list" where
  "verify_and_finish sr files model path source checks =
     (case verify_file_with_progress (sr_sha256 sr) path (files path) model checks of
        (Inl e, stages) \<Rightarrow> (Inl e, stages)
      | (Inr _, stages) \<Rightarrow> (Inr (resolved_model_for model path source), stages @ [Ready]))"

definition resolve_with_progress ::
  "surroundings \<Rightarrow> catalog_model \<Rightarrow> string option \<Rightarrow> checks \<Rightarrow>
   (resolve_error + resolved_model) \<times> resolve_stage list" where
  "resolve_with_progress sr model local_override checks =
     (case validate_model model of
        Inl e \<Rightarrow> (Inl (Other e), [])
      | Inr _ \<Rightarrow>
          (let (running, checks) = passes checks;
               (result, stages) =
                 (if \<not> running then (Inl Cancelled, [])
                  else (case local_override of
                    Some path \<Rightarrow> verify_and_finish sr (sr_files sr) model path LocalOverride checks
                  | None \<Rightarrow>
                      (case inspect_cache sr model of
                         Inl e \<Rightarrow> (Inl (Other e), [])
                       | Inr (Verified resolved) \<Rightarrow> (Inr resolved, [Ready])
                       | Inr status \<Rightarrow>
                           (case preflight_disk_space sr model of
                              Inl e \<Rightarrow> (Inl e, [])
                            | Inr _ \<Rightarrow>
                                (case download_from_hugging_face sr model (status \<noteq> Missing) of
                                   (Inl e, downloads) \<Rightarrow> (Inl e, downloads)
                                 | (Inr path, downloads) \<Rightarrow>
                                     apsnd ((@) downloads)
                                       (verify_and_finish sr (sr_files_after sr) model path HuggingFaceCache
                                         checks))))))
           in (result, CheckingCache # stages)))"

section \<open>Valid catalogs\<close>

definition model_ok :: "catalog_model \<Rightarrow> bool" where
  "model_ok model \<longleftrightarrow>
     list_all (\<lambda>(_, v). str_trim v \<noteq> []) (required_fields model) \<and> ct_download_size_bytes model \<noteq> 0 \<and>
     (\<exists>owner name. ct_repository model = owner @ CHR ''/'' # name \<and> CHR ''/'' \<notin> set owner \<and>
        CHR ''/'' \<notin> set name \<and> str_trim owner \<noteq> [] \<and> str_trim name \<noteq> []) \<and>
     ct_format model = ''gguf'' \<and> path_extension (ct_filename model) = Some ''gguf'' \<and>
     is_sha256 (ct_sha256 model)"

lemma check_fields_iff: "check_fields fs = Inr () \<longleftrightarrow> list_all (\<lambda>(_, v). str_trim v \<noteq> []) fs"
  by (induction fs rule: check_fields.induct) auto

lemma split_once_Some_iff: "split_once c s = Some (a, b) \<longleftrightarrow> s = a @ c # b \<and> c \<notin> set a"
proof
  assume split: "split_once c s = Some (a, b)"
  then have c: "c \<in> set s" and a: "a = takeWhile (\<lambda>d. d \<noteq> c) s" and b: "b = tl (dropWhile (\<lambda>d. d \<noteq> c) s)"
    by (auto simp: split_once_def split: if_splits)
  have "dropWhile (\<lambda>d. d \<noteq> c) s \<noteq> []" using c by (simp add: dropWhile_eq_Nil_conv)
  moreover from this have "hd (dropWhile (\<lambda>d. d \<noteq> c) s) = c" using hd_dropWhile by blast
  ultimately have "dropWhile (\<lambda>d. d \<noteq> c) s = c # b" unfolding b by (metis list.collapse)
  then show "s = a @ c # b \<and> c \<notin> set a"
    unfolding a by (metis takeWhile_dropWhile_id set_takeWhileD)
qed (auto simp: split_once_def takeWhile_append dropWhile_append)

lemma first_slash: "a @ c # b = a' @ c # b' \<Longrightarrow> c \<notin> set a \<Longrightarrow> c \<notin> set a' \<Longrightarrow> a = a' \<and> b = b'"
  by (auto simp: append_eq_append_conv2 append_eq_Cons_conv Cons_eq_append_conv)

lemma validate_model_iff: "validate_model model = Inr () \<longleftrightarrow> model_ok model"
proof (cases "split_once (CHR ''/'') (ct_repository model)")
  case None
  then have "CHR ''/'' \<notin> set (ct_repository model)" by (simp add: split_once_def split: if_splits)
  with None show ?thesis
    by (auto simp: validate_model_def model_ok_def split: sum.splits)
next
  case (Some p)
  obtain owner name where p: "p = (owner, name)" by (cases p)
  note repo = Some [unfolded p split_once_Some_iff]
  have "(\<exists>owner' name'. ct_repository model = owner' @ CHR ''/'' # name' \<and> CHR ''/'' \<notin> set owner' \<and>
      CHR ''/'' \<notin> set name' \<and> str_trim owner' \<noteq> [] \<and> str_trim name' \<noteq> []) \<longleftrightarrow>
    CHR ''/'' \<notin> set name \<and> str_trim owner \<noteq> [] \<and> str_trim name \<noteq> []"
    using repo first_slash by metis
  then show ?thesis
    using Some p check_fields_iff [of "required_fields model"]
    by (cases "check_fields (required_fields model)") (auto simp: validate_model_def model_ok_def)
qed

lemma validate_entries_iff:
  "validate_entries catalog models = Inr () \<longleftrightarrow>
     list_all (\<lambda>m. model_ok m \<and> length (filter (\<lambda>other. ct_id other = ct_id m) catalog) = 1) models"
proof (induction models)
  case (Cons m models)
  then show ?case
    using validate_model_iff [of m] by (cases "validate_model m") auto
qed simp

lemma single_keys_iff:
  "list_all (\<lambda>m. length (filter (\<lambda>other. f other = f m) xs) = 1) xs \<longleftrightarrow> distinct (map f xs)"
proof -
  have count: "length (filter (\<lambda>other. f other = f m) xs) = count (mset (map f xs)) (f m)" for m
    by (induction xs) auto
  show ?thesis
    unfolding count distinct_count_atmost_1 list_all_iff
    by (auto simp: count_eq_zero_iff)
qed


text \<open>
  A catalog is accepted exactly when it parses, is not empty, every entry names everything it
  needs (an owner/name repository, a GGUF file, a SHA-256 digest, a positive size), the ids are
  distinct and exactly one entry is recommended; the accepted catalog is the parsed one.
\<close>

theorem catalog_from_toml_correct:
  "catalog_from_toml parse_toml input = Inr catalog \<longleftrightarrow>
     parse_toml input = Inr catalog \<and> catalog \<noteq> [] \<and> list_all model_ok catalog \<and>
     distinct (map ct_id catalog) \<and> length (filter ct_recommended catalog) = 1"
proof -
  have entries: "validate_entries catalog' catalog' = Inr () \<longleftrightarrow> list_all model_ok catalog' \<and> distinct (map ct_id catalog')" for catalog'
    unfolding validate_entries_iff single_keys_iff [symmetric] by (auto simp: list_all_iff)
  have "validate_catalog catalog' = Inr () \<longleftrightarrow>
      catalog' \<noteq> [] \<and> list_all model_ok catalog' \<and> distinct (map ct_id catalog') \<and> length (filter ct_recommended catalog') = 1" for catalog'
    unfolding validate_catalog_def conj_assoc [symmetric] entries [symmetric]
    by (cases "validate_entries catalog' catalog'") auto
  from this [of catalog] show ?thesis
    by (cases "parse_toml input") (auto simp: catalog_from_toml_def error_context_def split: sum.splits)
qed

lemma find_distinct_key: "distinct (map f xs) \<Longrightarrow> x \<in> set xs \<Longrightarrow> find (\<lambda>y. f y = f x) xs = Some x"
  by (induction xs) auto

text \<open>The models of \<open>catalog.toml\<close>.\<close>

definition embedded_models :: model_catalog where
  "embedded_models =
     [\<lparr>ct_id = ''qwen2.5-0.5b-instruct-q4-k-m'', ct_display_name = ''Qwen2.5 0.5B Instruct Q4_K_M'',
       ct_description = ''Fastest supported option with the lowest memory and disk requirements.'',
       ct_download_size_bytes = 491000000, ct_recommended = False, ct_format = ''gguf'',
       ct_repository = ''Qwen/Qwen2.5-0.5B-Instruct-GGUF'',
       ct_revision = ''872f8a96064a1242ac3a3359cad77c3042548405'',
       ct_filename = ''qwen2.5-0.5b-instruct-q4_k_m.gguf'',
       ct_sha256 = ''74a4da8c9fdbcd15bd1f6d01d621410d31c6fc00986f5eb687824e7b93d7a9db'',
       ct_architecture = ''qwen2'', ct_quantization = Some ''Q4_K_M''\<rparr>,
      \<lparr>ct_id = ''qwen2.5-1.5b-instruct-q4-k-m'', ct_display_name = ''Qwen2.5 1.5B Instruct Q4_K_M'',
       ct_description = ''Balanced local model with better extraction quality for email knowledge graphs.'',
       ct_download_size_bytes = 1120000000, ct_recommended = True, ct_format = ''gguf'',
       ct_repository = ''Qwen/Qwen2.5-1.5B-Instruct-GGUF'',
       ct_revision = ''91cad51170dc346986eccefdc2dd33a9da36ead9'',
       ct_filename = ''qwen2.5-1.5b-instruct-q4_k_m.gguf'',
       ct_sha256 = ''6a1a2eb6d15622bf3c96857206351ba97e1af16c30d7a74ee38970e434e9407e'',
       ct_architecture = ''qwen2'', ct_quantization = Some ''Q4_K_M''\<rparr>]"

text \<open>
  Every entry of an accepted catalog is found under its id, and only such entries are found.
\<close>

theorem catalog_lookup:
  assumes "catalog_from_toml parse_toml input = Inr catalog"
  shows "catalog_get catalog i = Inr model \<longleftrightarrow> model \<in> set catalog \<and> ct_id model = i"
proof -
  have "validate_entries catalog catalog = Inr ()"
    using assms
    by (auto simp: catalog_from_toml_def error_context_def validate_catalog_def split: sum.splits if_splits)
  then have dist: "distinct (map ct_id catalog)"
    unfolding validate_entries_iff single_keys_iff [symmetric] by (auto simp: list_all_iff)
  show ?thesis
  proof
    assume "catalog_get catalog i = Inr model"
    then show "model \<in> set catalog \<and> ct_id model = i"
      by (auto simp: catalog_get_def find_Some_iff split: option.splits)
  next
    assume "model \<in> set catalog \<and> ct_id model = i"
    then show "catalog_get catalog i = Inr model"
      using find_distinct_key [OF dist, of model] by (auto simp: catalog_get_def)
  qed
qed

lemma embedded_accepted: "catalog_from_toml (\<lambda>_. Inr embedded_models) [] = Inr embedded_models"
  by code_simp

theorem catalog_lookup_witness:
  "\<exists>model. catalog_get embedded_models ''qwen2.5-1.5b-instruct-q4-k-m'' = Inr model \<and> ct_recommended model"
  using catalog_lookup [OF embedded_accepted, of "''qwen2.5-1.5b-instruct-q4-k-m''" "embedded_models ! 1"]
  by (auto simp: embedded_models_def)


section \<open>Integrity\<close>

text \<open>What reading the file to its end yields, when every read succeeds.\<close>

fun contents :: "(anyhow + bytes) list \<Rightarrow> bytes option" where
  "contents [] = Some []"
| "contents (Inl e # reads) = None"
| "contents (Inr bs # reads) = (if bs = [] then Some [] else map_option ((@) bs) (contents reads))"

text \<open>The file at a path is the catalog's: it is a readable GGUF file with the pinned digest.\<close>

definition is_model_file :: "(bytes \<Rightarrow> string) \<Rightarrow> (string \<Rightarrow> file_state) \<Rightarrow> string \<Rightarrow> catalog_model \<Rightarrow> bool" where
  "is_model_file sha256 files path model \<longleftrightarrow>
     fs_is_file (files path) \<and> path_extension path = Some ''gguf'' \<and> fs_open (files path) = Inr () \<and>
     (case contents (fs_reads (files path)) of
        None \<Rightarrow> False
      | Some bs \<Rightarrow> eq_ignore_ascii_case (sha256 bs) (ct_sha256 model))"

lemma hash_loop_Inr:
  "fst (hash_loop path n checks reads hashed verified) = Inr bs \<Longrightarrow>
     \<exists>rest. contents reads = Some rest \<and> bs = hashed @ rest"
proof (induction path n checks reads hashed verified rule: hash_loop.induct)
  case (3 path n checks b reads hashed verified)
  then show ?case by (fastforce simp: Let_def split: if_splits prod.splits)
qed (auto split: if_splits)

lemma hash_loop_uncancelled:
  "contents reads = Some rest \<Longrightarrow> fst (hash_loop path n None reads hashed verified) = Inr (hashed @ rest)"
proof (induction reads arbitrary: rest hashed verified)
  case (Cons r reads)
  then show ?case
    by (cases r) (auto simp: Let_def split: if_splits prod.splits dest: arg_cong [where f = fst])
qed simp

lemma hash_loop_not_ready: "Ready \<notin> set (snd (hash_loop path n checks reads hashed verified))"
  by (induction path n checks reads hashed verified rule: hash_loop.induct)
    (auto simp: Let_def split: prod.splits)

lemma fst_verify_file:
  "fst (verify_file_with_progress sha256 path file model checks) =
     (if \<not> fs_is_file file then Inl (Other [''model file does not exist: '' @ path])
      else if path_extension path \<noteq> Some ''gguf'' then Inl (Other [''expected a .gguf model file, got '' @ path])
      else (case fs_open file of
        Inl e \<Rightarrow> Inl (Other ((''open '' @ path) # e))
      | Inr _ \<Rightarrow>
          (case fst (hash_loop path (case fs_length file of Some n \<Rightarrow> n | None \<Rightarrow> 0) checks (fs_reads file) [] 0) of
             Inl e \<Rightarrow> Inl e
           | Inr bs \<Rightarrow>
               if \<not> eq_ignore_ascii_case (sha256 bs) (ct_sha256 model)
               then Inl (Other [''SHA-256 mismatch for '' @ path @ '': expected '' @ ct_sha256 model @
                                '', got '' @ sha256 bs])
               else Inr ())))"
  by (auto simp: verify_file_with_progress_def sha256_file_def Let_def split_beta split: sum.split)

lemma verify_file_Inr:
  "fst (verify_file_with_progress sha256 path (files path) model checks) = Inr () \<Longrightarrow> is_model_file sha256 files path model"
  by (auto simp: fst_verify_file is_model_file_def split: if_splits sum.splits dest!: hash_loop_Inr)

lemma verify_file_uncancelled:
  "is_model_file sha256 files path model \<Longrightarrow>
     fst (verify_file_with_progress sha256 path (files path) model None) = Inr ()"
  by (auto simp: fst_verify_file is_model_file_def hash_loop_uncancelled split: option.splits sum.splits)

lemma verify_file_not_ready:
  "Ready \<notin> set (snd (verify_file_with_progress sha256 path file model checks))"
  by (simp add: verify_file_with_progress_def sha256_file_def Let_def split_beta hash_loop_not_ready split: sum.split)

lemma download_not_ready: "Ready \<notin> set (snd (download_from_hugging_face sr model force_download))"
proof -
  have "download_stage event \<noteq> Some Ready" for event by (cases event) auto
  then show ?thesis
    by (auto simp: download_from_hugging_face_def List.map_filter_def split: sum.split)
qed

text \<open>
  The last stage of a resolution is \<open>Ready\<close> exactly when it succeeds, and no earlier stage is.
\<close>

lemma verify_and_finish_ready:
  "(case fst (verify_and_finish sr files model path source checks) of
      Inl _ \<Rightarrow> Ready \<notin> set (snd (verify_and_finish sr files model path source checks))
    | Inr resolved \<Rightarrow>
        resolved = resolved_model_for model path source \<and> is_model_file (sr_sha256 sr) files path model \<and>
        (\<exists>stages. snd (verify_and_finish sr files model path source checks) = stages @ [Ready] \<and>
           Ready \<notin> set stages))"
proof (cases "verify_file_with_progress (sr_sha256 sr) path (files path) model checks")
  case (Pair result stages)
  moreover have "Ready \<notin> set stages"
    using verify_file_not_ready [of "sr_sha256 sr" path "files path" model checks] Pair by simp
  moreover have "result = Inr () \<Longrightarrow> is_model_file (sr_sha256 sr) files path model"
    using verify_file_Inr [of "sr_sha256 sr" path files model checks] Pair by simp
  ultimately show ?thesis by (auto simp: verify_and_finish_def split: sum.splits)
qed

definition settled_resolution ::
  "surroundings \<Rightarrow> catalog_model \<Rightarrow> string option \<Rightarrow> (resolve_error + resolved_model) \<times> resolve_stage list \<Rightarrow> bool" where
  "settled_resolution sr model local_override outcome \<longleftrightarrow>
     (case fst outcome of
        Inl _ \<Rightarrow> Ready \<notin> set (snd outcome)
      | Inr resolved \<Rightarrow>
          model_ok model \<and>
          (\<exists>path.
             (case local_override of
                Some given \<Rightarrow>
                  path = given \<and> is_model_file (sr_sha256 sr) (sr_files sr) path model \<and>
                  resolved = resolved_model_for model path LocalOverride
              | None \<Rightarrow>
                  (is_model_file (sr_sha256 sr) (sr_files sr) path model \<or>
                   is_model_file (sr_sha256 sr) (sr_files_after sr) path model) \<and>
                  resolved = resolved_model_for model path HuggingFaceCache)) \<and>
          (\<exists>stages. snd outcome = stages @ [Ready] \<and> Ready \<notin> set stages))"

lemma settled_resolution_intros:
  "Ready \<notin> set stages \<Longrightarrow> settled_resolution sr model ov (Inl e, stages)"
  by (simp add: settled_resolution_def)

lemma inspect_cache_Verified:
  assumes "inspect_cache sr model = Inr (Verified resolved)"
  shows "\<exists>path. is_model_file (sr_sha256 sr) (sr_files sr) path model \<and>
    resolved = resolved_model_for model path HuggingFaceCache"
  using assms verify_file_Inr [where files = "sr_files sr"]
  by (fastforce simp: inspect_cache_def split: sum.splits hub_lookup.splits)

lemma settled_download:
  assumes "model_ok model"
  shows "settled_resolution sr model None
    (fst (verify_and_finish sr (sr_files_after sr) model path HuggingFaceCache checks),
     CheckingCache # snd (download_from_hugging_face sr model force_download) @
       snd (verify_and_finish sr (sr_files_after sr) model path HuggingFaceCache checks))"
  using assms download_not_ready [of sr model force_download]
    verify_and_finish_ready [of sr "sr_files_after sr" model path HuggingFaceCache checks]
  by (auto simp: settled_resolution_def split: sum.splits)

lemma settled_resolutions:
  "settled_resolution sr model local_override (resolve_with_progress sr model local_override checks)"
proof (cases "validate_model model")
  case (Inr u)
  then have ok: "model_ok model" using validate_model_iff [of model] by simp
  obtain running checks' where passes: "passes checks = (running, checks')" by (cases "passes checks")
  note defs = resolve_with_progress_def Inr passes
  show ?thesis
  proof (cases "running \<and> local_override = None")
    case False
    then show ?thesis
      using ok verify_and_finish_ready [of sr "sr_files sr" model "the local_override" LocalOverride checks']
      by (cases "verify_and_finish sr (sr_files sr) model (the local_override) LocalOverride checks'"; cases running)
        (auto simp: defs settled_resolution_def split: sum.splits option.splits)
  next
    case True
    show ?thesis
    proof (cases "\<exists>resolved. inspect_cache sr model = Inr (Verified resolved)")
      case True
      then obtain resolved where cached: "inspect_cache sr model = Inr (Verified resolved)" ..
      show ?thesis
        using inspect_cache_Verified [OF cached] ok \<open>running \<and> local_override = None\<close>
        by (auto simp: defs cached settled_resolution_def)
    next
      case False
      then show ?thesis
        using ok \<open>running \<and> local_override = None\<close>
        by (auto simp: defs settled_resolution_intros settled_download download_not_ready Let_def split_beta
            split: sum.split cache_status.split)
    qed
  qed
qed (simp add: resolve_with_progress_def settled_resolution_def)

text \<open>
  C23. A resolution that succeeds hands out a file whose contents have the digest the catalog pins:
  the local override when one is given, else the cached or the downloaded file; its manifest
  carries that digest. \<open>Ready\<close> is reported exactly then, once, as the last stage.
\<close>

theorem resolution_verified:
  "settled_resolution sr model local_override (resolve_with_progress sr model local_override checks)"
  by (rule settled_resolutions)


text \<open>
  With a local override and no cancellation the resolution succeeds exactly when the entry is
  valid and the file is a readable GGUF file with the entry's digest; nothing else is consulted.
\<close>

theorem local_override_resolves:
  "(\<exists>resolved. fst (resolve_with_progress sr model (Some path) None) = Inr resolved) \<longleftrightarrow>
     model_ok model \<and> is_model_file (sr_sha256 sr) (sr_files sr) path model"
proof (cases "validate_model model")
  case (Inl e)
  then show ?thesis using validate_model_iff [of model] by (auto simp: resolve_with_progress_def)
next
  case (Inr u)
  then have "model_ok model" using validate_model_iff [of model] by simp
  moreover have "(\<exists>resolved. fst (verify_and_finish sr (sr_files sr) model path LocalOverride None) = Inr resolved) \<longleftrightarrow>
      is_model_file (sr_sha256 sr) (sr_files sr) path model"
    using verify_file_Inr [of "sr_sha256 sr" path "sr_files sr" model None]
      verify_file_uncancelled [of "sr_sha256 sr" "sr_files sr" path model]
    by (cases "verify_file_with_progress (sr_sha256 sr) path (sr_files sr path) model None")
      (auto simp: verify_and_finish_def split: sum.splits)
  ultimately show ?thesis using Inr by (simp add: resolve_with_progress_def split_beta)
qed

lemma unat_required_space:
  "unat (required_space model) =
     min (2 ^ 64 - 1) (unat (ct_download_size_bytes model) +
       max (unat (ct_download_size_bytes model) div 10) (256 * 1024 * 1024))"
proof -
  have "unat (max (ct_download_size_bytes model div 10) (256 * 1024 * 1024)) =
      max (unat (ct_download_size_bytes model) div 10) (256 * 1024 * 1024)"
    by (simp add: max_def word_le_nat_alt unat_div)
  then show ?thesis by (simp add: required_space_def unat_saturating_add)
qed

text \<open>
  A download starts only when no override is given, the cache holds no verified copy and the
  cache's file system has room for the download and a reserve: a tenth of it, at least 256 MiB.
\<close>

theorem download_has_space:
  assumes "Downloading completed bytes_total rate \<in> set (snd (resolve_with_progress sr model local_override checks))"
  shows "local_override = None \<and> (\<forall>resolved. inspect_cache sr model \<noteq> Inr (Verified resolved)) \<and>
    (\<exists>available. sr_free_space sr = Inr available \<and>
       min (2 ^ 64 - 1) (unat (ct_download_size_bytes model) +
         max (unat (ct_download_size_bytes model) div 10) (256 * 1024 * 1024)) \<le> unat available)"
proof -
  have hash: "Downloading completed bytes_total rate \<notin> set (snd (hash_loop path n checks reads hashed verified))"
    for path n checks reads hashed verified
    by (induction path n checks reads hashed verified rule: hash_loop.induct)
      (auto simp: Let_def split: prod.splits)
  have verify: "Downloading completed bytes_total rate \<notin> set (snd (verify_and_finish sr files model path source checks))"
    for files path source checks
    by (simp add: verify_and_finish_def verify_file_with_progress_def sha256_file_def Let_def split_beta hash
        split: sum.split)
  have space: "preflight_disk_space sr model = Inr () \<Longrightarrow>
      \<exists>available. sr_free_space sr = Inr available \<and> required_space model \<le> available"
    by (auto simp: preflight_disk_space_def split: sum.splits if_splits)
  show ?thesis
    unfolding unat_required_space [symmetric] word_le_nat_alt [symmetric]
    using assms space verify
    by (auto simp: resolve_with_progress_def Let_def split_beta
        split: sum.splits option.splits if_splits cache_status.splits)
qed

definition demo_surroundings :: surroundings where
  "demo_surroundings =
     \<lparr>sr_sha256 = (\<lambda>_. ct_sha256 (embedded_models ! 0)), sr_client = Inr (), sr_lookup = NotFound,
      sr_files = (\<lambda>_. \<lparr>fs_is_file = False, fs_length = None, fs_open = Inl [], fs_reads = []\<rparr>),
      sr_free_space = Inr 1000000000, sr_download_events = [Start 491000000, Complete],
      sr_download = (\<lambda>_. Inr ''m.gguf''), sr_download_cancelled = False,
      sr_files_after = (\<lambda>_. \<lparr>fs_is_file = True, fs_length = Some 4, fs_open = Inr (),
                             fs_reads = [Inr ''GGUF'', Inr []]\<rparr>)\<rparr>"

definition demo_model :: catalog_model where
  "demo_model = embedded_models ! 0"

lemma demo_model_valid:
  "validate_model demo_model = Inr ()"
  "split_once (CHR ''/'') (ct_repository demo_model) = Some (''Qwen'', ''Qwen2.5-0.5B-Instruct-GGUF'')"
  by code_simp+

lemma demo_model_size: "ct_download_size_bytes demo_model = 491000000"
  by (simp add: demo_model_def embedded_models_def)

lemma demo_download:
  "Downloading 0 491000000 None \<in> set (snd (resolve_with_progress demo_surroundings demo_model None None))"
proof -
  have "preflight_disk_space demo_surroundings demo_model = Inr ()"
    by (simp add: preflight_disk_space_def hugging_face_client_def error_context_def demo_surroundings_def
        word_less_nat_alt unat_required_space demo_model_size)
  moreover have "inspect_cache demo_surroundings demo_model = Inr Missing"
    by (simp add: inspect_cache_def demo_model_valid hugging_face_repository_def hugging_face_client_def
        error_context_def demo_surroundings_def)
  ultimately show ?thesis
    by (simp add: resolve_with_progress_def demo_model_valid download_from_hugging_face_def
        hugging_face_repository_def hugging_face_client_def error_context_def List.map_filter_def
        demo_surroundings_def split_beta)
qed

theorem download_has_space_witness:
  "\<exists>available. sr_free_space demo_surroundings = Inr available \<and> 759435456 \<le> unat available"
  using download_has_space [OF demo_download] by (simp add: demo_model_size)

end
