(* ===== verification/Utf8.thy ===== *)
theory Utf8
  imports Rust_Str
begin

text \<open>
  Well-formed texts. The type \<open>String\<close> of Rust promises UTF-8; here this promise is the predicate
  \<open>utf8_valid\<close> on bytes, and the functions of \<open>Rust_Str\<close> are shown to keep it. A slice \<open>&s[..i]\<close>
  panics when \<open>i\<close> is not a boundary of a character: \<open>slice_to\<close> and \<open>slice_from\<close> are the checked slices.
\<close>

named_theorems utf8_intros \<open>operations that keep texts well-formed\<close>

section \<open>Boundaries of characters\<close>

definition char_boundary :: "string \<Rightarrow> nat \<Rightarrow> bool" where
  "char_boundary s i \<longleftrightarrow> i = 0 \<or> i = length s \<or> i < length s \<and> \<not> is_cont (s ! i)"

definition slice_to :: "string \<Rightarrow> nat \<Rightarrow> string option" where
  "slice_to s i = (if char_boundary s i then Some (take i s) else None)"

definition slice_from :: "string \<Rightarrow> nat \<Rightarrow> string option" where
  "slice_from s i = (if char_boundary s i then Some (drop i s) else None)"

abbreviation ascii :: "char \<Rightarrow> bool" where
  "ascii c \<equiv> in_range 0 0x7F c"

lemma ascii_not_cont: "ascii c \<Longrightarrow> \<not> is_cont c"
  by (simp add: in_range_def)

text \<open>The first byte of a character is no continuation byte, all others are.\<close>

lemma utf8_char_head: "utf8_char s = Some n \<Longrightarrow> \<not> is_cont (hd s)"
  by (induction s rule: utf8_char.induct)
    (auto simp: in_range_def utf8_three_def utf8_four_def split: if_splits)

lemma utf8_char_tail:
  assumes "utf8_char s = Some n" and "0 < i" and "i < n"
  shows "is_cont (s ! i)"
proof -
  from assms(2,3) consider "i = 1" | "i = 2" | "i = 3" | "4 \<le> i" by linarith
  then show ?thesis
    using assms
    by cases (induction s rule: utf8_char.induct;
        auto simp: in_range_def utf8_three_def utf8_four_def split: if_splits)+
qed

lemma utf8_char_prefix:
  assumes "utf8_char (a @ b) = Some n" and "n \<le> length a"
  shows "utf8_char a = Some n"
  using utf8_char_append [OF utf8_char_take [OF assms(1)], of "drop n a"] assms(2) by simp

lemma utf8_valid_cases:
  assumes "utf8_valid s" and "s \<noteq> []"
  obtains n where "utf8_char s = Some n" "0 < n" "n \<le> length s" "utf8_valid (drop n s)"
  using assms utf8_valid.simps [of s] utf8_char_inside [of s] by (auto split: option.splits)

lemma utf8_valid_head: "utf8_valid s \<Longrightarrow> s \<noteq> [] \<Longrightarrow> \<not> is_cont (hd s)"
  by (erule utf8_valid_cases) (auto dest: utf8_char_head)

text \<open>A text cut in front of a byte that is no continuation byte is well-formed on both sides.\<close>

lemma utf8_valid_prefix:
  assumes "utf8_valid (a @ b)" and "b = [] \<or> \<not> is_cont (hd b)"
  shows "utf8_valid a"
  using assms(1)
proof (induction a rule: length_induct)
  case (1 a)
  show ?case
  proof (cases "a = []")
    case False
    with "1.prems" obtain n where n: "utf8_char (a @ b) = Some n" "0 < n" "n \<le> length (a @ b)"
      and rest: "utf8_valid (drop n (a @ b))"
      using utf8_valid_cases [of "a @ b"] by blast
    have inside: "n \<le> length a"
    proof (rule ccontr)
      assume outside: "\<not> n \<le> length a"
      with n(3) have "b \<noteq> []" by auto
      moreover have "is_cont ((a @ b) ! length a)"
        using outside False by (intro utf8_char_tail [OF n(1)]) auto
      ultimately show False using assms(2) by (simp add: nth_append hd_conv_nth)
    qed
    then have "utf8_valid (drop n a)" using rest "1.IH" n(2) False by simp
    then show ?thesis using utf8_valid_char [OF utf8_char_prefix [OF n(1) inside]] by simp
  qed simp
qed

lemma utf8_valid_split:
  assumes "utf8_valid (a @ b)" and "b = [] \<or> \<not> is_cont (hd b)"
  shows "utf8_valid a" "utf8_valid b"
  using utf8_valid_prefix [OF assms] utf8_valid_append [of a b] assms(1) by auto

lemma boundary_slices:
  assumes "utf8_valid s" and "char_boundary s i"
  shows "utf8_valid (take i s)" "utf8_valid (drop i s)"
proof -
  have "drop i s = [] \<or> \<not> is_cont (hd (drop i s)) \<or> i = 0"
    using assms(2) by (auto simp: char_boundary_def hd_drop_conv_nth)
  then show "utf8_valid (take i s)" "utf8_valid (drop i s)"
    using utf8_valid_split [of "take i s" "drop i s"] assms(1) by auto
qed

section \<open>Operations\<close>

lemma utf8_valid_appendI [utf8_intros]: "utf8_valid a \<Longrightarrow> utf8_valid b \<Longrightarrow> utf8_valid (a @ b)"
  by (simp add: utf8_valid_append)

lemma utf8_valid_concat [utf8_intros]: "\<forall>s \<in> set ss. utf8_valid s \<Longrightarrow> utf8_valid (concat ss)"
  by (induction ss) (simp_all add: utf8_valid_append)

lemma utf8_valid_asciis: "list_all ascii s \<Longrightarrow> utf8_valid s"
  by (induction s) simp_all

lemma utf8_valid_one: "utf8_char c = Some (length c) \<Longrightarrow> utf8_valid c"
  using utf8_valid_char [of c] by simp

lemma utf8_char_valid: "utf8_char s = Some n \<Longrightarrow> utf8_valid (take n s)"
  using utf8_char_take [of s n] utf8_char_inside [of s n] by (intro utf8_valid_one) auto

lemma utf8_valid_take [utf8_intros]: "utf8_valid (utf8_take n s)"
  by (induction n arbitrary: s) (auto split: option.split intro: utf8_intros utf8_char_valid)

lemma utf8_valid_chars: "c \<in> set (utf8_chars s) \<Longrightarrow> utf8_valid c"
  using utf8_chars_char [of c s] utf8_valid_one [of c] by simp

lemma utf8_valid_lossy [utf8_intros]: "utf8_valid (utf8_lossy s)"
proof (induction s rule: utf8_lossy.induct)
  case (1 s)
  have "utf8_valid [CHR 0xEF, CHR 0xBF, CHR 0xBD]" by code_simp
  then have replaced: "utf8_valid (CHR 0xEF # CHR 0xBF # CHR 0xBD # t) \<longleftrightarrow> utf8_valid t" for t
    using utf8_valid_append [of "[CHR 0xEF, CHR 0xBF, CHR 0xBD]" t] by simp
  show ?case
    using 1 by (subst utf8_lossy.simps) (auto simp: replaced split: option.split intro: utf8_intros utf8_char_valid)
qed

lemma utf8_valid_ellipsis [utf8_intros]: "utf8_valid ellipsis"
  unfolding ellipsis_def by code_simp

lemma utf8_valid_strip_prefix: "strip_prefix p s = Some r \<Longrightarrow> utf8_valid p \<Longrightarrow> utf8_valid s \<Longrightarrow> utf8_valid r"
  by (simp add: strip_prefix_Some_iff utf8_valid_append)

lemma strip_any_mem: "strip_any ps s = Some r \<Longrightarrow> \<exists>p \<in> set ps. s = p @ r"
  by (induction ps s rule: strip_any.induct) (auto simp: strip_prefix_Some_iff split: option.splits)

lemma white_space_chars: "p \<in> set white_space \<Longrightarrow> utf8_valid p \<and> p \<noteq> [] \<and> \<not> is_cont (hd p)"
proof -
  have "list_all (\<lambda>p. utf8_valid p \<and> p \<noteq> [] \<and> \<not> is_cont (hd p)) white_space" by code_simp
  then show "p \<in> set white_space \<Longrightarrow> utf8_valid p \<and> p \<noteq> [] \<and> \<not> is_cont (hd p)" by (simp add: list_all_iff)
qed

lemma utf8_valid_trim_start [utf8_intros]:
  assumes "utf8_valid s"
  shows "utf8_valid (trim_start s)"
proof -
  have "utf8_valid (trim_with white_space s)"
    using assms
  proof (induction s rule: length_induct)
    case (1 s)
    show ?case
    proof (cases "strip_any white_space s")
      case None
      with "1.prems" show ?thesis by (simp add: trim_with.simps)
    next
      case (Some r)
      then obtain p where p: "p \<in> set white_space" "s = p @ r" using strip_any_mem [OF Some] by auto
      then have "utf8_valid r" "length r < length s"
        using "1.prems" white_space_chars [OF p(1)] by (auto simp: utf8_valid_append)
      then show ?thesis using "1.IH" Some by (simp add: trim_with.simps [of _ s])
    qed
  qed
  then show ?thesis by (simp add: trim_start_def)
qed

lemma utf8_valid_trim_end [utf8_intros]:
  assumes "utf8_valid s"
  shows "utf8_valid (trim_end s)"
proof -
  have "utf8_valid (rev (trim_with (map rev white_space) r))" if "utf8_valid (rev r)" for r
    using that
  proof (induction r rule: length_induct)
    case (1 r)
    show ?case
    proof (cases "strip_any (map rev white_space) r")
      case None
      with "1.prems" show ?thesis by (simp add: trim_with.simps)
    next
      case (Some r')
      then obtain p where p: "p \<in> set white_space" "rev r = rev r' @ p"
        using strip_any_mem [OF Some] by auto
      then have "utf8_valid (rev r')"
        using "1.prems" white_space_chars [OF p(1)] utf8_valid_prefix [of "rev r'" p] by simp
      moreover have "length r' < length r"
        using arg_cong [OF p(2), of length] white_space_chars [OF p(1)] by simp
      ultimately show ?thesis using "1.IH" Some by (simp add: trim_with.simps [of _ r])
    qed
  qed
  from this [of "rev s"] show ?thesis using assms by (simp add: trim_end_def)
qed

lemma utf8_valid_trim [utf8_intros]: "utf8_valid s \<Longrightarrow> utf8_valid (str_trim s)"
  unfolding str_trim_def by (intro utf8_intros)

lemma utf8_valid_strip_cr [utf8_intros]:
  assumes "utf8_valid l"
  shows "utf8_valid (strip_cr l)"
proof (cases "l \<noteq> [] \<and> last l = CHR 0x0D")
  case True
  then have "butlast l @ [CHR 0x0D] = l" using append_butlast_last_id [of l] by simp
  then show ?thesis
    using assms utf8_valid_prefix [of "butlast l" "[CHR 0x0D]"] True by (simp add: strip_cr_def in_range_def)
next
  case False
  with assms show ?thesis by (auto simp: strip_cr_def)
qed

lemma utf8_valid_lines_acc: "utf8_valid (rev acc @ s) \<Longrightarrow> \<forall>l \<in> set (lines_acc acc s). utf8_valid l"
proof (induction acc s rule: lines_acc.induct)
  case (2 acc c cs)
  show ?case
  proof (cases "c = CHR 0x0A")
    case True
    have "\<not> is_cont c" "in_range 0 0x7F c" by (simp_all add: True in_range_def)
    with utf8_valid_split [OF "2.prems"] have "utf8_valid (rev acc)" "utf8_valid cs" by auto
    then show ?thesis using True "2.IH"(1) by (auto intro: utf8_intros)
  next
    case False
    with 2 show ?thesis by simp
  qed
qed auto

lemma utf8_valid_lines: "utf8_valid s \<Longrightarrow> l \<in> set (str_lines s) \<Longrightarrow> utf8_valid l"
  using utf8_valid_lines_acc [of "[]" s] by (simp add: str_lines_def)

lemma utf8_valid_join [utf8_intros]: "utf8_valid sep \<Longrightarrow> \<forall>s \<in> set ss. utf8_valid s \<Longrightarrow> utf8_valid (str_join sep ss)"
  by (induction sep ss rule: str_join.induct) (auto intro: utf8_intros)

lemma utf8_valid_show_nat [utf8_intros]: "utf8_valid (show_nat n)"
proof -
  have "list_all is_ascii_digit (show_nat n)" using show_nat_digits by blast
  then have "list_all ascii (show_nat n)" by (auto simp: list_all_iff is_ascii_digit_def in_range_def)
  then show ?thesis by (rule utf8_valid_asciis)
qed

section \<open>Cutting at a pattern\<close>

text \<open>The places where a pattern of ASCII characters is found are boundaries, before it and behind it.\<close>

lemma find_sub_boundary:
  assumes "utf8_valid s" and "list_all ascii p" and "p \<noteq> []" and "find_sub p s = Some i"
  shows "char_boundary s i" "char_boundary s (i + length p)"
proof -
  have s: "s = take i s @ p @ drop (i + length p) s" and inside: "i + length p \<le> length s"
    using find_sub_Some [OF assms(4)] by auto
  have head: "\<not> is_cont (hd (p @ t))" for t using assms(2,3) by (cases p) (auto dest: ascii_not_cont)
  have i: "i < length s" using inside assms(3) by (cases p) auto
  have "drop i s = p @ drop (i + length p) s" by (subst s) (use inside in simp)
  then show "char_boundary s i" using head i by (metis char_boundary_def hd_drop_conv_nth)
  have "utf8_valid (p @ drop (i + length p) s)"
    using utf8_valid_split(2) [of "take i s" "p @ drop (i + length p) s"] s assms(1) head by auto
  then have "utf8_valid (drop (i + length p) s)" using utf8_valid_append utf8_valid_asciis [OF assms(2)] by blast
  then have "drop (i + length p) s \<noteq> [] \<Longrightarrow> \<not> is_cont (hd (drop (i + length p) s))" by (rule utf8_valid_head)
  then show "char_boundary s (i + length p)"
    using inside by (cases "i + length p = length s") (auto simp: char_boundary_def hd_drop_conv_nth)
qed

end
