(* ===== verification/Harness_Stream.thy ===== *)
theory Harness_Stream
  imports Sse Core_Types
begin

text \<open>
  The network side of the desktop client, \<open>stream_chat\<close> of \<open>crates/harness/src/main.rs\<close>: what
  it sends to the application while it reads one streamed answer. The HTTP client and the JSON
  parser are parameters; what the loop waits for, cancellation or the next piece of the body,
  is given as the list of its turns, whose end is the end of the body.
\<close>

datatype event =
    ModelsEvent "string + string list"
  | DeltaEvent uuid uuid string
  | CompletedEvent uuid
  | CancelledEvent uuid
  | FailedEvent uuid string

datatype turn = CancelTurn | BodyTurn "string + bytes"

text \<open>The reply to the request: cancelled first, failed, a status that is not a success with its
  text, or a body.\<close>

datatype chat_reply =
    ReplyCancelled
  | ReplyError string
  | ReplyStatus string string
  | ReplyBody "turn list"

text \<open>\<open>Value::pointer("/choices/0/delta/content")\<close> and \<open>as_str\<close>: a token names a member of an
  object, and an element of an array if it is an index.\<close>

definition json_child :: "string \<Rightarrow> nat option \<Rightarrow> json_value \<Rightarrow> json_value option" where
  "json_child token index v =
     (case v of
        JObject _ \<Rightarrow> json_get token v
      | JArray xs \<Rightarrow> (case index of Some i \<Rightarrow> if i < length xs then Some (xs ! i) else None | None \<Rightarrow> None)
      | _ \<Rightarrow> None)"

definition delta_content :: "json_value \<Rightarrow> string option" where
  "delta_content v =
     Option.bind (json_child ''choices'' None v) (\<lambda>choices.
     Option.bind (json_child ''0'' (Some 0) choices) (\<lambda>choice.
     Option.bind (json_child ''delta'' None choice) (\<lambda>delta.
     Option.bind (json_child ''content'' None delta) as_str)))"

definition frame_data :: "bytes \<Rightarrow> string" where
  "frame_data frame = str_join [LF] (data_lines (utf8_lossy frame))"

text \<open>One frame: the events it causes, and whether the task returns.\<close>

definition chat_frame ::
  "(string \<Rightarrow> string + json_value) \<Rightarrow> uuid \<Rightarrow> uuid \<Rightarrow> bytes \<Rightarrow> event list \<times> bool" where
  "chat_frame parse_json conversation message frame =
     (let data = frame_data frame in
      if data = [] then ([], False)
      else if data = ''[DONE]'' then ([CompletedEvent conversation], True)
      else (case parse_json data of
              Inl err \<Rightarrow> ([FailedEvent conversation (''Invalid SSE JSON: '' @ err)], True)
            | Inr v \<Rightarrow>
                (case delta_content v of
                   Some t \<Rightarrow> ([DeltaEvent conversation message t], False)
                 | None \<Rightarrow> ([], False))))"

text \<open>The inner loop takes frames off the buffer until the task returns or none is complete.\<close>

function chat_frames ::
  "(string \<Rightarrow> string + json_value) \<Rightarrow> uuid \<Rightarrow> uuid \<Rightarrow> bytes \<Rightarrow> event list \<times> bool \<times> bytes" where
  "chat_frames parse_json conversation message buffer =
     (case harness_frame_end buffer of
        None \<Rightarrow> ([], False, buffer)
      | Some e \<Rightarrow>
          if 0 < e \<and> e \<le> length buffer
          then (let (events, stop) = chat_frame parse_json conversation message (take e buffer) in
                if stop then (events, True, drop e buffer)
                else (let (more, stop, rest) = chat_frames parse_json conversation message (drop e buffer)
                      in (events @ more, stop, rest)))
          else ([], False, buffer))"
  by pat_completeness auto
termination by (relation "measure (\<lambda>(_, _, _, buffer). length buffer)") auto

declare chat_frames.simps [simp del]

fun chat_turns ::
  "(string \<Rightarrow> string + json_value) \<Rightarrow> uuid \<Rightarrow> uuid \<Rightarrow> bytes \<Rightarrow> turn list \<Rightarrow> event list" where
  "chat_turns parse_json conversation message buffer [] =
     [FailedEvent conversation ''Stream ended before [DONE]'']"
| "chat_turns parse_json conversation message buffer (CancelTurn # turns) = [CancelledEvent conversation]"
| "chat_turns parse_json conversation message buffer (BodyTurn (Inl err) # turns) =
     [FailedEvent conversation (''Stream read failed: '' @ err)]"
| "chat_turns parse_json conversation message buffer (BodyTurn (Inr bs) # turns) =
     (let (events, stop, rest) = chat_frames parse_json conversation message (buffer @ bs) in
      if stop then events else events @ chat_turns parse_json conversation message rest turns)"

definition stream_chat ::
  "(string \<Rightarrow> string + json_value) \<Rightarrow> uuid \<Rightarrow> uuid \<Rightarrow> chat_reply \<Rightarrow> event list" where
  "stream_chat parse_json conversation message reply =
     (case reply of
        ReplyCancelled \<Rightarrow> [CancelledEvent conversation]
      | ReplyError err \<Rightarrow> [FailedEvent conversation (''Request failed: '' @ err)]
      | ReplyStatus status body \<Rightarrow>
          [FailedEvent conversation (''Server returned '' @ status @ '': '' @ body)]
      | ReplyBody turns \<Rightarrow> chat_turns parse_json conversation message [] turns)"

section \<open>Every answer ends with one event\<close>

fun ends_stream :: "uuid \<Rightarrow> event \<Rightarrow> bool" where
  "ends_stream c (CompletedEvent d) \<longleftrightarrow> c = d"
| "ends_stream c (CancelledEvent d) \<longleftrightarrow> c = d"
| "ends_stream c (FailedEvent d _) \<longleftrightarrow> c = d"
| "ends_stream c _ \<longleftrightarrow> False"

lemma chat_frame_shape:
  "chat_frame parse_json c m frame = (events, stop) \<Longrightarrow>
     (if stop then \<exists>e. events = [e] \<and> ends_stream c e else \<exists>ts. events = map (DeltaEvent c m) ts)"
  by (auto simp: chat_frame_def Let_def split: if_splits sum.splits option.splits
      intro: exI [of _ "[]"] exI [of _ "[t]" for t])

lemma chat_frames_shape:
  "chat_frames parse_json c m buffer = (events, stop, rest) \<Longrightarrow>
     \<exists>ts ends. events = map (DeltaEvent c m) ts @ ends \<and>
       (if stop then \<exists>e. ends = [e] \<and> ends_stream c e else ends = [])"
proof (induction parse_json c m buffer arbitrary: events stop rest rule: chat_frames.induct)
  case (1 parse_json c m buffer)
  show ?case
  proof (cases "harness_frame_end buffer")
    case None
    with "1.prems" show ?thesis by (simp add: chat_frames.simps [of _ _ _ buffer])
  next
    case (Some e)
    have inside: "0 < e \<and> e \<le> length buffer" using harness_frames.end_inside [OF Some] by simp
    obtain es st where frame: "chat_frame parse_json c m (take e buffer) = (es, st)" by fastforce
    note shape = chat_frame_shape [OF frame]
    show ?thesis
    proof (cases st)
      case True
      with "1.prems" Some inside frame shape show ?thesis
        by (auto simp: chat_frames.simps [of _ _ _ buffer] intro: exI [of _ "[]"])
    next
      case False
      obtain es' st' rest' where more: "chat_frames parse_json c m (drop e buffer) = (es', st', rest')"
        by (metis prod_cases3)
      from "1.IH" [OF Some inside frame [symmetric] refl False more] obtain ts' ends where
        "es' = map (DeltaEvent c m) ts' @ ends" "if st' then \<exists>e. ends = [e] \<and> ends_stream c e else ends = []" by blast
      moreover from shape False obtain ts where "es = map (DeltaEvent c m) ts" by auto
      moreover have "events = es @ es'" "stop = st'"
        using "1.prems" Some inside frame False more by (simp_all add: chat_frames.simps [of _ _ _ buffer])
      ultimately show ?thesis by (auto intro: exI [of _ "ts @ ts'"])
    qed
  qed
qed

lemma chat_turns_shape:
  "\<exists>ts e. chat_turns parse_json c m buffer turns = map (DeltaEvent c m) ts @ [e] \<and> ends_stream c e"
proof (induction parse_json c m buffer turns rule: chat_turns.induct)
  case (4 parse_json c m buffer bs turns)
  obtain es st rest where frames: "chat_frames parse_json c m (buffer @ bs) = (es, st, rest)"
    by (metis prod_cases3)
  from chat_frames_shape [OF this] obtain ts ends where
    es: "es = map (DeltaEvent c m) ts @ ends" "if st then \<exists>e. ends = [e] \<and> ends_stream c e else ends = []" by blast
  show ?case
  proof (cases st)
    case True
    with frames es show ?thesis by auto
  next
    case False
    from "4.IH" [OF refl frames [symmetric] refl False] obtain ts' e where
      "chat_turns parse_json c m rest turns = map (DeltaEvent c m) ts' @ [e]" "ends_stream c e" by blast
    with frames es False show ?thesis
      by (intro exI [of _ "ts @ ts'"] exI [of _ e]) simp
  qed
qed (auto intro: exI [of _ "[]"])

text \<open>
  However the network and the user behave, the task sends text deltas for its own message and
  then exactly one event that ends the stream, and that event is the last.
\<close>

lemma stream_chat_shape:
  "\<exists>ts e. stream_chat parse_json c m reply = map (DeltaEvent c m) ts @ [e] \<and> ends_stream c e"
proof (cases reply)
  case (ReplyBody turns)
  then show ?thesis using chat_turns_shape [of parse_json c m "[]" turns] by (simp add: stream_chat_def)
qed (auto simp: stream_chat_def intro: exI [of _ "[]"])


section \<open>The network's cuts\<close>

fun frames_events ::
  "(string \<Rightarrow> string + json_value) \<Rightarrow> uuid \<Rightarrow> uuid \<Rightarrow> bytes list \<Rightarrow> event list \<times> bool" where
  "frames_events parse_json c m [] = ([], False)"
| "frames_events parse_json c m (f # fs) =
     (let (events, stop) = chat_frame parse_json c m f in
      if stop then (events, True)
      else (let (more, stop) = frames_events parse_json c m fs in (events @ more, stop)))"

lemma frames_events_append:
  "frames_events parse_json c m (fs @ gs) =
     (let (events, stop) = frames_events parse_json c m fs in
      if stop then (events, True)
      else (let (more, stop) = frames_events parse_json c m gs in (events @ more, stop)))"
  by (induction fs) (auto simp: Let_def split: prod.split)

lemma chat_frames_split:
  "chat_frames parse_json c m buffer = (events, stop, rest) \<Longrightarrow>
     frames_events parse_json c m (fst (split_frames harness_frame_end buffer)) = (events, stop) \<and>
     (stop \<or> rest = snd (split_frames harness_frame_end buffer))"
proof (induction parse_json c m buffer arbitrary: events stop rest rule: chat_frames.induct)
  case (1 parse_json c m buffer)
  show ?case
  proof (cases "harness_frame_end buffer")
    case None
    with "1.prems" show ?thesis
      by (simp add: chat_frames.simps [of _ _ _ buffer] harness_frames.split_frames_None)
  next
    case (Some e)
    have inside: "0 < e \<and> e \<le> length buffer" using harness_frames.end_inside [OF Some] by simp
    obtain es st where frame: "chat_frame parse_json c m (take e buffer) = (es, st)" by fastforce
    note run = chat_frames.simps [of _ _ _ buffer] harness_frames.split_frames_Some [OF Some] Some inside frame
    show ?thesis
    proof (cases st)
      case True
      with "1.prems" show ?thesis by (simp add: run)
    next
      case False
      obtain es' st' rest' where more: "chat_frames parse_json c m (drop e buffer) = (es', st', rest')"
        by (metis prod_cases3)
      from "1.IH" [OF Some inside frame [symmetric] refl False more] "1.prems" False more show ?thesis
        by (auto simp: run)
    qed
  qed
qed

lemma chat_turns_chunks:
  "split_frames harness_frame_end buffer = ([], buffer) \<Longrightarrow>
   chat_turns parse_json c m buffer (map (BodyTurn \<circ> Inr) chunks @ turns) =
     (let (frames, rest) = feed_chunks harness_frame_end buffer chunks;
          (events, stop) = frames_events parse_json c m frames
      in if stop then events else events @ chat_turns parse_json c m rest turns)"
proof (induction chunks arbitrary: buffer)
  case Nil
  then show ?case by simp
next
  case (Cons chunk chunks)
  obtain es st rest where frames: "chat_frames parse_json c m (buffer @ chunk) = (es, st, rest)"
    by (metis prod_cases3)
  note split = chat_frames_split [OF frames]
  note stop = harness_frames.split_frames_rest [of "buffer @ chunk"]
  show ?case
  proof (cases st)
    case True
    with frames split show ?thesis by (simp add: frames_events_append case_prod_beta)
  next
    case False
    with split have rest: "rest = snd (split_frames harness_frame_end (buffer @ chunk))" by simp
    with stop have "split_frames harness_frame_end rest = ([], rest)" by simp
    from Cons.IH [OF this] False frames split rest show ?thesis
      by (simp add: frames_events_append case_prod_beta Let_def)
  qed
qed

lemma chat_turns_body:
  "chat_turns parse_json c m [] (map (BodyTurn \<circ> Inr) chunks @ turns) =
     (let (frames, rest) = split_frames harness_frame_end (concat chunks);
          (events, stop) = frames_events parse_json c m frames
      in if stop then events else events @ chat_turns parse_json c m rest turns)"
proof -
  have start: "split_frames harness_frame_end [] = ([], [])"
    by (simp add: harness_frames.split_frames_None harness_frame_end_Nil)
  show ?thesis
    using chat_turns_chunks [OF start, of parse_json c m chunks turns]
      harness_frames.feed_chunks_concat [of "[]" chunks] start by simp
qed

text \<open>
  What the application is sent depends only on the bytes of the body, not on how the network
  cuts them, also when the body is followed by a read error or by cancellation.
\<close>

theorem stream_chat_chunking:
  "concat chunks = concat chunks' \<Longrightarrow>
   stream_chat parse_json c m (ReplyBody (map (BodyTurn \<circ> Inr) chunks @ turns)) =
   stream_chat parse_json c m (ReplyBody (map (BodyTurn \<circ> Inr) chunks' @ turns))"
  by (simp add: stream_chat_def chat_turns_body)

end
