(* ===== verification/Harness.thy ===== *)
theory Harness
  imports Harness_Stream
begin

text \<open>
  The desktop client \<open>HarnessApp\<close> of \<open>crates/harness/src/main.rs\<close>: its saved state, the
  operations on conversations and messages, and the processing of the events its network tasks
  send. The drawing code is in \<open>Harness_View\<close> and \<open>Widgets\<close>; what the user does is a \<open>ui_action\<close>, enabled when the
  control for it is. A fresh UUID is an argument.
\<close>

section \<open>The saved state\<close>

record settings =
  se_endpoint :: string
  se_model :: string
  se_context_budget :: usize
  se_max_tokens :: usize

datatype role = UserRole | AssistantRole | ErrorRole

record message =
  hm_id :: uuid
  hm_role :: role
  hm_content :: string

record conversation =
  cv_id :: uuid
  cv_title :: string
  cv_system_enabled :: bool
  cv_system_harness :: string
  cv_messages :: "message list"

record saved_state =
  sv_settings :: settings
  sv_conversations :: "conversation list"
  sv_selected :: "uuid option"

definition settings_default :: settings where
  "settings_default =
     \<lparr>se_endpoint = ''http://127.0.0.1:8000'', se_model = ''qwen2.5-0.5b-instruct-q4-k-m'',
      se_context_budget = 2048, se_max_tokens = 256\<rparr>"

definition conversation_new :: "uuid \<Rightarrow> conversation" where
  "conversation_new new_id =
     \<lparr>cv_id = new_id, cv_title = ''New conversation'', cv_system_enabled = False,
      cv_system_harness = [], cv_messages = []\<rparr>"

definition saved_state_default :: "uuid \<Rightarrow> saved_state" where
  "saved_state_default new_id =
     \<lparr>sv_settings = settings_default, sv_conversations = [conversation_new new_id],
      sv_selected = Some new_id\<rparr>"

section \<open>The application\<close>

text \<open>The cancellation token of a stream is shared with its task; here it is a flag.\<close>

record active_stream =
  ac_conversation :: uuid
  ac_user_message :: uuid
  ac_assistant_message :: uuid
  ac_cancelled :: bool

record harness_app =
  ha_state :: saved_state
  ha_draft :: string
  ha_models :: "string list"
  ha_status :: string
  ha_connected :: bool
  ha_active :: "active_stream option"
  ha_pending_delete :: "uuid option"
  ha_show_settings :: bool

text \<open>The body of a request, and the tasks the application spawns.\<close>

record api_message =
  ap_role :: string
  ap_text :: string

record api_request =
  rq_model :: string
  rq_messages :: "api_message list"
  rq_max_tokens :: usize
  rq_stream :: bool

datatype spawned =
    SpawnFetch string
  | SpawnChat string api_request uuid uuid

abbreviation conversations :: "harness_app \<Rightarrow> conversation list" where
  "conversations app \<equiv> sv_conversations (ha_state app)"

definition find_conversation :: "uuid \<Rightarrow> harness_app \<Rightarrow> conversation option" where
  "find_conversation i app = find (\<lambda>c. cv_id c = i) (conversations app)"

definition selected :: "harness_app \<Rightarrow> conversation option" where
  "selected app = Option.bind (sv_selected (ha_state app)) (\<lambda>i. find_conversation i app)"

text \<open>A change of the first conversation with an id, and of the selected one (\<open>selected_mut\<close>).\<close>

definition change_conversation ::
  "uuid \<Rightarrow> (conversation \<Rightarrow> conversation) \<Rightarrow> harness_app \<Rightarrow> harness_app" where
  "change_conversation i f =
     ha_state_update (sv_conversations_update (update_first (\<lambda>c. cv_id c = i) f))"

definition change_selected ::
  "(conversation \<Rightarrow> conversation) \<Rightarrow> harness_app \<Rightarrow> harness_app" where
  "change_selected f app =
     (case sv_selected (ha_state app) of Some i \<Rightarrow> change_conversation i f app | None \<Rightarrow> app)"

definition select_conversation :: "uuid \<Rightarrow> harness_app \<Rightarrow> harness_app" where
  "select_conversation i = ha_state_update (sv_selected_update (\<lambda>_. Some i))"

definition push_conversation :: "conversation \<Rightarrow> harness_app \<Rightarrow> harness_app" where
  "push_conversation c = ha_state_update (sv_conversations_update (\<lambda>cs. cs @ [c]))"

definition new_conversation :: "uuid \<Rightarrow> harness_app \<Rightarrow> harness_app" where
  "new_conversation new_id app =
     push_conversation (conversation_new new_id) (select_conversation new_id app)"

definition cancel_stream_for :: "uuid \<Rightarrow> harness_app \<Rightarrow> bool \<times> harness_app" where
  "cancel_stream_for conversation app =
     (case ha_active app of
        None \<Rightarrow> (False, app)
      | Some stream \<Rightarrow>
          if ac_conversation stream = conversation
          then (True, app\<lparr>ha_active := Some (stream\<lparr>ac_cancelled := True\<rparr>),
                          ha_status := ''Cancelling'' @ ellipsis\<rparr>)
          else (False, app))"

definition remove_conversation :: "uuid \<Rightarrow> uuid \<Rightarrow> harness_app \<Rightarrow> harness_app" where
  "remove_conversation new_id i app =
     (case find_position (\<lambda>c. cv_id c = i) (conversations app) of
        None \<Rightarrow> app
      | Some index \<Rightarrow>
          (let app = snd (cancel_stream_for i app);
               was_selected = (sv_selected (ha_state app) = Some i);
               app = ha_state_update (sv_conversations_update (remove_nth index)) app;
               app =
                 (if conversations app = [] then new_conversation new_id app
                  else if was_selected
                  then (let replacement = min index (length (conversations app) - 1)
                        in select_conversation (cv_id (conversations app ! replacement)) app)
                  else app)
           in if was_selected then app\<lparr>ha_draft := []\<rparr> else app))"

definition clear_selected_conversation :: "harness_app \<Rightarrow> harness_app" where
  "clear_selected_conversation app =
     (case sv_selected (ha_state app) of
        None \<Rightarrow> app
      | Some i \<Rightarrow> change_selected (cv_messages_update (\<lambda>_. [])) (snd (cancel_stream_for i app)))"

definition remove_selected_message :: "uuid \<Rightarrow> harness_app \<Rightarrow> harness_app" where
  "remove_selected_message i app =
     (case sv_selected (ha_state app) of
        None \<Rightarrow> app
      | Some conversation \<Rightarrow>
          (let app =
             (case ha_active app of
                Some stream \<Rightarrow>
                  if ac_conversation stream = conversation \<and>
                     (ac_user_message stream = i \<or> ac_assistant_message stream = i)
                  then snd (cancel_stream_for conversation app) else app
              | None \<Rightarrow> app)
           in change_selected (cv_messages_update (filter (\<lambda>m. hm_id m \<noteq> i))) app))"

definition refresh_models :: "harness_app \<Rightarrow> harness_app \<times> spawned" where
  "refresh_models app =
     (app\<lparr>ha_status := ''Loading models'' @ ellipsis\<rparr>,
      SpawnFetch (se_endpoint (sv_settings (ha_state app))))"

definition harness_new :: "saved_state option \<Rightarrow> uuid \<Rightarrow> harness_app \<times> spawned" where
  "harness_new stored new_id =
     refresh_models
       \<lparr>ha_state = (case stored of Some s \<Rightarrow> s | None \<Rightarrow> saved_state_default new_id),
        ha_draft = [], ha_models = [], ha_status = ''Not connected'', ha_connected = False,
        ha_active = None, ha_pending_delete = None, ha_show_settings = False\<rparr>"

section \<open>Sending a message\<close>

definition api_message_of :: "message \<Rightarrow> api_message option" where
  "api_message_of m =
     (case hm_role m of
        UserRole \<Rightarrow> Some \<lparr>ap_role = ''user'', ap_text = hm_content m\<rparr>
      | AssistantRole \<Rightarrow>
          if hm_content m \<noteq> [] then Some \<lparr>ap_role = ''assistant'', ap_text = hm_content m\<rparr> else None
      | ErrorRole \<Rightarrow> None)"

definition from_conversation :: "settings \<Rightarrow> conversation \<Rightarrow> api_request" where
  "from_conversation settings c =
     \<lparr>rq_model = se_model settings,
      rq_messages =
        (if cv_system_enabled c \<and> str_trim (cv_system_harness c) \<noteq> []
         then [\<lparr>ap_role = ''system'', ap_text = cv_system_harness c\<rparr>] else []) @
        List.map_filter api_message_of (cv_messages c),
      rq_max_tokens = se_max_tokens settings,
      rq_stream = True\<rparr>"

definition push_question :: "uuid \<Rightarrow> uuid \<Rightarrow> string \<Rightarrow> conversation \<Rightarrow> conversation" where
  "push_question user assistant content c =
     (let c = (if cv_messages c = [] then c\<lparr>cv_title := utf8_take 36 content\<rparr> else c)
      in c\<lparr>cv_messages := cv_messages c @
             [\<lparr>hm_id = user, hm_role = UserRole, hm_content = content\<rparr>,
              \<lparr>hm_id = assistant, hm_role = AssistantRole, hm_content = []\<rparr>]\<rparr>)"

definition send ::
  "uuid \<Rightarrow> uuid \<Rightarrow> harness_app \<Rightarrow> harness_app \<times> spawned option" where
  "send user assistant app =
     (if str_trim (ha_draft app) = [] \<or> ha_active app \<noteq> None then (app, None)
      else
        (let settings = sv_settings (ha_state app);
             content = ha_draft app;
             app = app\<lparr>ha_draft := []\<rparr>
         in case selected app of
              None \<Rightarrow> (app, None)
            | Some c \<Rightarrow>
                (let c = push_question user assistant content c;
                     stream = \<lparr>ac_conversation = cv_id c, ac_user_message = user,
                               ac_assistant_message = assistant, ac_cancelled = False\<rparr>
                 in ((change_selected (\<lambda>_. c) app)\<lparr>ha_active := Some stream,
                       ha_status := ''Generating'' @ ellipsis\<rparr>,
                     Some (SpawnChat (se_endpoint settings) (from_conversation settings c) (cv_id c)
                             assistant)))))"

section \<open>Processing events\<close>

definition selected_discovered_model :: "string \<Rightarrow> string list \<Rightarrow> string" where
  "selected_discovered_model current models =
     (if current \<in> set models then current else (case models of m # _ \<Rightarrow> m | [] \<Rightarrow> []))"

definition finish_stream_of :: "uuid \<Rightarrow> string \<Rightarrow> harness_app \<Rightarrow> harness_app" where
  "finish_stream_of conversation status app =
     (case ha_active app of
        Some stream \<Rightarrow>
          if ac_conversation stream = conversation
          then app\<lparr>ha_active := None, ha_status := status\<rparr> else app
      | None \<Rightarrow> app)"

fun process_event :: "uuid \<Rightarrow> event \<Rightarrow> harness_app \<Rightarrow> harness_app" where
  "process_event new_id (ModelsEvent (Inr models)) app =
     ha_state_update (sv_settings_update (se_model_update (\<lambda>current.
         selected_discovered_model current models)))
       (app\<lparr>ha_models := models, ha_status := ''Connected'', ha_connected := True\<rparr>)"
| "process_event new_id (ModelsEvent (Inl err)) app =
     app\<lparr>ha_status := ''Model discovery failed: '' @ err, ha_connected := False\<rparr>"
| "process_event new_id (DeltaEvent conversation message piece) app =
     change_conversation conversation
       (cv_messages_update (update_first (\<lambda>m. hm_id m = message)
         (hm_content_update (\<lambda>content. content @ piece)))) app"
| "process_event new_id (CompletedEvent conversation) app =
     finish_stream_of conversation ''Completed'' app"
| "process_event new_id (CancelledEvent conversation) app =
     finish_stream_of conversation ''Generation cancelled'' app"
| "process_event new_id (FailedEvent conversation err) app =
     change_conversation conversation
       (cv_messages_update (\<lambda>ms. ms @ [\<lparr>hm_id = new_id, hm_role = ErrorRole, hm_content = err\<rparr>]))
       (finish_stream_of conversation ''Request failed'' app)"

text \<open>\<open>try_recv\<close> until the queue is empty; each event comes with the UUID it may use.\<close>

definition process_events :: "(uuid \<times> event) list \<Rightarrow> harness_app \<Rightarrow> harness_app" where
  "process_events events app = fold (\<lambda>(new_id, e). process_event new_id e) events app"

section \<open>What is shown\<close>

text \<open>\<open>div_ceil(4)\<close>, the size of a conversation in bytes, and the warning above the messages.\<close>

definition approximate_tokens :: "usize \<Rightarrow> usize" where
  "approximate_tokens characters =
     (if 0 < characters mod 4 then characters div 4 + 1 else characters div 4)"

definition conversation_size :: "conversation \<Rightarrow> usize" where
  "conversation_size c =
     sum_list (map (\<lambda>m. of_nat (length (hm_content m))) (cv_messages c)) +
     (if cv_system_enabled c then of_nat (length (cv_system_harness c)) else 0)"

definition context_warning :: "settings \<Rightarrow> conversation \<Rightarrow> bool" where
  "context_warning settings c \<longleftrightarrow>
     se_context_budget settings < approximate_tokens (conversation_size c) + se_max_tokens settings"

text \<open>The bubbles of a conversation: an empty answer is shown only while it is generated.\<close>

definition live_placeholder :: "harness_app \<Rightarrow> conversation \<Rightarrow> message \<Rightarrow> bool" where
  "live_placeholder app c m \<longleftrightarrow>
     hm_role m = AssistantRole \<and> hm_content m = [] \<and>
     (case ha_active app of
        Some stream \<Rightarrow> ac_conversation stream = cv_id c \<and> ac_assistant_message stream = hm_id m
      | None \<Rightarrow> False)"

definition bubbles :: "harness_app \<Rightarrow> conversation \<Rightarrow> (role \<times> string) list" where
  "bubbles app c =
     map (\<lambda>m. (hm_role m, if live_placeholder app c m then ''Thinking'' @ ellipsis else hm_content m))
       (filter (\<lambda>m. \<not> (hm_role m = AssistantRole \<and> hm_content m = [] \<and> \<not> live_placeholder app c m))
         (cv_messages c))"

section \<open>What the user does\<close>

text \<open>The controls of \<open>update\<close>; a control is enabled when it is drawn and active.\<close>

datatype ui_action =
    NewChat uuid
  | SelectChat uuid
  | AskDelete uuid
  | CancelDelete
  | ConfirmDelete uuid
  | EditDraft string
  | ChooseModel string
  | SendDraft uuid uuid
  | StopGeneration
  | ClearChat
  | DeleteMessage uuid
  | OpenSettings
  | CloseSettings
  | RefreshModels
  | EditEndpoint string
  | EditBudget usize
  | EditMaxTokens usize
  | EditSystemEnabled bool
  | EditSystemHarness string

fun enabled :: "harness_app \<Rightarrow> ui_action \<Rightarrow> bool" where
  "enabled app (SelectChat i) \<longleftrightarrow> i \<in> cv_id ` set (conversations app)"
| "enabled app (AskDelete i) \<longleftrightarrow> i \<in> cv_id ` set (conversations app)"
| "enabled app CancelDelete \<longleftrightarrow> ha_pending_delete app \<noteq> None"
| "enabled app (ConfirmDelete _) \<longleftrightarrow> ha_pending_delete app \<noteq> None"
| "enabled app (EditDraft _) \<longleftrightarrow> selected app \<noteq> None"
| "enabled app (ChooseModel model) \<longleftrightarrow> selected app \<noteq> None \<and> model \<in> set (ha_models app)"
| "enabled app (SendDraft _ _) \<longleftrightarrow>
     selected app \<noteq> None \<and> ha_active app = None \<and> str_trim (ha_draft app) \<noteq> []"
| "enabled app StopGeneration \<longleftrightarrow> selected app \<noteq> None \<and> ha_active app \<noteq> None"
| "enabled app ClearChat \<longleftrightarrow> selected app \<noteq> None"
| "enabled app (DeleteMessage i) \<longleftrightarrow>
     (case selected app of Some c \<Rightarrow> i \<in> hm_id ` set (cv_messages c) | None \<Rightarrow> False)"
| "enabled app CloseSettings \<longleftrightarrow> ha_show_settings app"
| "enabled app RefreshModels \<longleftrightarrow> ha_show_settings app"
| "enabled app (EditEndpoint _) \<longleftrightarrow> ha_show_settings app"
| "enabled app (EditBudget n) \<longleftrightarrow> ha_show_settings app \<and> 128 \<le> n \<and> n \<le> 131072"
| "enabled app (EditMaxTokens n) \<longleftrightarrow> ha_show_settings app \<and> 1 \<le> n \<and> n \<le> 8192"
| "enabled app (EditSystemEnabled _) \<longleftrightarrow> ha_show_settings app \<and> selected app \<noteq> None"
| "enabled app (EditSystemHarness _) \<longleftrightarrow>
     ha_show_settings app \<and> (case selected app of Some c \<Rightarrow> cv_system_enabled c | None \<Rightarrow> False)"
| "enabled app _ \<longleftrightarrow> True"

fun perform :: "ui_action \<Rightarrow> harness_app \<Rightarrow> harness_app \<times> spawned option" where
  "perform (NewChat i) app = (new_conversation i app, None)"
| "perform (SelectChat i) app = (select_conversation i app, None)"
| "perform (AskDelete i) app = (app\<lparr>ha_pending_delete := Some i\<rparr>, None)"
| "perform CancelDelete app = (app\<lparr>ha_pending_delete := None\<rparr>, None)"
| "perform (ConfirmDelete new_id) app =
     ((case ha_pending_delete app of
         Some i \<Rightarrow> (remove_conversation new_id i app)\<lparr>ha_pending_delete := None\<rparr>
       | None \<Rightarrow> app), None)"
| "perform (EditDraft s) app = (app\<lparr>ha_draft := s\<rparr>, None)"
| "perform (ChooseModel model) app =
     (ha_state_update (sv_settings_update (se_model_update (\<lambda>_. model))) app, None)"
| "perform (SendDraft user assistant) app = send user assistant app"
| "perform StopGeneration app =
     ((case ha_active app of
         Some stream \<Rightarrow> snd (cancel_stream_for (ac_conversation stream) app) | None \<Rightarrow> app), None)"
| "perform ClearChat app = (clear_selected_conversation app, None)"
| "perform (DeleteMessage i) app = (remove_selected_message i app, None)"
| "perform OpenSettings app = (app\<lparr>ha_show_settings := True\<rparr>, None)"
| "perform CloseSettings app = (app\<lparr>ha_show_settings := False\<rparr>, None)"
| "perform RefreshModels app = (let (app, task) = refresh_models app in (app, Some task))"
| "perform (EditEndpoint s) app =
     (ha_state_update (sv_settings_update (se_endpoint_update (\<lambda>_. s))) app, None)"
| "perform (EditBudget n) app =
     (ha_state_update (sv_settings_update (se_context_budget_update (\<lambda>_. n))) app, None)"
| "perform (EditMaxTokens n) app =
     (ha_state_update (sv_settings_update (se_max_tokens_update (\<lambda>_. n))) app, None)"
| "perform (EditSystemEnabled b) app =
     (change_selected (cv_system_enabled_update (\<lambda>_. b)) app, None)"
| "perform (EditSystemHarness s) app =
     (change_selected (cv_system_harness_update (\<lambda>_. s)) app, None)"

text \<open>The fresh UUIDs an action may draw.\<close>

fun drawn :: "ui_action \<Rightarrow> uuid list" where
  "drawn (NewChat i) = [i]"
| "drawn (ConfirmDelete i) = [i]"
| "drawn (SendDraft user assistant) = [user, assistant]"
| "drawn _ = []"

section \<open>The invariant of the saved state\<close>

text \<open>There is a conversation, the selected one exists, and no UUID is used twice.\<close>

definition conversations_ok :: "conversation list \<Rightarrow> bool" where
  "conversations_ok cs \<longleftrightarrow>
     distinct (map cv_id cs) \<and> (\<forall>c \<in> set cs. distinct (map hm_id (cv_messages c)))"

definition saved_ok :: "saved_state \<Rightarrow> bool" where
  "saved_ok s \<longleftrightarrow>
     conversations_ok (sv_conversations s) \<and>
     (\<exists>i \<in> cv_id ` set (sv_conversations s). sv_selected s = Some i)"

definition ids_of :: "conversation list \<Rightarrow> uuid set" where
  "ids_of cs = cv_id ` set cs \<union> (\<Union>c \<in> set cs. hm_id ` set (cv_messages c))"

abbreviation app_ids :: "harness_app \<Rightarrow> uuid set" where
  "app_ids app \<equiv> ids_of (conversations app)"

section \<open>What the operations change\<close>

lemma conversations_change [simp]:
  "conversations (change_conversation i f app) = update_first (\<lambda>c. cv_id c = i) f (conversations app)"
  by (simp add: change_conversation_def)

lemma selected_change [simp]:
  "sv_selected (ha_state (change_conversation i f app)) = sv_selected (ha_state app)"
  by (simp add: change_conversation_def)

lemma active_change [simp]: "ha_active (change_conversation i f app) = ha_active app"
  by (simp add: change_conversation_def)

lemma active_change_selected [simp]: "ha_active (change_selected f app) = ha_active app"
  by (simp add: change_selected_def split: option.split)

lemma select_conversation_simps [simp]:
  "conversations (select_conversation i app) = conversations app"
  "sv_selected (ha_state (select_conversation i app)) = Some i"
  "ha_active (select_conversation i app) = ha_active app"
  by (simp_all add: select_conversation_def)

lemma push_conversation_simps [simp]:
  "conversations (push_conversation c app) = conversations app @ [c]"
  "sv_selected (ha_state (push_conversation c app)) = sv_selected (ha_state app)"
  "ha_active (push_conversation c app) = ha_active app"
  by (simp_all add: push_conversation_def)

lemma new_conversation_simps [simp]:
  "conversations (new_conversation i app) = conversations app @ [conversation_new i]"
  "sv_selected (ha_state (new_conversation i app)) = Some i"
  "ha_active (new_conversation i app) = ha_active app"
  by (simp_all add: new_conversation_def)

lemma cancel_stream_state [simp]: "ha_state (snd (cancel_stream_for i app)) = ha_state app"
  by (simp add: cancel_stream_for_def split: option.split)

lemma cancel_stream_active:
  "ha_active (snd (cancel_stream_for i app)) =
     map_option (\<lambda>a. if ac_conversation a = i then a\<lparr>ac_cancelled := True\<rparr> else a) (ha_active app)"
  by (simp add: cancel_stream_for_def split: option.split)

lemma finish_stream_state [simp]: "ha_state (finish_stream_of i status app) = ha_state app"
  by (simp add: finish_stream_of_def split: option.split)

lemma finish_stream_active:
  "ha_active (finish_stream_of i status app) =
     (case ha_active app of Some a \<Rightarrow> if ac_conversation a = i then None else Some a | None \<Rightarrow> None)"
  by (simp add: finish_stream_of_def split: option.split)

lemma conversation_new_simps [simp]:
  "cv_id (conversation_new i) = i" "cv_messages (conversation_new i) = []"
  by (simp_all add: conversation_new_def)

lemma ids_of_simps [simp]:
  "ids_of [] = {}"
  "ids_of (c # cs) = insert (cv_id c) (hm_id ` set (cv_messages c)) \<union> ids_of cs"
  "ids_of (cs @ ds) = ids_of cs \<union> ids_of ds"
  by (auto simp: ids_of_def)

lemma ids_of_update:
  assumes "\<And>c. cv_id (f c) = cv_id c" and "\<And>c. hm_id ` set (cv_messages (f c)) \<subseteq> hm_id ` set (cv_messages c) \<union> new"
  shows "ids_of (update_first P f cs) \<subseteq> ids_of cs \<union> new"
proof (induction cs)
  case (Cons c cs)
  then show ?case using assms(1) [of c] assms(2) [of c] by auto
qed simp

lemma conversations_ok_update:
  assumes "conversations_ok cs" and "\<And>c. cv_id (f c) = cv_id c"
    and "\<And>c. c \<in> set cs \<Longrightarrow> distinct (map hm_id (cv_messages c)) \<Longrightarrow> distinct (map hm_id (cv_messages (f c)))"
  shows "conversations_ok (update_first P f cs)"
  using assms set_update_first [of P f cs]
  by (auto simp: conversations_ok_def map_update_first [where f = cv_id] dest!: subsetD)

lemma conversations_ok_append:
  "conversations_ok cs \<Longrightarrow> i \<notin> ids_of cs \<Longrightarrow> conversations_ok (cs @ [conversation_new i])"
  by (auto simp: conversations_ok_def ids_of_def)

lemma conversations_ok_filter: "conversations_ok cs \<Longrightarrow> conversations_ok (filter P cs)"
  by (auto simp: conversations_ok_def distinct_map_filter)

lemma ids_of_filter: "ids_of (filter P cs) \<subseteq> ids_of cs"
  by (auto simp: ids_of_def)

lemma saved_ok_change:
  assumes "saved_ok (ha_state app)" and "\<And>c. cv_id (f c) = cv_id c"
    and "\<And>c. c \<in> set (conversations app) \<Longrightarrow> distinct (map hm_id (cv_messages c)) \<Longrightarrow>
           distinct (map hm_id (cv_messages (f c)))"
  shows "saved_ok (ha_state (change_conversation i f app))"
proof -
  have "cv_id ` set (update_first P f cs) = cv_id ` set cs" for P cs
    using map_update_first [where f = cv_id and g = f, OF assms(2)] by (metis set_map)
  with assms show ?thesis by (simp add: saved_ok_def conversations_ok_update)
qed

lemma selected_some: "saved_ok (ha_state app) \<Longrightarrow> \<exists>c. selected app = Some c \<and> c \<in> set (conversations app)"
  by (auto simp: saved_ok_def selected_def find_conversation_def)
    (metis (mono_tags, lifting) find_None_iff find_Some_iff nth_mem option.exhaust)

lemma find_conversation_mem:
  "conversations_ok (conversations app) \<Longrightarrow>
   find_conversation i app = Some c \<longleftrightarrow> c \<in> set (conversations app) \<and> cv_id c = i"
  by (simp add: conversations_ok_def find_conversation_def find_distinct)

section \<open>Deleting a conversation\<close>

lemma remove_nth_conversations:
  "conversations_ok cs \<Longrightarrow> find_position (\<lambda>c. cv_id c = i) cs = Some k \<Longrightarrow>
   remove_nth k cs = filter (\<lambda>c. cv_id c \<noteq> i) cs"
  by (simp add: conversations_ok_def remove_nth_filter)

lemma remove_conversation_absent:
  "i \<notin> cv_id ` set (conversations app) \<Longrightarrow> remove_conversation new_id i app = app"
  using find_position_None [of "\<lambda>c. cv_id c = i" "conversations app"]
  by (auto simp: remove_conversation_def)

lemma remove_conversation_conversations:
  assumes "conversations_ok (conversations app)" and "i \<in> cv_id ` set (conversations app)"
  shows "conversations (remove_conversation new_id i app) =
    (let rest = filter (\<lambda>c. cv_id c \<noteq> i) (conversations app)
     in if rest = [] then [conversation_new new_id] else rest)"
proof -
  obtain k where k: "find_position (\<lambda>c. cv_id c = i) (conversations app) = Some k"
    using assms(2) find_position_None [of "\<lambda>c. cv_id c = i" "conversations app"] by fastforce
  then show ?thesis
    using remove_nth_conversations [OF assms(1) k] by (simp add: remove_conversation_def Let_def)
qed

lemma remove_conversation_active:
  "ha_active (remove_conversation new_id i app) =
     (if i \<in> cv_id ` set (conversations app)
      then ha_active (snd (cancel_stream_for i app)) else ha_active app)"
proof (cases "find_position (\<lambda>c. cv_id c = i) (conversations app)")
  case None
  then have "i \<notin> cv_id ` set (conversations app)"
    using find_position_None [of "\<lambda>c. cv_id c = i" "conversations app"] by auto
  then show ?thesis by (simp add: remove_conversation_absent)
next
  case (Some k)
  moreover have "i \<in> cv_id ` set (conversations app)"
    using find_position_Some [OF Some] by (metis imageI nth_mem)
  ultimately show ?thesis by (simp add: remove_conversation_def Let_def)
qed

lemma find_position_split:
  "conversations_ok (before @ c # after) \<Longrightarrow>
   find_position (\<lambda>d. cv_id d = cv_id c) (before @ c # after) = Some (length before)"
  by (induction before) (auto simp: conversations_ok_def)

lemma nth_after_removal:
  "before @ after \<noteq> [] \<Longrightarrow>
   (before @ after) ! min (length before) (length (before @ after) - 1) =
     (case after of d # _ \<Rightarrow> d | [] \<Rightarrow> last before)"
  by (cases after) (simp_all add: nth_append last_conv_nth)

lemma remove_conversation_cases:
  assumes "conversations app = before @ c # after" and "conversations_ok (conversations app)"
  shows "conversations (remove_conversation new_id (cv_id c) app) =
      (if before @ after = [] then [conversation_new new_id] else before @ after)"
    and "sv_selected (ha_state (remove_conversation new_id (cv_id c) app)) =
      (if before @ after = [] then Some new_id
       else if sv_selected (ha_state app) = Some (cv_id c)
       then Some (cv_id (case after of d # _ \<Rightarrow> d | [] \<Rightarrow> last before))
       else sv_selected (ha_state app))"
    and "ha_draft (remove_conversation new_id (cv_id c) app) =
      (if sv_selected (ha_state app) = Some (cv_id c) then [] else ha_draft app)"
proof -
  have position: "find_position (\<lambda>d. cv_id d = cv_id c) (before @ c # after) = Some (length before)"
    using assms find_position_split by simp
  have draft: "ha_draft (snd (cancel_stream_for i app)) = ha_draft app" for i
    by (simp add: cancel_stream_for_def split: option.split)
  have rest: "remove_nth (length before) (before @ c # after) = before @ after"
    by (simp add: remove_nth_def)
  note run = remove_conversation_def Let_def assms(1) position rest remove_nth_def
  show "conversations (remove_conversation new_id (cv_id c) app) =
      (if before @ after = [] then [conversation_new new_id] else before @ after)"
    by (simp add: run)
  show "sv_selected (ha_state (remove_conversation new_id (cv_id c) app)) =
      (if before @ after = [] then Some new_id
       else if sv_selected (ha_state app) = Some (cv_id c)
       then Some (cv_id (case after of d # _ \<Rightarrow> d | [] \<Rightarrow> last before))
       else sv_selected (ha_state app))"
  proof (cases "before @ after = []")
    case True
    then show ?thesis by (simp add: run)
  next
    case False
    then show ?thesis using nth_after_removal [OF False] by (auto simp: run simp del: length_append)
  qed
  show "ha_draft (remove_conversation new_id (cv_id c) app) =
      (if sv_selected (ha_state app) = Some (cv_id c) then [] else ha_draft app)"
    by (simp add: run draft new_conversation_def push_conversation_def select_conversation_def)
qed

text \<open>
  Deleting a conversation takes out exactly this one. If it was selected, the next one is
  selected, or the last if there is no next one, and the draft is cleared; otherwise the
  selection and the draft stay. The last conversation is replaced by a fresh selected one. A
  generation for the deleted conversation is cancelled and stays active until its task ends.
\<close>

theorem remove_conversation_correct:
  assumes "conversations app = before @ c # after" and "saved_ok (ha_state app)"
  shows "let app' = remove_conversation new_id (cv_id c) app;
             was_selected = (sv_selected (ha_state app) = Some (cv_id c))
         in conversations app' =
              (if before @ after = [] then [conversation_new new_id] else before @ after) \<and>
            sv_selected (ha_state app') =
              (if before @ after = [] then Some new_id
               else if was_selected then Some (cv_id (case after of d # _ \<Rightarrow> d | [] \<Rightarrow> last before))
               else sv_selected (ha_state app)) \<and>
            ha_draft app' = (if was_selected then [] else ha_draft app) \<and>
            ha_active app' =
              map_option (\<lambda>a. if ac_conversation a = cv_id c then a\<lparr>ac_cancelled := True\<rparr> else a)
                (ha_active app)"
  using remove_conversation_cases [OF assms(1)] assms
  by (simp add: Let_def saved_ok_def remove_conversation_active cancel_stream_active)

definition demo_conversation :: "uuid \<Rightarrow> conversation" where
  "demo_conversation i = (conversation_new i)\<lparr>cv_title := ''t''\<rparr>"

definition demo_app :: harness_app where
  "demo_app =
     (fst (harness_new (Some \<lparr>sv_settings = settings_default,
        sv_conversations = [demo_conversation 1, demo_conversation 2], sv_selected = Some 2\<rparr>) 0))
       \<lparr>ha_draft := ''d''\<rparr>"

lemma demo_app_ok:
  "conversations demo_app = [demo_conversation 1] @ demo_conversation 2 # []" "saved_ok (ha_state demo_app)"
  by (simp_all add: demo_app_def harness_new_def refresh_models_def saved_ok_def conversations_ok_def
      demo_conversation_def conversation_new_def)

theorem remove_conversation_correct_witness:
  "sv_selected (ha_state (remove_conversation 9 2 demo_app)) = Some 1 \<and>
   ha_draft (remove_conversation 9 2 demo_app) = []"
  using remove_conversation_correct [OF demo_app_ok, of 9]
  by (simp add: Let_def demo_app_def harness_new_def refresh_models_def demo_conversation_def conversation_new_def)

section \<open>Every operation keeps the saved state valid\<close>

lemma saved_ok_iff:
  "saved_ok (ha_state app) \<longleftrightarrow>
     conversations_ok (conversations app) \<and>
     (\<exists>i \<in> cv_id ` set (conversations app). sv_selected (ha_state app) = Some i)"
  by (simp add: saved_ok_def)

lemma new_conversation_ok:
  "saved_ok (ha_state app) \<Longrightarrow> i \<notin> app_ids app \<Longrightarrow> saved_ok (ha_state (new_conversation i app))"
  by (simp add: saved_ok_iff conversations_ok_append)

lemma select_conversation_ok:
  "saved_ok (ha_state app) \<Longrightarrow> i \<in> cv_id ` set (conversations app) \<Longrightarrow>
   saved_ok (ha_state (select_conversation i app))"
  by (simp add: saved_ok_iff)

lemma remove_conversation_ok:
  assumes "saved_ok (ha_state app)" and "new_id \<notin> app_ids app"
  shows "saved_ok (ha_state (remove_conversation new_id i app))"
proof (cases "i \<in> cv_id ` set (conversations app)")
  case True
  then obtain c before after where c: "conversations app = before @ c # after" "i = cv_id c"
    by (metis (no_types, lifting) imageE split_list)
  have ok: "conversations_ok (conversations app)" using assms(1) by (simp add: saved_ok_iff)
  then have "conversations_ok (before @ after)" by (auto simp: conversations_ok_def c(1))
  moreover have "conversations_ok [conversation_new new_id]" by (simp add: conversations_ok_def)
  moreover have "cv_id (case after of d # _ \<Rightarrow> d | [] \<Rightarrow> last before) \<in> cv_id ` set (before @ after)"
    if "before @ after \<noteq> []"
    using that by (cases after) auto
  ultimately show ?thesis
    using assms(1) c remove_conversation_cases [OF c(1) ok, of new_id]
    by (auto simp: saved_ok_iff)
next
  case False
  with assms(1) show ?thesis by (simp add: remove_conversation_absent)
qed

lemma remove_conversation_ids:
  "conversations_ok (conversations app) \<Longrightarrow> app_ids (remove_conversation new_id i app) \<subseteq> insert new_id (app_ids app)"
  using ids_of_filter [of "\<lambda>c. cv_id c \<noteq> i" "conversations app"]
  by (cases "i \<in> cv_id ` set (conversations app)")
    (auto simp: remove_conversation_conversations remove_conversation_absent Let_def)

text \<open>\<open>grows new app app'\<close>: the saved state is still valid, and every UUID in it was there before or
  is one of \<open>new\<close>.\<close>

definition grows :: "uuid set \<Rightarrow> harness_app \<Rightarrow> harness_app \<Rightarrow> bool" where
  "grows new app app' \<longleftrightarrow> saved_ok (ha_state app') \<and> app_ids app' \<subseteq> app_ids app \<union> new"

lemma grows_same: "saved_ok (ha_state app) \<Longrightarrow> ha_state app' = ha_state app \<Longrightarrow> grows new app app'"
  by (simp add: grows_def)

lemma grows_settings:
  "saved_ok (ha_state app) \<Longrightarrow> ha_state app' = sv_settings_update f (ha_state app) \<Longrightarrow> grows new app app'"
  by (simp add: grows_def saved_ok_def)

lemma grows_change:
  assumes "saved_ok (ha_state app)" and "\<And>c. cv_id (f c) = cv_id c"
    and "\<And>c. hm_id ` set (cv_messages (f c)) \<subseteq> hm_id ` set (cv_messages c) \<union> new"
    and "\<And>c. c \<in> set (conversations app) \<Longrightarrow> distinct (map hm_id (cv_messages c)) \<Longrightarrow>
           distinct (map hm_id (cv_messages (f c)))"
  shows "grows new app (change_conversation i f app)"
  using saved_ok_change [OF assms(1,2,4)] ids_of_update [of f new, OF assms(2,3)] by (simp add: grows_def)

lemma grows_change_selected:
  assumes "saved_ok (ha_state app)" and "\<And>c. cv_id (f c) = cv_id c"
    and "\<And>c. hm_id ` set (cv_messages (f c)) \<subseteq> hm_id ` set (cv_messages c) \<union> new"
    and "\<And>c. c \<in> set (conversations app) \<Longrightarrow> distinct (map hm_id (cv_messages c)) \<Longrightarrow>
           distinct (map hm_id (cv_messages (f c)))"
  shows "grows new app (change_selected f app)"
  using grows_change [OF assms] assms(1) by (auto simp: change_selected_def grows_same split: option.split)

lemma grows_cong: "grows new app app' \<Longrightarrow> ha_state app1 = ha_state app \<Longrightarrow> ha_state app2 = ha_state app' \<Longrightarrow> grows new app1 app2"
  by (simp add: grows_def)

lemma fresh_message:
  "c \<in> set (conversations app) \<Longrightarrow> i \<notin> app_ids app \<Longrightarrow> i \<notin> hm_id ` set (cv_messages c)"
  by (auto simp: ids_of_def)

lemma process_event_grows:
  assumes "saved_ok (ha_state app)" and "new_id \<notin> app_ids app"
  shows "grows {new_id} app (process_event new_id e app)"
proof (cases e)
  case (ModelsEvent r)
  with assms(1) show ?thesis by (cases r) (auto intro: grows_settings grows_same)
next
  case (DeltaEvent conversation message piece)
  have same: "map hm_id (update_first (\<lambda>m. hm_id m = message) (hm_content_update f) ms) = map hm_id ms" for f ms
    by (simp add: map_update_first)
  then have same_set: "hm_id ` set (update_first (\<lambda>m. hm_id m = message) (hm_content_update f) ms) = hm_id ` set ms"
    for f ms
    by (metis set_map)
  show ?thesis
    unfolding DeltaEvent process_event.simps
    using assms(1) by (intro grows_change) (auto simp: same same_set)
next
  case (FailedEvent conversation err)
  have "grows {new_id} (finish_stream_of conversation ''Request failed'' app) (process_event new_id e app)"
    unfolding FailedEvent process_event.simps
    by (rule grows_change) (use assms in \<open>auto dest: fresh_message\<close>)
  then show ?thesis by (rule grows_cong) simp_all
qed (use assms(1) in \<open>auto intro: grows_same\<close>)

lemma push_question_simps [simp]:
  "cv_id (push_question user assistant content c) = cv_id c"
  "cv_messages (push_question user assistant content c) = cv_messages c @
     [\<lparr>hm_id = user, hm_role = UserRole, hm_content = content\<rparr>,
      \<lparr>hm_id = assistant, hm_role = AssistantRole, hm_content = []\<rparr>]"
  by (simp_all add: push_question_def Let_def)

text \<open>What \<open>send\<close> does when there is something to send and nothing active.\<close>

lemma send_run:
  assumes "saved_ok (ha_state app)" and "str_trim (ha_draft app) \<noteq> []" and "ha_active app = None"
    and "selected app = Some c"
  shows "fst (send user assistant app) =
      (change_conversation (cv_id c) (push_question user assistant (ha_draft app)) (app\<lparr>ha_draft := []\<rparr>))
        \<lparr>ha_active := Some \<lparr>ac_conversation = cv_id c, ac_user_message = user,
                           ac_assistant_message = assistant, ac_cancelled = False\<rparr>,
         ha_status := ''Generating'' @ ellipsis\<rparr>"
    and "snd (send user assistant app) =
      Some (SpawnChat (se_endpoint (sv_settings (ha_state app)))
        (from_conversation (sv_settings (ha_state app)) (push_question user assistant (ha_draft app) c))
        (cv_id c) assistant)"
proof -
  have draft: "selected (app\<lparr>ha_draft := []\<rparr>) = Some c"
    using assms(4) by (simp add: selected_def find_conversation_def)
  have sel: "sv_selected (ha_state app) = Some (cv_id c)" and mem: "c \<in> set (conversations app)"
    using assms(1,4) by (auto simp: selected_def bind_eq_Some_conv find_conversation_mem saved_ok_iff)
  have "update_first (\<lambda>d. cv_id d = cv_id c) (\<lambda>_. push_question user assistant (ha_draft app) c) (conversations app) =
      update_first (\<lambda>d. cv_id d = cv_id c) (push_question user assistant (ha_draft app)) (conversations app)"
    using assms(1) mem by (simp add: saved_ok_iff conversations_ok_def update_first_const)
  then have "change_selected (\<lambda>_. push_question user assistant (ha_draft app) c) (app\<lparr>ha_draft := []\<rparr>) =
      change_conversation (cv_id c) (push_question user assistant (ha_draft app)) (app\<lparr>ha_draft := []\<rparr>)"
    by (simp add: change_selected_def sel change_conversation_def)
  then show "fst (send user assistant app) =
      (change_conversation (cv_id c) (push_question user assistant (ha_draft app)) (app\<lparr>ha_draft := []\<rparr>))
        \<lparr>ha_active := Some \<lparr>ac_conversation = cv_id c, ac_user_message = user,
                           ac_assistant_message = assistant, ac_cancelled = False\<rparr>,
         ha_status := ''Generating'' @ ellipsis\<rparr>"
    using assms(2,3) draft by (simp add: send_def Let_def)
  show "snd (send user assistant app) =
      Some (SpawnChat (se_endpoint (sv_settings (ha_state app)))
        (from_conversation (sv_settings (ha_state app)) (push_question user assistant (ha_draft app) c))
        (cv_id c) assistant)"
    using assms(2,3) draft by (simp add: send_def Let_def)
qed

lemma send_idle:
  "str_trim (ha_draft app) = [] \<or> ha_active app \<noteq> None \<Longrightarrow> send user assistant app = (app, None)"
  by (auto simp: send_def)

lemma send_grows:
  assumes "saved_ok (ha_state app)" and "user \<notin> app_ids app" "assistant \<notin> app_ids app" "user \<noteq> assistant"
  shows "grows {user, assistant} app (fst (send user assistant app))"
proof (cases "str_trim (ha_draft app) = [] \<or> ha_active app \<noteq> None")
  case True
  with assms(1) show ?thesis by (simp add: send_idle grows_same)
next
  case False
  obtain c where c: "selected app = Some c" using selected_some [OF assms(1)] by blast
  have "grows {user, assistant} (app\<lparr>ha_draft := []\<rparr>)
      (change_conversation (cv_id c) (push_question user assistant (ha_draft app)) (app\<lparr>ha_draft := []\<rparr>))"
    using assms by (intro grows_change) (auto dest: fresh_message)
  then show ?thesis
    by (rule grows_cong) (use False send_run [OF assms(1) _ _ c] in simp_all)
qed

lemma perform_grows:
  assumes "saved_ok (ha_state app)" and "enabled app a"
    and "set (drawn a) \<inter> app_ids app = {}" and "distinct (drawn a)"
  shows "grows (set (drawn a)) app (fst (perform a app))"
proof (cases a)
  case (NewChat i)
  with assms show ?thesis by (auto simp: grows_def new_conversation_ok)
next
  case (SelectChat i)
  with assms show ?thesis by (auto simp: grows_def select_conversation_ok)
next
  case (ConfirmDelete new_id)
  show ?thesis
  proof (cases "ha_pending_delete app")
    case None
    with assms(1) ConfirmDelete show ?thesis by (simp add: grows_same)
  next
    case (Some i)
    then have "grows (set (drawn a)) app (remove_conversation new_id i app)"
      using assms ConfirmDelete remove_conversation_ids [of app new_id i] remove_conversation_ok [of app new_id i]
      by (simp add: grows_def saved_ok_def)
    then show ?thesis by (rule grows_cong) (simp_all add: ConfirmDelete Some)
  qed
next
  case (SendDraft user assistant)
  with assms send_grows [of app user assistant] show ?thesis by simp
next
  case ClearChat
  have "grows {} (snd (cancel_stream_for i app))
      (change_selected (cv_messages_update (\<lambda>_. [])) (snd (cancel_stream_for i app)))" for i
    using assms(1) by (intro grows_change_selected) simp_all
  then have "grows {} app (change_selected (cv_messages_update (\<lambda>_. [])) (snd (cancel_stream_for i app)))" for i
    by (rule grows_cong) simp_all
  then show ?thesis
    using ClearChat assms(1) by (auto simp: clear_selected_conversation_def intro: grows_same split: option.split)
next
  case (DeleteMessage i)
  have grow: "grows {} app' (change_selected (cv_messages_update (filter (\<lambda>m. hm_id m \<noteq> i))) app')"
    if "ha_state app' = ha_state app" for app'
    using assms(1) that by (intro grows_change_selected) (auto simp: distinct_map_filter)
  have "grows {} app (change_selected (cv_messages_update (filter (\<lambda>m. hm_id m \<noteq> i))) app')"
    if "ha_state app' = ha_state app" for app'
    using grow [OF that] by (rule grows_cong) (simp_all add: that)
  then show ?thesis
    using DeleteMessage assms(1)
    by (auto simp: remove_selected_message_def Let_def intro: grows_same split: option.split)
next
  case (EditSystemEnabled b)
  with assms(1) show ?thesis by (auto intro: grows_change_selected)
next
  case (EditSystemHarness s)
  with assms(1) show ?thesis by (auto intro: grows_change_selected)
qed (use assms(1) in \<open>auto simp: refresh_models_def intro: grows_same grows_settings split: option.split\<close>)

end
