(* ===== verification/Harness_Run.thy ===== *)
theory Harness_Run
  imports Harness Interfaces
begin

text \<open>
  The running client: the application of \<open>crates/harness/src/main.rs\<close>, the network tasks it
  spawned and the \<open>mpsc\<close> queue of the events they send. The steps interleave what the user
  does, what a task sends and what the application takes off the queue. \<open>hs_issued\<close> are the
  UUIDs drawn so far: a new one is assumed to differ from all of them.
\<close>

section \<open>Steps\<close>

record harness_run =
  hs_app :: harness_app
  hs_queue :: "event list"
  hs_tasks :: "event list list"
  hs_fetches :: nat
  hs_issued :: "uuid set"

text \<open>\<open>spawn\<close>: the thread of a chat request will send what \<open>stream_chat\<close> sends for the reply the
  network gives; a fetch of the model list will send one event.\<close>

definition launch ::
  "(string \<Rightarrow> string + json_value) \<Rightarrow> chat_reply \<Rightarrow> spawned option \<Rightarrow> harness_run \<Rightarrow> harness_run" where
  "launch parse_json reply task s =
     (case task of
        None \<Rightarrow> s
      | Some (SpawnFetch _) \<Rightarrow> s\<lparr>hs_fetches := hs_fetches s + 1\<rparr>
      | Some (SpawnChat _ _ conversation message) \<Rightarrow>
          s\<lparr>hs_tasks := hs_tasks s @ [stream_chat parse_json conversation message reply]\<rparr>)"

text \<open>A task reports that it was cancelled only after its token was.\<close>

fun may_send :: "harness_app \<Rightarrow> event \<Rightarrow> bool" where
  "may_send app (CancelledEvent _) \<longleftrightarrow> (\<exists>a. ha_active app = Some a \<and> ac_cancelled a)"
| "may_send app _ \<longleftrightarrow> True"

definition harness_boot :: "saved_state option \<Rightarrow> uuid \<Rightarrow> uuid set \<Rightarrow> harness_run" where
  "harness_boot stored new_id issued =
     (let app = fst (harness_new stored new_id)
      in \<lparr>hs_app = app, hs_queue = [], hs_tasks = [], hs_fetches = 1,
          hs_issued = insert new_id issued\<rparr>)"

inductive harness_start :: "harness_run \<Rightarrow> bool" where
  "harness_start (harness_boot None new_id {})"

inductive harness_step ::
  "(string \<Rightarrow> string + json_value) \<Rightarrow> harness_run \<Rightarrow> harness_run \<Rightarrow> bool"
  for parse_json where
  acts: "enabled (hs_app s) a \<Longrightarrow> set (drawn a) \<inter> hs_issued s = {} \<Longrightarrow> distinct (drawn a) \<Longrightarrow>
     perform a (hs_app s) = (app, task) \<Longrightarrow>
     harness_step parse_json s
       (launch parse_json reply task
         (s\<lparr>hs_app := app, hs_issued := hs_issued s \<union> set (drawn a)\<rparr>))"
| sends: "hs_tasks s = before @ (e # es) # after \<Longrightarrow> may_send (hs_app s) e \<Longrightarrow>
     harness_step parse_json s
       (s\<lparr>hs_queue := hs_queue s @ [e], hs_tasks := before @ es # after\<rparr>)"
| fetched: "hs_fetches s = Suc n \<Longrightarrow>
     harness_step parse_json s
       (s\<lparr>hs_queue := hs_queue s @ [ModelsEvent r], hs_fetches := n\<rparr>)"
| receives: "hs_queue s = e # queue \<Longrightarrow> new_id \<notin> hs_issued s \<Longrightarrow>
     harness_step parse_json s
       (s\<lparr>hs_app := process_event new_id e (hs_app s), hs_queue := queue,
          hs_issued := insert new_id (hs_issued s)\<rparr>)"
| restarts: "new_id \<notin> hs_issued s \<Longrightarrow>
     harness_step parse_json s (harness_boot (Some (ha_state (hs_app s))) new_id (hs_issued s))"

section \<open>One stream at a time\<close>

text \<open>The events of chats that the application has still to see, queued or not yet sent.\<close>

fun chat_event :: "event \<Rightarrow> bool" where
  "chat_event (ModelsEvent _) \<longleftrightarrow> False"
| "chat_event _ \<longleftrightarrow> True"

definition outstanding :: "harness_run \<Rightarrow> event list" where
  "outstanding s = filter chat_event (hs_queue s) @ concat (hs_tasks s)"

text \<open>Without an active stream nothing is outstanding; with one, deltas for its answer and then
  one event that ends it.\<close>

definition stream_ok :: "active_stream option \<Rightarrow> event list \<Rightarrow> bool" where
  "stream_ok active events \<longleftrightarrow>
     (case active of
        None \<Rightarrow> events = []
      | Some a \<Rightarrow>
          \<exists>pieces e. events =
              map (DeltaEvent (ac_conversation a) (ac_assistant_message a)) pieces @ [e] \<and>
            ends_stream (ac_conversation a) e)"

definition one_task :: "harness_run \<Rightarrow> bool" where
  "one_task s \<longleftrightarrow>
     length (filter (\<lambda>t. t \<noteq> []) (hs_tasks s)) \<le> (if ha_active (hs_app s) = None then 0 else 1)"

definition harness_inv :: "harness_run \<Rightarrow> bool" where
  "harness_inv s \<longleftrightarrow>
     saved_ok (ha_state (hs_app s)) \<and> app_ids (hs_app s) \<subseteq> hs_issued s \<and>
     one_task s \<and> stream_ok (ha_active (hs_app s)) (outstanding s)"

lemma concat_empty: "filter (\<lambda>t. t \<noteq> []) ts = [] \<Longrightarrow> concat ts = []"
  by (simp add: filter_empty_conv)

lemma single_task:
  assumes "one_task s" and "hs_tasks s = before @ (e # es) # after"
  shows "concat before = []" "concat after = []" "ha_active (hs_app s) \<noteq> None"
proof -
  have "filter (\<lambda>t. t \<noteq> []) before = []" "filter (\<lambda>t. t \<noteq> []) after = []" "ha_active (hs_app s) \<noteq> None"
    using assms by (auto simp: one_task_def split: if_splits)
  then show "concat before = []" "concat after = []" "ha_active (hs_app s) \<noteq> None"
    by (blast intro: concat_empty)+
qed

text \<open>Nothing but \<open>send\<close> starts a stream, and the others at most cancel it.\<close>

definition same_stream :: "active_stream option \<Rightarrow> active_stream option \<Rightarrow> bool" where
  "same_stream a b \<longleftrightarrow> b = a \<or> (\<exists>x. a = Some x \<and> b = Some (x\<lparr>ac_cancelled := True\<rparr>))"

lemma same_stream_ok: "same_stream a b \<Longrightarrow> stream_ok b events \<longleftrightarrow> stream_ok a events"
  by (auto simp: same_stream_def stream_ok_def)

lemma same_stream_refl [simp]: "same_stream a a"
  by (simp add: same_stream_def)

lemma same_stream_cancel: "same_stream (ha_active app) (ha_active (snd (cancel_stream_for i app)))"
  by (cases "ha_active app") (auto simp: same_stream_def cancel_stream_active)

lemma same_stream_None: "same_stream a b \<Longrightarrow> b = None \<longleftrightarrow> a = None"
  by (auto simp: same_stream_def)

lemma perform_same_stream:
  assumes "\<And>user assistant. a \<noteq> SendDraft user assistant"
  shows "same_stream (ha_active app) (ha_active (fst (perform a app)))"
    and "snd (perform a app) = None \<or> (\<exists>endpoint. snd (perform a app) = Some (SpawnFetch endpoint))"
  using assms same_stream_cancel [of app]
  by (cases a; auto simp: remove_conversation_active clear_selected_conversation_def
      remove_selected_message_def refresh_models_def Let_def change_selected_def split: option.split)+

lemma launch_simps [simp]:
  "hs_app (launch parse_json reply task s) = hs_app s"
  "hs_queue (launch parse_json reply task s) = hs_queue s"
  "hs_issued (launch parse_json reply task s) = hs_issued s"
  by (simp_all add: launch_def split: option.split spawned.split)

lemma launch_tasks:
  "hs_tasks (launch parse_json reply task s) =
     hs_tasks s @ (case task of Some (SpawnChat _ _ c m) \<Rightarrow> [stream_chat parse_json c m reply] | _ \<Rightarrow> [])"
  by (simp add: launch_def split: option.split spawned.split)

lemma boot_simps [simp]:
  "hs_queue (harness_boot stored i issued) = []"
  "hs_tasks (harness_boot stored i issued) = []"
  "hs_issued (harness_boot stored i issued) = insert i issued"
  "ha_active (hs_app (harness_boot stored i issued)) = None"
  "ha_state (hs_app (harness_boot stored i issued)) =
     (case stored of Some s \<Rightarrow> s | None \<Rightarrow> saved_state_default i)"
  by (simp_all add: harness_boot_def harness_new_def refresh_models_def Let_def)

lemma boot_inv:
  assumes "case stored of Some s \<Rightarrow> saved_ok s \<and> ids_of (sv_conversations s) \<subseteq> issued | None \<Rightarrow> True"
  shows "harness_inv (harness_boot stored i issued)"
  using assms
  by (auto simp: harness_inv_def one_task_def stream_ok_def outstanding_def saved_state_default_def
      saved_ok_def conversations_ok_def split: option.splits)

lemma acts_inv:
  assumes inv: "harness_inv s" and enabled: "enabled (hs_app s) a"
    and fresh: "set (drawn a) \<inter> hs_issued s = {}" "distinct (drawn a)"
    and perform: "perform a (hs_app s) = (app, task)"
  shows "harness_inv (launch parse_json reply task (s\<lparr>hs_app := app, hs_issued := hs_issued s \<union> set (drawn a)\<rparr>))"
    (is "harness_inv ?t")
proof -
  let ?app = "hs_app s"
  have ok: "saved_ok (ha_state ?app)" and ids: "app_ids ?app \<subseteq> hs_issued s" using inv by (auto simp: harness_inv_def)
  have "grows (set (drawn a)) ?app app"
    using perform_grows [OF ok enabled _ fresh(2)] fresh(1) ids perform by auto
  then have saved: "saved_ok (ha_state (hs_app ?t)) \<and> app_ids (hs_app ?t) \<subseteq> hs_issued ?t"
    using ids by (auto simp: grows_def)
  have "one_task ?t \<and> stream_ok (ha_active (hs_app ?t)) (outstanding ?t)"
  proof (cases "\<exists>user assistant. a = SendDraft user assistant")
    case True
    then obtain user assistant where a: "a = SendDraft user assistant" by blast
    with enabled obtain c where idle: "str_trim (ha_draft ?app) \<noteq> []" "ha_active ?app = None" "selected ?app = Some c"
      by auto
    note run = send_run [OF ok idle, of user assistant]
    have results: "app = fst (send user assistant ?app)" "task = snd (send user assistant ?app)"
      using perform a by simp_all
    have active: "ha_active app = Some \<lparr>ac_conversation = cv_id c, ac_user_message = user,
          ac_assistant_message = assistant, ac_cancelled = False\<rparr>"
      and task: "\<exists>endpoint request. task = Some (SpawnChat endpoint request (cv_id c) assistant)"
      by (simp_all add: results run)
    have "filter (\<lambda>t. t \<noteq> []) (hs_tasks s) = []" "filter chat_event (hs_queue s) = []"
      using inv idle by (auto simp: harness_inv_def one_task_def stream_ok_def outstanding_def)
    then show ?thesis
      using stream_chat_shape [of parse_json "cv_id c" assistant reply] task active concat_empty [of "hs_tasks s"]
      by (auto simp: one_task_def stream_ok_def outstanding_def launch_tasks simp del: concat_eq_Nil_conv)
  next
    case False
    then have same: "same_stream (ha_active ?app) (ha_active app)"
      and "task = None \<or> (\<exists>endpoint. task = Some (SpawnFetch endpoint))"
      using perform_same_stream [of a ?app] perform by auto
    then have "hs_tasks ?t = hs_tasks s" by (auto simp: launch_tasks)
    with inv same_stream_ok [OF same] same_stream_None [OF same] show ?thesis
      by (auto simp: harness_inv_def one_task_def outstanding_def)
  qed
  with saved show ?thesis by (simp add: harness_inv_def)
qed

lemma stream_ok_next:
  assumes "stream_ok (ha_active app) (e # events)"
  shows "stream_ok (ha_active (process_event new_id e app)) events"
proof -
  from assms obtain a pieces f where a: "ha_active app = Some a" "ends_stream (ac_conversation a) f"
    "e # events = map (DeltaEvent (ac_conversation a) (ac_assistant_message a)) pieces @ [f]"
    by (auto simp: stream_ok_def split: option.splits)
  then show ?thesis
    by (cases pieces; cases f) (auto simp: stream_ok_def finish_stream_active)
qed

lemma models_event_active [simp]: "ha_active (process_event new_id (ModelsEvent r) app) = ha_active app"
  by (cases r) simp_all

lemma process_event_active:
  "ha_active (process_event new_id e app) = None \<Longrightarrow> ha_active app \<noteq> None \<Longrightarrow>
   \<exists>a. ha_active app = Some a \<and> ends_stream (ac_conversation a) e"
  by (cases "(new_id, e, app)" rule: process_event.cases) (auto simp: finish_stream_active split: option.splits if_splits)

lemma receives_inv:
  assumes inv: "harness_inv s" and queue: "hs_queue s = e # queue" and fresh: "new_id \<notin> hs_issued s"
  shows "harness_inv (s\<lparr>hs_app := process_event new_id e (hs_app s), hs_queue := queue,
          hs_issued := insert new_id (hs_issued s)\<rparr>)" (is "harness_inv ?t")
proof -
  let ?app = "hs_app s"
  have ok: "saved_ok (ha_state ?app)" and ids: "app_ids ?app \<subseteq> hs_issued s"
    and one: "one_task s" and stream: "stream_ok (ha_active ?app) (outstanding s)"
    using inv by (auto simp: harness_inv_def)
  have grow: "grows {new_id} ?app (process_event new_id e ?app)"
    using process_event_grows [OF ok] fresh ids by blast
  have out: "stream_ok (ha_active (hs_app ?t)) (outstanding ?t)"
  proof (cases "chat_event e")
    case True
    with stream queue show ?thesis by (auto simp: outstanding_def intro: stream_ok_next)
  next
    case False
    with stream queue show ?thesis by (cases e) (auto simp: outstanding_def)
  qed
  have "one_task ?t"
  proof (cases "ha_active (hs_app ?t) = None")
    case True
    with out have "concat (hs_tasks s) = []" by (auto simp: stream_ok_def outstanding_def)
    then have "filter (\<lambda>t. t \<noteq> []) (hs_tasks s) = []" by (simp add: filter_empty_conv)
    then show ?thesis by (simp add: one_task_def)
  next
    case False
    with one show ?thesis by (auto simp: one_task_def split: if_splits)
  qed
  with out grow ids show ?thesis by (auto simp: harness_inv_def grows_def)
qed

lemma sends_inv:
  assumes inv: "harness_inv s" and tasks: "hs_tasks s = before @ (e # es) # after"
  shows "harness_inv (s\<lparr>hs_queue := hs_queue s @ [e], hs_tasks := before @ es # after\<rparr>)" (is "harness_inv ?t")
proof -
  have one: "one_task s" using inv by (simp add: harness_inv_def)
  note single = single_task [OF one tasks]
  from single(3) obtain a where "ha_active (hs_app s) = Some a" by auto
  with inv obtain pieces f where out: "outstanding s = map (DeltaEvent (ac_conversation a) (ac_assistant_message a)) pieces @ [f]"
    "ends_stream (ac_conversation a) f"
    by (auto simp: harness_inv_def stream_ok_def)
  have "e \<in> set (outstanding s)" using tasks by (simp add: outstanding_def)
  with out have "chat_event e" by (cases f) auto
  with tasks single have "outstanding ?t = outstanding s"
    by (simp add: outstanding_def del: concat_eq_Nil_conv)
  moreover have "one_task ?t" using one tasks by (auto simp: one_task_def split: if_splits)
  ultimately show ?thesis using inv by (simp add: harness_inv_def)
qed

interpretation client: transition_system harness_start "harness_step parse_json" harness_inv for parse_json
proof
  fix s t :: harness_run
  show "harness_start s \<Longrightarrow> harness_inv s"
    by (auto elim!: harness_start.cases intro!: boot_inv)
  show "harness_inv t" if inv: "harness_inv s" and step: "harness_step parse_json s t"
    using step
  proof cases
    case (fetched n r)
    with inv show ?thesis by (simp add: harness_inv_def one_task_def outstanding_def)
  next
    case (restarts new_id)
    have "harness_inv (harness_boot (Some (ha_state (hs_app s))) new_id (hs_issued s))"
      by (rule boot_inv) (use inv in \<open>simp add: harness_inv_def\<close>)
    with restarts show ?thesis by simp
  qed (use inv in \<open>auto intro: acts_inv sends_inv receives_inv\<close>)
qed

section \<open>The text of a message\<close>

definition text_in :: "uuid \<Rightarrow> conversation \<Rightarrow> string option" where
  "text_in m c = map_option hm_content (find (\<lambda>x. hm_id x = m) (cv_messages c))"

definition message_text :: "harness_app \<Rightarrow> uuid \<Rightarrow> uuid \<Rightarrow> string option" where
  "message_text app c m = Option.bind (find_conversation c app) (text_in m)"

text \<open>No text changes, though messages may be added and deleted.\<close>

definition keeps_texts :: "harness_app \<Rightarrow> harness_app \<Rightarrow> bool" where
  "keeps_texts app app' \<longleftrightarrow>
     (\<forall>c m x. message_text app c m = Some x \<longrightarrow> message_text app' c m \<in> {None, Some x})"

lemma keeps_textsD:
  assumes "keeps_texts app app'" "message_text app c m = Some x" "message_text app' c m = Some y"
  shows "y = x"
proof -
  have "message_text app' c m \<in> {None, Some x}" using assms(1,2) by (simp only: keeps_texts_def)
  with assms(3) show ?thesis by simp
qed

lemma message_text_state: "ha_state app' = ha_state app \<Longrightarrow> message_text app' = message_text app"
  by (simp add: message_text_def find_conversation_def fun_eq_iff)

lemma keeps_same: "sv_conversations (ha_state app') = sv_conversations (ha_state app) \<Longrightarrow> keeps_texts app app'"
  by (simp add: keeps_texts_def message_text_def find_conversation_def)

lemma keeps_cong: "keeps_texts app app' \<Longrightarrow> ha_state app1 = ha_state app \<Longrightarrow> ha_state app2 = ha_state app' \<Longrightarrow> keeps_texts app1 app2"
  using message_text_state [of app1 app] message_text_state [of app2 app'] by (simp add: keeps_texts_def)

lemma message_text_change:
  assumes "\<And>d. cv_id (f d) = cv_id d"
  shows "message_text (change_conversation i f app) c m =
    (if c = i then Option.bind (find_conversation i app) (\<lambda>d. text_in m (f d)) else message_text app c m)"
proof (cases "c = i")
  case True
  have "find (\<lambda>d. cv_id d = i) (update_first (\<lambda>d. cv_id d = i) f (conversations app)) =
      map_option f (find (\<lambda>d. cv_id d = i) (conversations app))"
    by (rule find_update_first) (simp add: assms)
  with True show ?thesis
    by (simp add: message_text_def find_conversation_def split: option.split) (auto split: option.splits bind_splits)
next
  case False
  then have "find (\<lambda>d. cv_id d = c) (update_first (\<lambda>d. cv_id d = i) f (conversations app)) =
      find (\<lambda>d. cv_id d = c) (conversations app)"
    by (intro find_update_first_other) (simp add: assms)
  with False show ?thesis by (simp add: message_text_def find_conversation_def)
qed

lemma keeps_change:
  assumes "\<And>d. cv_id (f d) = cv_id d"
    and "\<And>d m x. text_in m d = Some x \<Longrightarrow> text_in m (f d) \<in> {None, Some x}"
  shows "keeps_texts app (change_conversation i f app)"
proof -
  have "message_text (change_conversation i f app) c m \<in> {None, Some x}" if "message_text app c m = Some x" for c m x
  proof -
    from that obtain d where "find_conversation c app = Some d" "text_in m d = Some x"
      by (auto simp: message_text_def bind_eq_Some_conv)
    with that assms(2) [of m d x] show ?thesis
      unfolding message_text_change [where f = f, OF assms(1)] by auto
  qed
  then show ?thesis by (simp add: keeps_texts_def)
qed

lemma keeps_change_selected:
  assumes "\<And>d. cv_id (f d) = cv_id d"
    and "\<And>d m x. text_in m d = Some x \<Longrightarrow> text_in m (f d) \<in> {None, Some x}"
  shows "keeps_texts app (change_selected f app)"
  using keeps_change [OF assms] by (auto simp: change_selected_def keeps_same split: option.split)

lemma text_in_append:
  "text_in m d = Some x \<Longrightarrow> cv_messages d' = cv_messages d @ new \<Longrightarrow> text_in m d' = Some x"
  by (auto simp: text_in_def find_append)

lemma text_in_filter:
  "text_in m (cv_messages_update (filter (\<lambda>x. hm_id x \<noteq> i)) d) = (if m = i then None else text_in m d)"
  by (auto simp: text_in_def find_filter find_filter_none)

lemma keeps_new_conversation: "i \<notin> app_ids app \<Longrightarrow> keeps_texts app (new_conversation i app)"
  by (auto simp: keeps_texts_def message_text_def find_conversation_def find_append bind_eq_Some_conv
      split: option.split)

lemma keeps_remove_conversation:
  assumes "conversations_ok (conversations app)" and "new_id \<notin> app_ids app"
  shows "keeps_texts app (remove_conversation new_id i app)"
proof (cases "i \<in> cv_id ` set (conversations app)")
  case True
  let ?rest = "filter (\<lambda>c. cv_id c \<noteq> i) (conversations app)"
  have other: "find (\<lambda>d. cv_id d = c) ?rest = find (\<lambda>d. cv_id d = c) (conversations app)" if "c \<noteq> i" for c
    using that by (auto intro: find_filter)
  have gone: "find (\<lambda>d. cv_id d = i) ?rest = None" by (rule find_filter_none) simp
  have fresh: "find (\<lambda>d. cv_id d = new_id) (conversations app) = None"
    using assms(2) by (auto simp: find_None_iff ids_of_def)
  have "message_text (remove_conversation new_id i app) c m \<in> {None, message_text app c m}" for c m
    using True other [of c] gone fresh
    by (cases "c = i"; cases "?rest = []")
      (auto simp: message_text_def find_conversation_def remove_conversation_conversations [OF assms(1)] Let_def text_in_def)
  then show ?thesis unfolding keeps_texts_def by (metis insert_iff singletonD)
next
  case False
  then show ?thesis by (simp add: remove_conversation_absent keeps_same)
qed

lemma perform_keeps:
  assumes ok: "saved_ok (ha_state app)" and enabled: "enabled app a" and fresh: "set (drawn a) \<inter> app_ids app = {}"
  shows "keeps_texts app (fst (perform a app))"
proof (cases a)
  case (NewChat i)
  with fresh show ?thesis by (simp add: keeps_new_conversation)
next
  case (ConfirmDelete new_id)
  with ok fresh have "keeps_texts app (remove_conversation new_id i app)" for i
    by (simp add: saved_ok_iff keeps_remove_conversation)
  then have "keeps_texts app ((remove_conversation new_id i app)\<lparr>ha_pending_delete := None\<rparr>)" for i
    by (rule keeps_cong) simp_all
  with ConfirmDelete show ?thesis by (simp add: keeps_same split: option.split)
next
  case (SendDraft user assistant)
  with enabled obtain c where c: "selected app = Some c" and idle: "str_trim (ha_draft app) \<noteq> []" "ha_active app = None"
    by auto
  have "keeps_texts (app\<lparr>ha_draft := []\<rparr>)
      (change_conversation (cv_id c) (push_question user assistant (ha_draft app)) (app\<lparr>ha_draft := []\<rparr>))"
    by (rule keeps_change) (auto intro: text_in_append)
  then show ?thesis
    by (rule keeps_cong) (simp_all add: SendDraft send_run [OF ok idle c])
next
  case ClearChat
  have "keeps_texts app' (change_selected (cv_messages_update (\<lambda>_. [])) app')" for app'
    by (rule keeps_change_selected) (simp_all add: text_in_def)
  then have "keeps_texts app (change_selected (cv_messages_update (\<lambda>_. [])) (snd (cancel_stream_for i app)))" for i
    by (rule keeps_cong) simp_all
  with ClearChat show ?thesis by (simp add: clear_selected_conversation_def keeps_same split: option.split)
next
  case (DeleteMessage i)
  have keep: "keeps_texts app' (change_selected (cv_messages_update (filter (\<lambda>x. hm_id x \<noteq> i))) app')" for app'
    by (rule keeps_change_selected) (simp_all add: text_in_filter)
  have "keeps_texts app (change_selected (cv_messages_update (filter (\<lambda>x. hm_id x \<noteq> i))) app')"
    if "ha_state app' = ha_state app" for app'
    using keep by (rule keeps_cong) (simp_all add: that)
  with DeleteMessage show ?thesis
    by (auto simp: remove_selected_message_def Let_def keeps_same split: option.split)
next
  case (EditSystemEnabled b)
  then show ?thesis by (simp, intro keeps_change_selected) (simp_all add: text_in_def)
next
  case (EditSystemHarness x)
  then show ?thesis by (simp, intro keeps_change_selected) (simp_all add: text_in_def)
qed (auto simp: refresh_models_def select_conversation_def intro: keeps_same split: option.split)

lemma text_in_delta:
  "text_in m (cv_messages_update (update_first (\<lambda>x. hm_id x = m') (hm_content_update f)) d) =
     (if m = m' then map_option f (text_in m d) else text_in m d)"
  by (cases "m = m'")
    (auto simp: text_in_def find_update_first find_update_first_other option.map_comp o_def)

lemma message_text_delta:
  "message_text (process_event new_id (DeltaEvent c' m' piece) app) c m =
     (if c = c' \<and> m = m' then map_option (\<lambda>x. x @ piece) (message_text app c m) else message_text app c m)"
  by (simp add: message_text_change text_in_delta)
    (auto simp: message_text_def map_option_bind o_def)

lemma process_event_keeps:
  assumes "\<And>c m piece. e \<noteq> DeltaEvent c m piece"
  shows "keeps_texts app (process_event new_id e app)"
proof (cases e)
  case (ModelsEvent r)
  then show ?thesis by (cases r) (simp_all add: keeps_same)
next
  case (FailedEvent c err)
  have "keeps_texts (finish_stream_of c ''Request failed'' app) (process_event new_id e app)"
    unfolding FailedEvent process_event.simps by (rule keeps_change) (auto intro: text_in_append)
  then show ?thesis by (rule keeps_cong) simp_all
qed (use assms in \<open>simp_all add: keeps_same\<close>)

text \<open>
  C10. No message ever changes its text, except the answer of the active stream: when the application takes
  a delta that is addressed to this answer off its queue, exactly the delta's text is put at the end of the
  answer. So whatever the user does while the events of a stream are under way, no text of one stream, and
  none the user types, shows up in another message.
\<close>

theorem messages_stable:
  assumes "harness_start s0" and "(harness_step parse_json)\<^sup>*\<^sup>* s0 s" and "harness_step parse_json s t"
    and "message_text (hs_app s) c m = Some old" and "message_text (hs_app t) c m = Some new"
  shows "new = old \<or>
    (\<exists>a piece. ha_active (hs_app s) = Some a \<and> c = ac_conversation a \<and> m = ac_assistant_message a \<and>
       hs_queue s = DeltaEvent c m piece # hs_queue t \<and> new = old @ piece)"
proof -
  have inv: "harness_inv s" using client.invariant_reachable [OF assms(1,2)] .
  have kept: "new = old" if "keeps_texts (hs_app s) (hs_app t)"
    using keeps_textsD [OF that assms(4,5)] .
  from assms(3) show ?thesis
  proof cases
    case (acts a app task reply)
    then have "keeps_texts (hs_app s) (hs_app t)"
      using perform_keeps [of "hs_app s" a] inv by (auto simp: harness_inv_def)
    then show ?thesis using kept by blast
  next
    case (receives e queue new_id)
    show ?thesis
    proof (cases "\<exists>c m piece. e = DeltaEvent c m piece")
      case True
      then obtain c' m' piece where e: "e = DeltaEvent c' m' piece" by blast
      have "stream_ok (ha_active (hs_app s)) (outstanding s)" using inv by (simp add: harness_inv_def)
      then obtain a pieces f where a: "ha_active (hs_app s) = Some a"
        "outstanding s = map (DeltaEvent (ac_conversation a) (ac_assistant_message a)) pieces @ [f]"
        "ends_stream (ac_conversation a) f"
        using receives(2) e by (auto simp: stream_ok_def outstanding_def split: option.splits)
      have "c' = ac_conversation a \<and> m' = ac_assistant_message a"
        using a(2,3) receives(2) e by (cases pieces) (auto simp: outstanding_def)
      with assms(4,5) a(1) receives(1,2) e show ?thesis
        by (auto simp: message_text_delta simp del: process_event.simps split: if_splits)
    next
      case False
      with receives(1) have "keeps_texts (hs_app s) (hs_app t)" by (simp add: process_event_keeps)
      then show ?thesis using kept by blast
    qed
  qed (use kept in \<open>simp_all add: keeps_same\<close>)
qed

section \<open>Reachable states\<close>

text \<open>
  C14. In every reachable state a conversation is selected and exists, the conversations and the
  messages of each have distinct ids, and at most one task has something left to send: without
  an active stream no chat event is outstanding, with one the outstanding events are deltas for
  its answer and then one event that ends it.
\<close>

theorem client_reachable:
  assumes "harness_start s0" and "(harness_step parse_json)\<^sup>*\<^sup>* s0 s"
  shows "(\<exists>c \<in> set (conversations (hs_app s)). selected (hs_app s) = Some c) \<and>
    conversations_ok (conversations (hs_app s)) \<and> length (filter (\<lambda>t. t \<noteq> []) (hs_tasks s)) \<le> 1 \<and>
    stream_ok (ha_active (hs_app s)) (outstanding s)"
  using client.invariant_reachable [OF assms] selected_some [of "hs_app s"]
  by (auto simp: harness_inv_def one_task_def saved_ok_iff split: if_splits)

text \<open>What a run of events does to the answer they belong to.\<close>

definition answer_text :: "event list \<Rightarrow> string" where
  "answer_text events = concat (List.map_filter (\<lambda>e. case e of DeltaEvent _ _ piece \<Rightarrow> Some piece | _ \<Rightarrow> None) events)"

lemma answer_text_simps [simp]:
  "answer_text [] = []"
  "answer_text (DeltaEvent c m piece # events) = piece @ answer_text events"
  "answer_text (ModelsEvent r # events) = answer_text events"
  "answer_text (CompletedEvent c # events) = answer_text events"
  "answer_text (CancelledEvent c # events) = answer_text events"
  "answer_text (FailedEvent c err # events) = answer_text events"
  by (simp_all add: answer_text_def List.map_filter_def)

lemma answer_text_append: "answer_text (xs @ ys) = answer_text xs @ answer_text ys"
  by (simp add: answer_text_def List.map_filter_def)

lemma process_events_simps [simp]:
  "process_events [] app = app"
  "process_events ((i, e) # events) app = process_events events (process_event i e app)"
  by (simp_all add: process_events_def)

lemma models_event_text [simp]:
  "message_text (process_event i (ModelsEvent r) app) = message_text app"
  by (cases r) (simp_all add: message_text_def find_conversation_def fun_eq_iff)

lemma process_models_events:
  "filter chat_event events = [] \<Longrightarrow> length ids = length events \<Longrightarrow>
   ha_active (process_events (zip ids events) app) = ha_active app \<and>
   message_text (process_events (zip ids events) app) = message_text app \<and> answer_text events = []"
proof (induction events arbitrary: ids app)
  case (Cons e events)
  then obtain i ids' r where "ids = i # ids'" "e = ModelsEvent r"
    by (cases ids; cases e) auto
  with Cons.IH [of ids' "process_event i e app"] Cons.prems show ?case by simp
qed simp

text \<open>The last event of a stream leaves the text of its answer alone.\<close>

lemma ends_stream_text:
  assumes "ends_stream c e" and "message_text app c m = Some x"
  shows "message_text (process_event i e app) c m = Some x"
proof (cases e)
  case (FailedEvent d err)
  have "text_in m (cv_messages_update (\<lambda>ms. ms @ [\<lparr>hm_id = i, hm_role = ErrorRole, hm_content = err\<rparr>]) v) = Some x"
    if "text_in m v = Some x" for v
    using that by (rule text_in_append) simp
  moreover have "find_conversation d (finish_stream_of d ''Request failed'' app) = find_conversation d app"
    by (simp add: find_conversation_def)
  ultimately show ?thesis
    using assms FailedEvent by (auto simp: message_text_change) (auto simp: message_text_def bind_eq_Some_conv)
qed (use assms in \<open>auto simp: message_text_def find_conversation_def\<close>)

lemma process_stream:
  "filter chat_event events = map (DeltaEvent c m) pieces @ [e] \<Longrightarrow> ends_stream c e \<Longrightarrow>
   ha_active app = Some a \<Longrightarrow> ac_conversation a = c \<Longrightarrow> message_text app c m = Some x \<Longrightarrow>
   length ids = length events \<Longrightarrow>
   ha_active (process_events (zip ids events) app) = None \<and>
   message_text (process_events (zip ids events) app) c m = Some (x @ answer_text events)"
proof (induction events arbitrary: ids app pieces x)
  case (Cons f events)
  then obtain i ids' where ids: "ids = i # ids'" "length ids' = length events" by (cases ids) auto
  let ?app = "process_event i f app"
  show ?case
  proof (cases "chat_event f")
    case False
    then obtain r where "f = ModelsEvent r" by (cases f) auto
    with Cons.prems Cons.IH [of pieces ?app x ids'] ids show ?thesis by simp
  next
    case True
    show ?thesis
    proof (cases pieces)
      case Nil
      with Cons.prems True have f: "f = e" and rest: "filter chat_event events = []" by auto
      have "ha_active ?app = None" and "answer_text [f] = []"
        using Cons.prems(2,3,4) f by (cases e; simp add: finish_stream_active)+
      moreover have "message_text ?app c m = Some x"
        using ends_stream_text Cons.prems(2,5) f by blast
      ultimately show ?thesis
        using process_models_events [OF rest ids(2), of ?app] ids(1) answer_text_append [of "[f]" events] by simp
    next
      case (Cons piece pieces')
      with Cons.prems True have f: "f = DeltaEvent c m piece" by simp
      have rest: "filter chat_event events = map (DeltaEvent c m) pieces' @ [e]"
        using Cons.prems(1) Cons True by simp
      have "message_text ?app c m = Some (x @ piece)"
        using Cons.prems(5) by (simp add: f message_text_delta del: process_event.simps)
      then show ?thesis
        using Cons.IH [OF rest Cons.prems(2) _ Cons.prems(4) _ ids(2), of ?app "x @ piece"] Cons.prems(3) ids(1) f by simp
    qed
  qed
qed simp

text \<open>
  C21. A generation always settles: from any reachable state with an active stream, once its task
  has sent what it still has to send and the application has taken everything off the queue, the
  stream is over; the answer, if it still exists, has grown by exactly the pieces that were
  outstanding, in order.
\<close>

theorem generation_settles:
  assumes "harness_start s0" and "(harness_step parse_json)\<^sup>*\<^sup>* s0 s"
    and "ha_active (hs_app s) = Some a"
    and "message_text (hs_app s) (ac_conversation a) (ac_assistant_message a) = Some x"
    and "length ids = length (hs_queue s @ concat (hs_tasks s))"
  shows "let events = hs_queue s @ concat (hs_tasks s);
             app = process_events (zip ids events) (hs_app s)
         in ha_active app = None \<and>
            message_text app (ac_conversation a) (ac_assistant_message a) = Some (x @ answer_text events)"
proof -
  from client.invariant_reachable [OF assms(1,2)] assms(3) obtain pieces e where
    out: "outstanding s = map (DeltaEvent (ac_conversation a) (ac_assistant_message a)) pieces @ [e]"
    "ends_stream (ac_conversation a) e"
    by (auto simp: harness_inv_def stream_ok_def)
  then have "\<forall>f \<in> set (outstanding s). chat_event f" by (cases e) auto
  then have "\<forall>f \<in> set (concat (hs_tasks s)). chat_event f" unfolding outstanding_def set_append by blast
  then have sent: "filter chat_event (concat (hs_tasks s)) = concat (hs_tasks s)" by (rule filter_True)
  have all: "filter chat_event (hs_queue s @ concat (hs_tasks s)) = outstanding s"
    unfolding filter_append sent outstanding_def ..
  show ?thesis
    unfolding Let_def by (rule process_stream [OF trans [OF all out(1)] out(2) assms(3) refl assms(4,5)])
qed

section \<open>A sample run\<close>

text \<open>The user types and sends a message, and the first piece of the answer is on its way.\<close>

definition demo_chat_json :: "string \<Rightarrow> string + json_value" where
  "demo_chat_json payload =
     Inr (JObject [(''choices'', JArray [JObject [(''delta'', JObject [(''content'', JString payload)])]])])"

definition demo_reply :: chat_reply where
  "demo_reply = ReplyBody [BodyTurn (Inr (''data: x'' @ [LF, LF])), BodyTurn (Inr (''data: [DONE]'' @ [LF, LF]))]"

definition demo_boot :: harness_run where
  "demo_boot = harness_boot None 1 {}"

definition demo_sent :: harness_run where
  "demo_sent =
     (let s1 = demo_boot\<lparr>hs_app := fst (perform (EditDraft ''hi'') (hs_app demo_boot))\<rparr>;
          (app, task) = perform (SendDraft 2 3) (hs_app s1)
      in launch demo_chat_json demo_reply task (s1\<lparr>hs_app := app, hs_issued := {1, 2, 3}\<rparr>))"

definition demo_delta :: harness_run where
  "demo_delta = demo_sent\<lparr>hs_queue := [DeltaEvent 1 3 ''x''], hs_tasks := [[CompletedEvent 1]]\<rparr>"

lemma demo_stream: "stream_chat demo_chat_json 1 3 demo_reply = [DeltaEvent 1 3 ''x'', CompletedEvent 1]"
  by code_simp

lemma demo_client_start: "harness_start demo_boot"
  unfolding demo_boot_def by (rule harness_start.intros)

lemmas demo_run_defs = demo_boot_def harness_boot_def harness_new_def refresh_models_def
  saved_state_default_def selected_def find_conversation_def conversation_new_def Let_def

lemma demo_trim: "str_trim ''hi'' \<noteq> []"
  by code_simp

lemma demo_sent_simps:
  "hs_tasks demo_sent = [] @ (DeltaEvent 1 3 ''x'' # [CompletedEvent 1]) # []" "hs_queue demo_sent = []"
  by (simp_all add: demo_sent_def send_def demo_trim launch_tasks demo_stream demo_run_defs)

lemma demo_sent_app:
  "message_text (hs_app demo_sent) 1 3 = Some []"
  "map_option ac_conversation (ha_active (hs_app demo_sent)) = Some 1"
  "map_option ac_assistant_message (ha_active (hs_app demo_sent)) = Some 3"
  by (simp_all add: demo_sent_def send_def demo_trim message_text_def text_in_def change_selected_def
      change_conversation_def push_question_def demo_run_defs)

lemma demo_to_delta: "(harness_step demo_chat_json)\<^sup>*\<^sup>* demo_boot demo_delta"
proof -
  let ?s1 = "demo_boot\<lparr>hs_app := fst (perform (EditDraft ''hi'') (hs_app demo_boot))\<rparr>"
  let ?sent = "perform (SendDraft 2 3) (hs_app ?s1)"
  have "harness_step demo_chat_json demo_boot (launch demo_chat_json demo_reply None
      (demo_boot\<lparr>hs_app := fst (perform (EditDraft ''hi'') (hs_app demo_boot)), hs_issued := hs_issued demo_boot \<union> {}\<rparr>))"
    using acts [of demo_boot "EditDraft ''hi''" _ None demo_chat_json demo_reply]
    by (simp add: demo_run_defs)
  then have "harness_step demo_chat_json demo_boot ?s1" by (simp add: launch_def demo_run_defs)
  moreover have "harness_step demo_chat_json ?s1 demo_sent"
  proof -
    have enabled: "enabled (hs_app ?s1) (SendDraft 2 3)"
      by (simp add: demo_run_defs demo_trim)
    have fresh: "set (drawn (SendDraft 2 3)) \<inter> hs_issued ?s1 = {}" "distinct (drawn (SendDraft 2 3))"
      by (simp_all add: demo_run_defs)
    have issued: "hs_issued ?s1 \<union> set (drawn (SendDraft 2 3)) = {1, 2, 3}"
      by (simp add: demo_run_defs insert_commute)
    show ?thesis
      using acts [OF enabled fresh prod.collapse [symmetric], of demo_chat_json demo_reply]
      unfolding issued demo_sent_def Let_def by (simp only: case_prod_beta)
  qed
  moreover have "harness_step demo_chat_json demo_sent demo_delta"
    using sends [OF demo_sent_simps(1), of demo_chat_json] by (simp add: demo_delta_def demo_sent_simps)
  ultimately show ?thesis by (meson converse_rtranclp_into_rtranclp rtranclp.rtrancl_refl)
qed

lemma demo_delta_simps [simp]:
  "hs_app demo_delta = hs_app demo_sent" "hs_queue demo_delta = [DeltaEvent 1 3 ''x'']"
  "hs_tasks demo_delta = [[CompletedEvent 1]]" "hs_issued demo_delta = {1, 2, 3}"
  by (simp_all add: demo_delta_def demo_sent_def case_prod_beta Let_def)

theorem messages_stable_witness:
  "\<exists>t. harness_step demo_chat_json demo_delta t \<and> message_text (hs_app t) 1 3 = Some ''x'' \<and>
     (\<exists>a piece. ha_active (hs_app demo_delta) = Some a \<and> 1 = ac_conversation a \<and>
        3 = ac_assistant_message a \<and> hs_queue demo_delta = DeltaEvent 1 3 piece # hs_queue t \<and> ''x'' = [] @ piece)"
proof -
  let ?t = "demo_delta\<lparr>hs_app := process_event 4 (DeltaEvent 1 3 ''x'') (hs_app demo_delta), hs_queue := [],
    hs_issued := insert 4 (hs_issued demo_delta)\<rparr>"
  have step: "harness_step demo_chat_json demo_delta ?t"
    by (rule receives) simp_all
  have new: "message_text (hs_app ?t) 1 3 = Some ''x''"
    by (simp add: message_text_delta demo_sent_app del: process_event.simps)
  have old: "message_text (hs_app demo_delta) 1 3 = Some []" by (simp add: demo_sent_app)
  show ?thesis
    using messages_stable [OF demo_client_start demo_to_delta step old new] step new by auto
qed

theorem client_reachable_witness:
  "stream_ok (ha_active (hs_app demo_delta)) [DeltaEvent 1 3 ''x'', CompletedEvent 1]"
  using client_reachable [OF demo_client_start demo_to_delta] by (simp add: outstanding_def)

theorem generation_settles_witness:
  "message_text (process_events [(5, DeltaEvent 1 3 ''x''), (6, CompletedEvent 1)] (hs_app demo_sent)) 1 3 = Some ''x''"
proof -
  obtain a where a: "ha_active (hs_app demo_delta) = Some a" "ac_conversation a = 1" "ac_assistant_message a = 3"
    using demo_sent_app(2,3) by auto
  then have old: "message_text (hs_app demo_delta) (ac_conversation a) (ac_assistant_message a) = Some []"
    by (simp add: demo_sent_app)
  have ids: "length [5, 6 :: uuid] = length (hs_queue demo_delta @ concat (hs_tasks demo_delta))" by simp
  show ?thesis
    using generation_settles [OF demo_client_start demo_to_delta a(1) old ids] a
    by (simp add: Let_def del: process_event.simps)
qed

end
