(* ===== verification/Harness_View.thy ===== *)
theory Harness_View
  imports Harness_Run
begin

text \<open>
  What the desktop client shows: the texts and the enabled controls that \<open>update\<close> in
  \<open>crates/harness/src/main.rs\<close> hands to its widgets, as a value. Places, sizes and colours are in \<open>Widgets\<close>.
\<close>

section \<open>The sidebar\<close>

text \<open>The widths are exact as \<open>f32\<close>; \<open>narrow\<close> is the comparison of the window with 860 points.\<close>

definition sidebar_width :: "bool \<Rightarrow> nat" where
  "sidebar_width narrow = (if narrow then 208 else 248)"

text \<open>\<open>char::to_uppercase\<close>: \<open>upper\<close> is its table outside ASCII.\<close>

definition uppercase :: "(bytes \<Rightarrow> string) \<Rightarrow> bytes \<Rightarrow> string" where
  "uppercase upper c = (case c of [b] \<Rightarrow> [to_ascii_upper b] | _ \<Rightarrow> upper c)"

definition navigation_title :: "(bytes \<Rightarrow> string) \<Rightarrow> string \<Rightarrow> nat \<Rightarrow> string" where
  "navigation_title upper title width =
     (let max_chars = (if width < 240 then 20 else 27)
      in case utf8_chars (str_trim title) of
           [] \<Rightarrow> ''New conversation''
         | first # rest \<Rightarrow>
             (let normalized = uppercase upper first @ concat rest
              in if max_chars < length (utf8_chars normalized)
                 then concat (take (max_chars - 1) (utf8_chars normalized)) @ ellipsis
                 else normalized))"

record nav_item =
  ni_conversation :: uuid
  ni_label :: string
  ni_selected :: bool

definition sidebar :: "(bytes \<Rightarrow> string) \<Rightarrow> bool \<Rightarrow> harness_app \<Rightarrow> nav_item list" where
  "sidebar upper narrow app =
     map (\<lambda>c. \<lparr>ni_conversation = cv_id c,
               ni_label = navigation_title upper (cv_title c) (sidebar_width narrow),
               ni_selected = (sv_selected (ha_state app) = Some (cv_id c))\<rparr>) (conversations app)"

definition delete_label :: "nav_item \<Rightarrow> string" where
  "delete_label item = ''Delete chat: '' @ ni_label item"

section \<open>The conversation\<close>

datatype message_surface = UserSurface | AssistantSurface | ErrorSurface

record bubble =
  bb_message :: uuid
  bb_surface :: message_surface
  bb_text :: string
  bb_align_right :: bool

fun surface_of :: "role \<Rightarrow> message_surface" where
  "surface_of UserRole = UserSurface"
| "surface_of AssistantRole = AssistantSurface"
| "surface_of ErrorRole = ErrorSurface"

definition bubble_of :: "harness_app \<Rightarrow> conversation \<Rightarrow> message \<Rightarrow> bubble option" where
  "bubble_of app c m =
     (let live = live_placeholder app c m
      in if hm_role m = AssistantRole \<and> hm_content m = [] \<and> \<not> live then None
         else Some \<lparr>bb_message = hm_id m, bb_surface = surface_of (hm_role m),
                    bb_text = (if live then ''Thinking'' @ ellipsis else hm_content m),
                    bb_align_right = (hm_role m = UserRole)\<rparr>)"

record chat_view =
  ct_title :: string
  ct_budget :: string
  ct_model :: string
  ct_models :: "string list"
  ct_rows :: nat
  ct_send_enabled :: bool
  ct_stop_enabled :: bool
  ct_warning :: bool
  ct_start_hint :: bool
  ct_bubbles :: "bubble list"

definition view_of_chat :: "harness_app \<Rightarrow> conversation \<Rightarrow> chat_view" where
  "view_of_chat app c =
     (let settings = sv_settings (ha_state app)
      in \<lparr>ct_title = cv_title c,
          ct_budget = ''~'' @ show_nat (unat (approximate_tokens (conversation_size c))) @ '' / '' @
            show_nat (unat (se_context_budget settings)) @ '' tokens'',
          ct_model = se_model settings, ct_models = ha_models app,
          ct_rows = min 5 (max 1 (length (str_lines (ha_draft app)))),
          ct_send_enabled = (ha_active app = None \<and> str_trim (ha_draft app) \<noteq> []),
          ct_stop_enabled = (ha_active app \<noteq> None),
          ct_warning = context_warning settings c,
          ct_start_hint = (cv_messages c = []),
          ct_bubbles = List.map_filter (bubble_of app c) (cv_messages c)\<rparr>)"

definition shown_chat :: "harness_app \<Rightarrow> chat_view option" where
  "shown_chat app = map_option (view_of_chat app) (selected app)"

section \<open>The dialog\<close>

text \<open>The question before a conversation is deleted, and whether its generation is to be stopped.\<close>

definition delete_dialog :: "harness_app \<Rightarrow> (string \<times> bool) option" where
  "delete_dialog app =
     map_option (\<lambda>i.
       (''Delete '' @ [CHR 0x22] @
          (case find_conversation i app of Some c \<Rightarrow> cv_title c | None \<Rightarrow> ''this conversation'') @ [CHR 0x22] @ ''?'',
        (case ha_active app of Some stream \<Rightarrow> ac_conversation stream = i | None \<Rightarrow> False)))
       (ha_pending_delete app)"

section \<open>Titles fit\<close>

lemma utf8_chars_ellipsis: "utf8_chars ellipsis = [ellipsis]"
  using utf8_chars_cons [of ellipsis "[]"] by (simp add: ellipsis_def utf8_three_def in_range_def utf8_chars.simps [of "[]"])

lemma default_title: "length (utf8_chars ''New conversation'') = 16"
proof -
  have "list_all (in_range 0 0x7F) ''New conversation''" by code_simp
  from utf8_chars_ascii [OF this] show ?thesis by simp
qed

lemma shortened: "length (utf8_chars (concat (take n (utf8_chars s)) @ ellipsis)) \<le> n + 1"
proof -
  have "\<forall>c \<in> set (take n (utf8_chars s)). utf8_char c = Some (length c)"
    using utf8_chars_char [of _ s] by (auto dest: in_set_takeD)
  from utf8_chars_concat [OF this, of ellipsis] show ?thesis by (simp add: utf8_chars_ellipsis)
qed

lemma title_fits: "length (utf8_chars (navigation_title upper title width)) \<le> (if width < 240 then 20 else 27)"
proof (cases "utf8_chars (str_trim title)")
  case Nil
  then show ?thesis by (simp add: navigation_title_def default_title)
next
  case (Cons first rest)
  let ?s = "uppercase upper first @ concat rest"
  show ?thesis
    using shortened [of 19 ?s] shortened [of 26 ?s] by (simp add: navigation_title_def Cons Let_def)
qed

lemma title_not_empty:
  assumes "\<forall>c. upper c \<noteq> []"
  shows "navigation_title upper title width \<noteq> []"
  using assms by (auto simp: navigation_title_def Let_def uppercase_def ellipsis_def split: list.split)

lemma filter_same: "distinct xs \<Longrightarrow> x \<in> set xs \<Longrightarrow> filter (\<lambda>y. y = x) xs = [x]"
  by (induction xs) (auto simp: filter_empty_conv)

text \<open>
  C24. The sidebar is faithful: in every reachable state of the client it has one entry per
  conversation, in order and with distinct ids, exactly one of them is highlighted, and that one is the
  conversation shown; every label is visible and no longer than the sidebar allows.
\<close>

theorem sidebar_correct:
  assumes "harness_start s0" and "(harness_step parse_json)\<^sup>*\<^sup>* s0 s" and "\<forall>c. upper c \<noteq> []"
    and "items = sidebar upper narrow (hs_app s)"
  shows "map ni_conversation items = map cv_id (conversations (hs_app s)) \<and> distinct (map ni_conversation items) \<and>
    (\<exists>c. selected (hs_app s) = Some c \<and> map ni_conversation (filter ni_selected items) = [cv_id c]) \<and>
    (\<forall>item \<in> set items. ni_label item \<noteq> [] \<and>
       length (utf8_chars (ni_label item)) \<le> (if narrow then 20 else 27))"
proof -
  let ?app = "hs_app s"
  have ok: "saved_ok (ha_state ?app)"
    using client.invariant_reachable [OF assms(1,2)] by (simp add: harness_inv_def)
  have ids: "map ni_conversation items = map cv_id (conversations ?app)"
    by (simp add: assms(4) sidebar_def)
  have dist: "distinct (map cv_id (conversations ?app))"
    using ok by (simp add: saved_ok_iff conversations_ok_def)
  obtain c where c: "selected ?app = Some c" "c \<in> set (conversations ?app)" using selected_some [OF ok] by blast
  then have sel: "sv_selected (ha_state ?app) = Some (cv_id c)"
    using ok by (auto simp: selected_def bind_eq_Some_conv find_conversation_mem saved_ok_iff)
  have "map ni_conversation (filter ni_selected items) = filter (\<lambda>i. i = cv_id c) (map cv_id (conversations ?app))"
    by (auto simp: assms(4) sidebar_def sel filter_map o_def intro!: map_cong filter_cong)
  also have "\<dots> = [cv_id c]"
    using c(2) by (intro filter_same [OF dist]) simp
  finally have "\<exists>c. selected ?app = Some c \<and> map ni_conversation (filter ni_selected items) = [cv_id c]"
    by (intro exI [of _ c] conjI c(1))
  moreover have "\<forall>item \<in> set items. ni_label item \<noteq> [] \<and>
      length (utf8_chars (ni_label item)) \<le> (if narrow then 20 else 27)"
    using title_fits [of upper _ "sidebar_width narrow"] title_not_empty [OF assms(3)]
    by (auto simp: assms(4) sidebar_def sidebar_width_def)
  ultimately show ?thesis using ids dist by simp
qed

section \<open>What is seen is sent\<close>

text \<open>The message a bubble stands for in a request; errors stand for none.\<close>

definition sent_bubble :: "bubble \<Rightarrow> api_message option" where
  "sent_bubble b =
     (case bb_surface b of
        UserSurface \<Rightarrow> Some \<lparr>ap_role = ''user'', ap_text = bb_text b\<rparr>
      | AssistantSurface \<Rightarrow> Some \<lparr>ap_role = ''assistant'', ap_text = bb_text b\<rparr>
      | ErrorSurface \<Rightarrow> None)"

lemma map_filter_Cons:
  "List.map_filter f (x # xs) = (case f x of Some y \<Rightarrow> y # List.map_filter f xs | None \<Rightarrow> List.map_filter f xs)"
  by (simp add: List.map_filter_def split: option.split)

lemma map_filter_snoc: "List.map_filter f (xs @ [x]) = List.map_filter f xs @ (case f x of Some y \<Rightarrow> [y] | None \<Rightarrow> [])"
  by (simp add: List.map_filter_def split: option.split)

lemma idle_bubbles:
  assumes "ha_active app = None"
  shows "List.map_filter sent_bubble (List.map_filter (bubble_of app c) ms) = List.map_filter api_message_of ms"
proof (induction ms)
  case (Cons m ms)
  have "live_placeholder app c m = False" using assms by (simp add: live_placeholder_def)
  with Cons show ?case
    by (cases "hm_role m") (simp_all add: map_filter_Cons bubble_of_def sent_bubble_def api_message_of_def)
qed (simp add: List.map_filter_def)

lemma bubbles_frame:
  assumes "ha_active app = None" "ha_active app' = Some a" "ac_assistant_message a \<notin> hm_id ` set ms"
  shows "List.map_filter (bubble_of app' d) ms = List.map_filter (bubble_of app c) ms"
proof -
  have "bubble_of app' d m = bubble_of app c m" if "m \<in> set ms" for m
    using assms that by (auto simp: bubble_of_def live_placeholder_def)
  then show ?thesis by (simp add: List.map_filter_def cong: filter_cong map_cong)
qed

lemma sent_selected:
  assumes "saved_ok (ha_state app)" and "selected app = Some c"
    and "str_trim (ha_draft app) \<noteq> []" and "ha_active app = None"
  shows "selected (fst (send user assistant app)) = Some (push_question user assistant (ha_draft app) c)"
proof -
  have sel: "sv_selected (ha_state app) = Some (cv_id c)"
    and found: "find (\<lambda>d. cv_id d = cv_id c) (conversations app) = Some c"
    using assms(1,2) by (auto simp: selected_def bind_eq_Some_conv find_conversation_mem saved_ok_iff
        find_conversation_def [symmetric])
  have "cv_id (push_question user assistant (ha_draft app) e) = cv_id e" for e
    by (simp add: push_question_def Let_def)
  then show ?thesis
    unfolding send_run(1) [OF assms(1,3,4,2)]
    by (simp add: selected_def find_conversation_def change_conversation_def sel find_update_first found)
qed

lemma question_messages:
  "cv_messages (push_question user assistant content c) =
     (cv_messages c @ [\<lparr>hm_id = user, hm_role = UserRole, hm_content = content\<rparr>]) @
     [\<lparr>hm_id = assistant, hm_role = AssistantRole, hm_content = []\<rparr>]"
  by (simp add: push_question_def Let_def)

lemma request_of_question:
  "rq_messages (from_conversation settings (push_question user assistant content c)) =
     (if cv_system_enabled c \<and> str_trim (cv_system_harness c) \<noteq> []
      then [\<lparr>ap_role = ''system'', ap_text = cv_system_harness c\<rparr>] else []) @
     List.map_filter api_message_of (cv_messages c) @ [\<lparr>ap_role = ''user'', ap_text = content\<rparr>]"
proof -
  have "List.map_filter api_message_of (cv_messages (push_question user assistant content c)) =
      List.map_filter api_message_of (cv_messages c) @ [\<lparr>ap_role = ''user'', ap_text = content\<rparr>]"
    unfolding question_messages map_filter_snoc by (simp add: api_message_of_def)
  moreover have "cv_system_enabled (push_question user assistant content c) = cv_system_enabled c"
    "cv_system_harness (push_question user assistant content c) = cv_system_harness c"
    by (simp_all add: push_question_def Let_def)
  ultimately show ?thesis by (simp only: from_conversation_def api_request.simps append_assoc)
qed

lemma bubbles_of_question:
  assumes "ha_active app = None" "ha_active app' = Some a" "ac_assistant_message a = assistant"
    and "ac_conversation a = cv_id c" "assistant \<notin> hm_id ` set (cv_messages c)"
    and d_def: "d = push_question user assistant content c"
  shows "List.map_filter (bubble_of app' d) (cv_messages d) = List.map_filter (bubble_of app c) (cv_messages c) @
    [\<lparr>bb_message = user, bb_surface = UserSurface, bb_text = content, bb_align_right = True\<rparr>,
     \<lparr>bb_message = assistant, bb_surface = AssistantSurface, bb_text = ''Thinking'' @ ellipsis,
      bb_align_right = False\<rparr>]"
proof -
  have "cv_id d = cv_id c" by (simp add: d_def push_question_def Let_def)
  then show ?thesis
    using bubbles_frame [of app app' a "cv_messages c" d c] assms(1-5) unfolding d_def question_messages map_filter_snoc
    by (simp add: bubble_of_def live_placeholder_def)
qed

text \<open>
  C17. The model sees what the user sees. When a message is sent, the request carries the system message, if it
  is enabled and not blank, then exactly the texts of the bubbles on the screen in their order, error
  bubbles left out, and the draft; afterwards the window shows the same bubbles, the
  question and a placeholder for the answer, and generation can be stopped but nothing else sent.
\<close>

theorem seen_is_sent:
  assumes "saved_ok (ha_state app)" and "shown_chat app = Some before"
    and "send user assistant app = (app', Some (SpawnChat endpoint request conversation message))"
    and "assistant \<notin> app_ids app"
  shows "\<exists>c after. selected app = Some c \<and> ct_send_enabled before \<and>
    rq_messages request =
      (if cv_system_enabled c \<and> str_trim (cv_system_harness c) \<noteq> []
       then [\<lparr>ap_role = ''system'', ap_text = cv_system_harness c\<rparr>] else []) @
      List.map_filter sent_bubble (ct_bubbles before) @ [\<lparr>ap_role = ''user'', ap_text = ha_draft app\<rparr>] \<and>
    shown_chat app' = Some after \<and> \<not> ct_send_enabled after \<and> ct_stop_enabled after \<and>
    ct_bubbles after = ct_bubbles before @
      [\<lparr>bb_message = user, bb_surface = UserSurface, bb_text = ha_draft app, bb_align_right = True\<rparr>,
       \<lparr>bb_message = assistant, bb_surface = AssistantSurface, bb_text = ''Thinking'' @ ellipsis,
        bb_align_right = False\<rparr>]"
proof -
  obtain c where c: "selected app = Some c" and before: "before = view_of_chat app c"
    using assms(2) by (auto simp: shown_chat_def)
  have idle: "str_trim (ha_draft app) \<noteq> []" "ha_active app = None"
    using assms(3) by (auto simp: send_def split: if_splits)
  let ?d = "push_question user assistant (ha_draft app) c"
  note run = send_run [OF assms(1) idle c, of user assistant]
  have request: "request = from_conversation (sv_settings (ha_state app)) ?d"
    using run(2) assms(3) by simp
  have active: "ha_active app' = Some \<lparr>ac_conversation = cv_id c, ac_user_message = user,
      ac_assistant_message = assistant, ac_cancelled = False\<rparr>"
    using run(1) assms(3) by simp
  have "c \<in> set (conversations app)"
    using assms(1) c by (auto simp: selected_def bind_eq_Some_conv find_conversation_mem saved_ok_iff)
  then have fresh: "assistant \<notin> hm_id ` set (cv_messages c)" using assms(4) by (auto simp: ids_of_def)
  note bubbles = bubbles_of_question [OF idle(2) active _ _ fresh refl, of user "ha_draft app"]
  have "shown_chat app' = Some (view_of_chat app' ?d)"
    using sent_selected [OF assms(1) c idle, of user assistant] assms(3) by (simp add: shown_chat_def)
  moreover have "ct_send_enabled before" "ct_bubbles before = List.map_filter (bubble_of app c) (cv_messages c)"
    using idle by (simp_all add: before view_of_chat_def Let_def)
  moreover have "\<not> ct_send_enabled (view_of_chat app' ?d)" "ct_stop_enabled (view_of_chat app' ?d)"
    "ct_bubbles (view_of_chat app' ?d) = List.map_filter (bubble_of app' ?d) (cv_messages ?d)"
    by (simp_all add: view_of_chat_def Let_def active)
  ultimately show ?thesis
    using c bubbles request_of_question [of "sv_settings (ha_state app)" user assistant "ha_draft app" c]
    by (simp add: request idle_bubbles [OF idle(2)])
qed

theorem sidebar_correct_witness:
  "map ni_conversation (sidebar (\<lambda>c. c @ ''x'') True (hs_app demo_delta)) = map cv_id (conversations (hs_app demo_delta))"
  using sidebar_correct [OF demo_client_start demo_to_delta _ refl, of "\<lambda>c. c @ ''x''" True] by simp

definition demo_typed :: harness_app where
  "demo_typed = fst (perform (EditDraft ''hi'') (hs_app demo_boot))"

theorem seen_is_sent_witness:
  "\<exists>request. snd (send 2 3 demo_typed) = Some (SpawnChat (se_endpoint settings_default) request 1 3) \<and>
     rq_messages request = [\<lparr>ap_role = ''user'', ap_text = ''hi''\<rparr>]"
proof -
  have typed: "saved_ok (ha_state demo_typed)" "selected demo_typed = Some (conversation_new 1)"
    "ha_active demo_typed = None" "ha_draft demo_typed = ''hi''" "3 \<notin> app_ids demo_typed"
    "sv_settings (ha_state demo_typed) = settings_default"
    by (simp_all add: demo_typed_def demo_run_defs saved_ok_def conversations_ok_def ids_of_def)
  have before: "shown_chat demo_typed = Some (view_of_chat demo_typed (conversation_new 1))"
    by (simp add: shown_chat_def typed)
  obtain request where spawn: "snd (send 2 3 demo_typed) = Some (SpawnChat (se_endpoint settings_default) request 1 3)"
    using send_run(2) [OF typed(1) _ typed(3,2), of 2 3] demo_trim typed(4,6) by (simp add: conversation_new_def)
  then have sent: "send 2 3 demo_typed = (fst (send 2 3 demo_typed), Some (SpawnChat (se_endpoint settings_default) request 1 3))"
    by (metis prod.collapse)
  have "ct_bubbles (view_of_chat demo_typed (conversation_new 1)) = []"
    by (simp add: view_of_chat_def Let_def conversation_new_def List.map_filter_def)
  then have "rq_messages request = [\<lparr>ap_role = ''user'', ap_text = ''hi''\<rparr>]"
    using seen_is_sent [OF typed(1) before sent typed(5)] typed(2,4)
    by (auto simp: conversation_new_def List.map_filter_def)
  with spawn show ?thesis by blast
qed

end
