(* ===== verification/Text_Typing.thy ===== *)
theory Text_Typing
  imports Utf8 Tool_Calls Harness_View
begin

text \<open>
  Typing of texts. Every \<open>String\<close> of the sources is UTF-8; the model keeps strings as bytes, so this
  is a theorem. The texts that enter, what the user types, what the network reports and what the JSON
  parser gives, are taken to be well-formed, the bytes of a streamed body are not. The two places that
  take texts apart are \<open>tool_calls.rs\<close>, whose slices panic inside a character, and the client, which
  cuts a byte stream into frames and frames into lines, and titles into characters.
\<close>

section \<open>JSON\<close>

fun json_utf8 :: "json_value \<Rightarrow> bool" where
  "json_utf8 (JString s) \<longleftrightarrow> utf8_valid s"
| "json_utf8 (JNumber s) \<longleftrightarrow> utf8_valid s"
| "json_utf8 (JArray vs) \<longleftrightarrow> list_all json_utf8 vs"
| "json_utf8 (JObject members) \<longleftrightarrow> list_all (\<lambda>kv. utf8_valid (fst kv) \<and> json_utf8 (snd kv)) members"
| "json_utf8 _ \<longleftrightarrow> True"

definition utf8_parser :: "(string \<Rightarrow> string + json_value) \<Rightarrow> bool" where
  "utf8_parser parse_json \<longleftrightarrow>
     (\<forall>s. utf8_valid s \<longrightarrow> (case parse_json s of Inl err \<Rightarrow> utf8_valid err | Inr v \<Rightarrow> json_utf8 v))"

lemma utf8_parser_Inl: "utf8_parser parse_json \<Longrightarrow> utf8_valid s \<Longrightarrow> parse_json s = Inl err \<Longrightarrow> utf8_valid err"
  by (auto simp: utf8_parser_def dest!: spec [of _ s])

lemma utf8_parser_Inr: "utf8_parser parse_json \<Longrightarrow> utf8_valid s \<Longrightarrow> parse_json s = Inr v \<Longrightarrow> json_utf8 v"
  by (auto simp: utf8_parser_def dest!: spec [of _ s])

lemma json_get_utf8: "json_get k v = Some w \<Longrightarrow> json_utf8 v \<Longrightarrow> json_utf8 w"
  by (cases v) (auto simp: json_get_def list_all_iff dest!: map_of_SomeD)

lemma as_str_utf8: "as_str v = Some s \<Longrightarrow> json_utf8 v \<Longrightarrow> utf8_valid s"
  by (cases v) (auto simp: as_str_def)

lemma json_child_utf8: "json_child token index v = Some w \<Longrightarrow> json_utf8 v \<Longrightarrow> json_utf8 w"
  by (cases v) (auto simp: json_child_def list_all_length split: option.splits if_splits intro: json_get_utf8)

section \<open>Debug formatting\<close>

lemma ascii_code: "k < 128 \<Longrightarrow> ascii (char_of (k :: nat))"
  by (simp add: in_range_def of_char_of take_bit_nat_def)

lemma hex_ascii: "n < 128 \<Longrightarrow> list_all ascii (hex_str n)"
  unfolding hex_str_def hex_digit_def by (auto intro!: ascii_code)

lemma escape_letters:
  "list_all ascii [CHR 0x5C, CHR 0x22, CHR ''n'', CHR ''r'', CHR ''t'', CHR ''0'', CHR ''u'', CHR ''{'', CHR ''}'']"
  by (simp add: in_range_def)

lemma escape_ascii:
  assumes "ascii c"
  shows "list_all ascii (escape_debug c)"
proof -
  have "(of_char c :: nat) < 128" using assms by (simp add: in_range_def)
  then show ?thesis
    using escape_letters hex_ascii [of "of_char c"] hex_ascii [of 127] assms unfolding escape_debug_def
    by (simp split: if_split)
qed

lemma ascii_controls:
  "list_all ascii [CHR 0x22, CHR 0x5C, CHR 0x0A, CHR 0x0D, CHR 0x09, CHR 0x00, CHR 0x7F]"
  by (simp add: in_range_def)

lemma escape_other:
  assumes "\<not> ascii c"
  shows "escape_debug c = [c]"
proof -
  have "c \<notin> set [CHR 0x22, CHR 0x5C, CHR 0x0A, CHR 0x0D, CHR 0x09, CHR 0x00, CHR 0x7F]"
    using assms ascii_controls by (auto simp only: list_all_iff)
  moreover have "\<not> in_range 0x01 0x1F c" using assms by (simp add: in_range_def)
  ultimately show ?thesis unfolding escape_debug_def by (simp only: list.set insert_iff empty_iff de_Morgan_disj if_False HOL.simp_thms)
qed

lemma utf8_char_ascii: "utf8_char s = Some n \<Longrightarrow> ascii (hd s) \<Longrightarrow> n = 1"
  by (induction s rule: utf8_char.induct) (auto split: if_splits)

lemma utf8_char_long:
  assumes "utf8_char s = Some n" and "n \<noteq> 1" and "c \<in> set (take n s)"
  shows "\<not> ascii c"
proof -
  from assms(3) obtain i where i: "c = s ! i" "i < n" "i < length s" by (auto simp: in_set_conv_nth)
  show ?thesis
  proof (cases "i = 0")
    case True
    then show ?thesis using utf8_char_ascii [OF assms(1)] assms(2) i by (cases s) auto
  next
    case False
    then show ?thesis using utf8_char_tail [OF assms(1)] i ascii_not_cont by auto
  qed
qed

lemma utf8_valid_escape: "utf8_valid s \<Longrightarrow> utf8_valid (concat (map escape_debug s))"
proof (induction s rule: length_induct)
  case (1 s)
  show ?case
  proof (cases "s = []")
    case False
    with "1.prems" obtain n where n: "utf8_char s = Some n" "0 < n" "n \<le> length s" "utf8_valid (drop n s)"
      by (rule utf8_valid_cases)
    have rest: "utf8_valid (concat (map escape_debug (drop n s)))" using "1.IH" n False by simp
    have "utf8_valid (concat (map escape_debug (take n s)))"
    proof (cases "n = 1")
      case True
      with False have one: "take n s = [hd s]" "s = hd s # tl s" by (simp_all add: take_Suc)
      have "ascii (hd s)"
        using n(1) unfolding True by (subst (asm) one(2), cases "tl s" rule: utf8_char.cases) (auto split: if_splits)
      with one show ?thesis using escape_ascii [of "hd s"] by (simp add: utf8_valid_asciis)
    next
      case False
      have "map escape_debug (take n s) = map (\<lambda>c. [c]) (take n s)"
        using utf8_char_long [OF n(1) False] by (intro map_cong) (auto simp: escape_other)
      then have "concat (map escape_debug (take n s)) = take n s" by (simp only: concat_map_singleton list.map_ident)
      then show ?thesis using utf8_char_valid [OF n(1)] by simp
    qed
    from utf8_valid_appendI [OF this rest] have "utf8_valid (concat (map escape_debug (take n s @ drop n s)))"
      unfolding map_append concat_append .
    then show ?thesis by simp
  qed simp
qed

lemma utf8_valid_debug [utf8_intros]: "utf8_valid s \<Longrightarrow> utf8_valid (str_debug s)"
  using utf8_valid_escape [of s] utf8_valid_append [of "concat (map escape_debug s)"]
  by (simp add: str_debug_def in_range_def)

section \<open>Tool calls\<close>

definition tool_call_utf8 :: "tool_call \<Rightarrow> bool" where
  "tool_call_utf8 c \<longleftrightarrow>
     utf8_valid (tc_id c) \<and> utf8_valid (fc_name (tc_function c)) \<and> json_utf8 (fc_arguments (tc_function c))"

lemma argument_utf8:
  assumes "utf8_parser parse_json" "json_utf8 given" "utf8_valid name"
  shows "case (case given of
      JString s \<Rightarrow>
        (case parse_json s of
           Inl err \<Rightarrow> Inl (''tool call '' @ str_debug name @ '' has invalid JSON arguments: '' @ err)
         | Inr v \<Rightarrow> Inr v)
    | _ \<Rightarrow> Inr given) of Inl err \<Rightarrow> utf8_valid err | Inr v \<Rightarrow> json_utf8 v"
proof (cases given)
  case (JString s)
  then show ?thesis
    using assms utf8_parser_Inl [OF assms(1), of s] utf8_parser_Inr [OF assms(1), of s]
      utf8_valid_debug [OF assms(3)]
    by (cases "parse_json s") (simp_all add: in_range_def utf8_valid_append)
qed (use assms in auto)

lemma parse_one_utf8:
  assumes "utf8_parser parse_json" "utf8_valid request_id" "utf8_valid body"
  shows "case parse_one parse_json names request_id index body of
      Inl err \<Rightarrow> utf8_valid err | Inr call \<Rightarrow> tool_call_utf8 call"
proof (cases "parse_json body")
  case (Inl err)
  then show ?thesis using utf8_parser_Inl [OF assms(1,3)] by (simp add: parse_one_def in_range_def)
next
  case (Inr v)
  let ?f = "case json_get ''function'' v of Some f \<Rightarrow> f | None \<Rightarrow> v"
  have v: "json_utf8 v" using utf8_parser_Inr [OF assms(1,3) Inr] .
  then have f: "json_utf8 ?f" by (auto split: option.split intro: json_get_utf8)
  show ?thesis
  proof (cases "Option.bind (json_get ''name'' ?f) as_str")
    case None
    with Inr show ?thesis by (simp add: parse_one_def in_range_def)
  next
    case (Some name)
    have name: "utf8_valid name" using Some f by (auto simp: bind_eq_Some_conv intro: as_str_utf8 json_get_utf8)
    note debug = utf8_valid_debug [OF name]
    show ?thesis
    proof (cases "name \<in> names \<and> json_get ''arguments'' ?f \<noteq> None")
      case False
      with Inr Some debug show ?thesis
        by (auto simp: parse_one_def in_range_def utf8_valid_append)
    next
      case True
      then obtain given where given: "json_get ''arguments'' ?f = Some given" by blast
      note arg = argument_utf8 [OF assms(1) json_get_utf8 [OF given f] name]
      have i: "utf8_valid (case Option.bind (json_get ''id'' v) as_str of Some i \<Rightarrow> i | None \<Rightarrow> request_id @ ''-'' @ show_nat index)"
        using v assms(2) utf8_valid_show_nat [of index]
        by (auto simp: bind_eq_Some_conv utf8_valid_append in_range_def split: option.split
            intro: as_str_utf8 json_get_utf8)
      show ?thesis
        using arg i True debug name
        unfolding parse_one_def Inr sum.case Let_def Some option.case given
        by (simp add: tool_call_utf8_def in_range_def utf8_valid_append split: sum.splits)
    qed
  qed
qed

text \<open>The loop of \<open>parse_tool_calls\<close> with checked slices: \<open>None\<close> is the panic of a slice.\<close>

function sliced_loop ::
  "(string \<Rightarrow> string + json_value) \<Rightarrow> string set \<Rightarrow> string \<Rightarrow> string \<Rightarrow> string \<Rightarrow> tool_call list \<Rightarrow>
   string set \<Rightarrow> (string + string \<times> tool_call list) option" where
  "sliced_loop parse_json names request_id remainder visible calls ids =
     (case find_sub open_tag remainder of
        None \<Rightarrow> Some (Inr (visible @ remainder, calls))
      | Some start \<Rightarrow>
          (case slice_to remainder start of None \<Rightarrow> None | Some shown \<Rightarrow>
          (case slice_from remainder (start + length open_tag) of None \<Rightarrow> None | Some body \<Rightarrow>
          (case find_sub close_tag body of
             None \<Rightarrow> Some (Inl ''unterminated Qwen <tool_call> block'')
           | Some e \<Rightarrow>
               (case slice_to body e of None \<Rightarrow> None | Some inner \<Rightarrow>
               (case parse_one parse_json names request_id (length calls) (str_trim inner) of
                  Inl err \<Rightarrow> Some (Inl err)
                | Inr call \<Rightarrow>
                    if tc_id call \<in> ids
                    then Some (Inl (''model returned duplicate tool-call id '' @ str_debug (tc_id call)))
                    else (case slice_from body (e + length close_tag) of None \<Rightarrow> None | Some rest \<Rightarrow>
                      sliced_loop parse_json names request_id rest (visible @ shown) (calls @ [call])
                        (insert (tc_id call) ids))))))))"
  by pat_completeness auto
termination
  by (relation "measure (\<lambda>(parse_json, names, request_id, remainder, visible, calls, ids). length remainder)")
    (auto dest!: find_sub_Some [THEN conjunct2] simp: slice_from_def split: if_splits)

declare sliced_loop.simps [simp del]

definition sliced_tool_calls ::
  "(string \<Rightarrow> string + json_value) \<Rightarrow> string \<Rightarrow> tool_definition list \<Rightarrow> string \<Rightarrow>
   (string + string \<times> tool_call list) option" where
  "sliced_tool_calls parse_json text tools request_id =
     map_option (map_sum id (\<lambda>(visible, calls). (str_trim visible, calls)))
       (sliced_loop parse_json (declared_names tools) request_id text [] [] {})"

lemma tags_ascii: "list_all ascii open_tag" "list_all ascii close_tag" "open_tag \<noteq> []" "close_tag \<noteq> []"
  by (simp_all add: in_range_def)

definition calls_utf8 :: "string + string \<times> tool_call list \<Rightarrow> bool" where
  "calls_utf8 r =
     (case r of Inl err \<Rightarrow> utf8_valid err
      | Inr (visible, calls) \<Rightarrow> utf8_valid visible \<and> list_all tool_call_utf8 calls)"

lemma sliced_loop_ok:
  assumes "utf8_parser parse_json" "utf8_valid request_id"
    and "utf8_valid remainder" "utf8_valid visible" "list_all tool_call_utf8 calls"
  shows "sliced_loop parse_json names request_id remainder visible calls ids =
      Some (parse_loop parse_json names request_id remainder visible calls ids) \<and>
    calls_utf8 (parse_loop parse_json names request_id remainder visible calls ids)"
  using assms(3-5)
proof (induction "length remainder" arbitrary: remainder visible calls ids rule: less_induct)
  case less
  note unfold = sliced_loop.simps [of parse_json names request_id remainder] parse_loop.simps [of parse_json names request_id remainder]
  show ?case
  proof (cases "find_sub open_tag remainder")
    case None
    with less.prems show ?thesis by (simp add: unfold calls_utf8_def utf8_valid_append)
  next
    case start: (Some start)
    let ?body = "drop (start + length open_tag) remainder"
    note cut = find_sub_boundary [OF less.prems(1) tags_ascii(1,3) start]
    have slices: "slice_to remainder start = Some (take start remainder)"
      "slice_from remainder (start + length open_tag) = Some ?body"
      using cut by (simp_all only: slice_to_def slice_from_def if_True)
    have shown: "utf8_valid (take start remainder)" and body: "utf8_valid ?body"
      using boundary_slices(1) [OF less.prems(1) cut(1)] boundary_slices(2) [OF less.prems(1) cut(2)] .
    show ?thesis
    proof (cases "find_sub close_tag ?body")
      case None
      then show ?thesis
        unfolding unfold start option.case slices Let_def None by (simp add: calls_utf8_def in_range_def)
    next
      case e: (Some e)
      let ?inner = "take e ?body" and ?rest = "drop (e + length close_tag) ?body"
      note cut' = find_sub_boundary [OF body tags_ascii(2,4) e]
      have slices': "slice_to ?body e = Some ?inner" "slice_from ?body (e + length close_tag) = Some ?rest"
        using cut' by (simp_all only: slice_to_def slice_from_def if_True)
      have inner: "utf8_valid (str_trim ?inner)" and rest: "utf8_valid ?rest"
        using utf8_valid_trim [OF boundary_slices(1) [OF body cut'(1)]] boundary_slices(2) [OF body cut'(2)] .
      note one = parse_one_utf8 [OF assms(1,2) inner, of names "length calls"]
      show ?thesis
      proof (cases "parse_one parse_json names request_id (length calls) (str_trim ?inner)")
        case (Inl err)
        with one show ?thesis
          unfolding unfold start option.case slices Let_def e slices' by (simp add: calls_utf8_def)
      next
        case (Inr call)
        with one have call: "tool_call_utf8 call" by simp
        show ?thesis
        proof (cases "tc_id call \<in> ids")
          case True
          with call show ?thesis
            unfolding unfold start option.case slices Let_def e slices' Inr sum.case
            by (simp add: calls_utf8_def tool_call_utf8_def utf8_valid_debug in_range_def)
        next
          case False
          have "length ?rest < length remainder"
            using find_sub_Some [OF start, THEN conjunct2] by simp
          from less.hyps [OF this rest _ _, of "visible @ take start remainder" "calls @ [call]"]
          show ?thesis
            using less.prems shown call False
            unfolding unfold start option.case slices Let_def e slices' Inr sum.case if_False
            by (simp only: utf8_valid_append list_all_append list.pred_inject if_False HOL.simp_thms)
        qed
      qed
    qed
  qed
qed

section \<open>The client\<close>

text \<open>One judgement per type; that of the running client is made of them.\<close>

fun event_utf8 :: "event \<Rightarrow> bool" where
  "event_utf8 (ModelsEvent (Inl err)) \<longleftrightarrow> utf8_valid err"
| "event_utf8 (ModelsEvent (Inr models)) \<longleftrightarrow> list_all utf8_valid models"
| "event_utf8 (DeltaEvent _ _ piece) \<longleftrightarrow> utf8_valid piece"
| "event_utf8 (FailedEvent _ err) \<longleftrightarrow> utf8_valid err"
| "event_utf8 _ \<longleftrightarrow> True"

fun turn_utf8 :: "turn \<Rightarrow> bool" where
  "turn_utf8 (BodyTurn (Inl err)) \<longleftrightarrow> utf8_valid err"
| "turn_utf8 _ \<longleftrightarrow> True"

fun reply_utf8 :: "chat_reply \<Rightarrow> bool" where
  "reply_utf8 (ReplyError err) \<longleftrightarrow> utf8_valid err"
| "reply_utf8 (ReplyStatus status body) \<longleftrightarrow> utf8_valid status \<and> utf8_valid body"
| "reply_utf8 (ReplyBody turns) \<longleftrightarrow> list_all turn_utf8 turns"
| "reply_utf8 _ \<longleftrightarrow> True"

fun action_utf8 :: "ui_action \<Rightarrow> bool" where
  "action_utf8 (EditDraft s) \<longleftrightarrow> utf8_valid s"
| "action_utf8 (EditEndpoint s) \<longleftrightarrow> utf8_valid s"
| "action_utf8 (EditSystemHarness s) \<longleftrightarrow> utf8_valid s"
| "action_utf8 _ \<longleftrightarrow> True"

definition settings_utf8 :: "settings \<Rightarrow> bool" where
  "settings_utf8 s \<longleftrightarrow> utf8_valid (se_endpoint s) \<and> utf8_valid (se_model s)"

definition conversation_utf8 :: "conversation \<Rightarrow> bool" where
  "conversation_utf8 c \<longleftrightarrow>
     utf8_valid (cv_title c) \<and> utf8_valid (cv_system_harness c) \<and>
     list_all (\<lambda>m. utf8_valid (hm_content m)) (cv_messages c)"

definition saved_utf8 :: "saved_state \<Rightarrow> bool" where
  "saved_utf8 s \<longleftrightarrow> settings_utf8 (sv_settings s) \<and> list_all conversation_utf8 (sv_conversations s)"

definition app_utf8 :: "harness_app \<Rightarrow> bool" where
  "app_utf8 app \<longleftrightarrow>
     saved_utf8 (ha_state app) \<and> utf8_valid (ha_draft app) \<and> list_all utf8_valid (ha_models app) \<and>
     utf8_valid (ha_status app)"

definition request_utf8 :: "api_request \<Rightarrow> bool" where
  "request_utf8 r \<longleftrightarrow>
     utf8_valid (rq_model r) \<and> list_all (\<lambda>m. utf8_valid (ap_role m) \<and> utf8_valid (ap_text m)) (rq_messages r)"

fun spawned_utf8 :: "spawned \<Rightarrow> bool" where
  "spawned_utf8 (SpawnFetch endpoint) \<longleftrightarrow> utf8_valid endpoint"
| "spawned_utf8 (SpawnChat endpoint request _ _) \<longleftrightarrow> utf8_valid endpoint \<and> request_utf8 request"

definition run_utf8 :: "harness_run \<Rightarrow> bool" where
  "run_utf8 s \<longleftrightarrow>
     app_utf8 (hs_app s) \<and> list_all event_utf8 (hs_queue s) \<and> list_all (list_all event_utf8) (hs_tasks s)"

text \<open>The steps of the client when what it gets from outside is well-formed text.\<close>

inductive text_step :: "(string \<Rightarrow> string + json_value) \<Rightarrow> harness_run \<Rightarrow> harness_run \<Rightarrow> bool"
  for parse_json where
  text_acts: "action_utf8 a \<Longrightarrow> reply_utf8 reply \<Longrightarrow> enabled (hs_app s) a \<Longrightarrow>
     set (drawn a) \<inter> hs_issued s = {} \<Longrightarrow> distinct (drawn a) \<Longrightarrow> perform a (hs_app s) = (app, task) \<Longrightarrow>
     text_step parse_json s
       (launch parse_json reply task (s\<lparr>hs_app := app, hs_issued := hs_issued s \<union> set (drawn a)\<rparr>))"
| text_fetched: "event_utf8 (ModelsEvent r) \<Longrightarrow> hs_fetches s = Suc n \<Longrightarrow>
     text_step parse_json s (s\<lparr>hs_queue := hs_queue s @ [ModelsEvent r], hs_fetches := n\<rparr>)"
| text_sends: "hs_tasks s = before @ (e # es) # after \<Longrightarrow> may_send (hs_app s) e \<Longrightarrow>
     text_step parse_json s (s\<lparr>hs_queue := hs_queue s @ [e], hs_tasks := before @ es # after\<rparr>)"
| text_receives: "hs_queue s = e # queue \<Longrightarrow> new_id \<notin> hs_issued s \<Longrightarrow>
     text_step parse_json s
       (s\<lparr>hs_app := process_event new_id e (hs_app s), hs_queue := queue,
          hs_issued := insert new_id (hs_issued s)\<rparr>)"
| text_restarts: "new_id \<notin> hs_issued s \<Longrightarrow>
     text_step parse_json s (harness_boot (Some (ha_state (hs_app s))) new_id (hs_issued s))"

lemma text_step_step: "text_step parse_json s t \<Longrightarrow> harness_step parse_json s t"
  by (induction rule: text_step.induct) (blast intro: harness_step.intros)+

subsection \<open>The network task\<close>

lemma frame_data_utf8: "utf8_valid (frame_data frame)"
proof -
  have prefix: "utf8_valid ''data:''" by code_simp
  have "utf8_valid d" if "d \<in> set (data_lines (utf8_lossy frame))" for d
  proof -
    from that obtain line r where "line \<in> set (str_lines (utf8_lossy frame))" "strip_prefix ''data:'' line = Some r"
      "d = trim_start r"
      by (auto simp: data_lines_def List.map_filter_def)
    then show ?thesis
      using utf8_valid_strip_prefix [OF _ prefix] utf8_valid_lines [OF utf8_valid_lossy] utf8_valid_trim_start
      by blast
  qed
  moreover have "utf8_valid [LF]" by code_simp
  ultimately show ?thesis unfolding frame_data_def by (intro utf8_valid_join) auto
qed

lemma delta_content_utf8: "delta_content v = Some t \<Longrightarrow> json_utf8 v \<Longrightarrow> utf8_valid t"
  by (auto simp: delta_content_def bind_eq_Some_conv) (meson json_child_utf8 as_str_utf8)

lemma chat_frame_utf8:
  assumes "utf8_parser parse_json"
  shows "list_all event_utf8 (fst (chat_frame parse_json c m frame))"
proof (cases "parse_json (frame_data frame)")
  case (Inl err)
  then show ?thesis
    using utf8_parser_Inl [OF assms frame_data_utf8 Inl] by (simp add: chat_frame_def Let_def in_range_def)
next
  case (Inr v)
  then show ?thesis
    using utf8_parser_Inr [OF assms frame_data_utf8 Inr] delta_content_utf8 [of v]
    by (auto simp: chat_frame_def Let_def split: option.split)
qed

lemma chat_frames_utf8:
  assumes "utf8_parser parse_json"
  shows "list_all event_utf8 (fst (chat_frames parse_json c m buffer))"
proof (induction "length buffer" arbitrary: buffer rule: less_induct)
  case less
  show ?case
  proof (cases "harness_frame_end buffer")
    case None
    then show ?thesis by (simp add: chat_frames.simps [of _ _ _ buffer])
  next
    case (Some e)
    then have "0 < e \<and> e \<le> length buffer" using harness_frames.end_inside by simp
    then show ?thesis
      using less [of "drop e buffer"] chat_frame_utf8 [OF assms, of c m "take e buffer"]
      by (subst chat_frames.simps) (auto simp: Some Let_def split: prod.split)
  qed
qed

lemma chat_turns_utf8:
  assumes "utf8_parser parse_json" "list_all turn_utf8 turns"
  shows "list_all event_utf8 (chat_turns parse_json c m buffer turns)"
  using assms
proof (induction parse_json c m buffer turns rule: chat_turns.induct)
  case (4 parse_json c m buffer bs turns)
  then show ?case
    using chat_frames_utf8 [of parse_json c m "buffer @ bs"] by (auto simp: Let_def split: prod.split)
qed (auto simp: in_range_def)

lemma stream_chat_utf8:
  assumes "utf8_parser parse_json" "reply_utf8 reply"
  shows "list_all event_utf8 (stream_chat parse_json c m reply)"
  using assms chat_turns_utf8 [of parse_json] by (cases reply) (auto simp: stream_chat_def in_range_def utf8_valid_append)

subsection \<open>The operations\<close>

lemma list_all_update_first: "list_all P xs \<Longrightarrow> (\<And>x. P x \<Longrightarrow> P (f x)) \<Longrightarrow> list_all P (update_first Q f xs)"
  by (induction xs) simp_all

lemma list_all_sub: "list_all P xs \<Longrightarrow> set ys \<subseteq> set xs \<Longrightarrow> list_all P ys"
  by (auto simp: list_all_iff)

lemma utf8_literals:
  "utf8_valid ''New conversation''" "utf8_valid ''Not connected''" "utf8_valid ''Connected''"
  "utf8_valid ''Completed''" "utf8_valid ''Generation cancelled''" "utf8_valid ''Request failed''"
  "utf8_valid (''Cancelling'' @ ellipsis)" "utf8_valid (''Loading models'' @ ellipsis)"
  "utf8_valid (''Generating'' @ ellipsis)" "utf8_valid (''Thinking'' @ ellipsis)"
  "utf8_valid (''Model discovery failed: '' @ s) \<longleftrightarrow> utf8_valid s"
  using utf8_valid_ellipsis by (simp_all add: in_range_def)

lemmas app_utf8_defs = app_utf8_def saved_utf8_def

lemma new_conversation_utf8: "conversation_utf8 (conversation_new i)"
  by (simp add: conversation_new_def conversation_utf8_def utf8_literals)

lemma change_conversation_utf8:
  "app_utf8 app \<Longrightarrow> (\<And>c. conversation_utf8 c \<Longrightarrow> conversation_utf8 (f c)) \<Longrightarrow> app_utf8 (change_conversation i f app)"
  by (simp add: app_utf8_defs change_conversation_def list_all_update_first)

lemma change_selected_utf8:
  "app_utf8 app \<Longrightarrow> (\<And>c. conversation_utf8 c \<Longrightarrow> conversation_utf8 (f c)) \<Longrightarrow> app_utf8 (change_selected f app)"
  by (simp add: change_selected_def change_conversation_utf8 split: option.split)

lemma cancel_utf8: "app_utf8 app \<Longrightarrow> app_utf8 (snd (cancel_stream_for i app))"
  by (simp add: cancel_stream_for_def app_utf8_defs utf8_literals split: option.split del: append.simps)

lemma select_utf8: "app_utf8 app \<Longrightarrow> app_utf8 (select_conversation i app)"
  by (simp add: select_conversation_def app_utf8_defs)

lemma new_utf8: "app_utf8 app \<Longrightarrow> app_utf8 (new_conversation i app)"
  by (simp add: new_conversation_def push_conversation_def select_conversation_def app_utf8_defs new_conversation_utf8)

lemma remove_nth_utf8: "app_utf8 app \<Longrightarrow> app_utf8 (ha_state_update (sv_conversations_update (remove_nth i)) app)"
  by (auto simp: app_utf8_defs remove_nth_def dest: in_set_takeD in_set_dropD elim!: list_all_sub)

lemma draft_utf8: "app_utf8 app \<Longrightarrow> utf8_valid s \<Longrightarrow> app_utf8 (app\<lparr>ha_draft := s\<rparr>)"
  by (simp add: app_utf8_defs)

lemma pending_utf8 [simp]: "app_utf8 (app\<lparr>ha_pending_delete := d\<rparr>) \<longleftrightarrow> app_utf8 app"
  "app_utf8 (app\<lparr>ha_show_settings := b\<rparr>) \<longleftrightarrow> app_utf8 app"
  by (simp_all add: app_utf8_defs)

lemma remove_conversation_utf8: "app_utf8 app \<Longrightarrow> app_utf8 (remove_conversation new_id i app)"
  by (auto simp: remove_conversation_def Let_def split: option.split
      intro!: draft_utf8 new_utf8 select_utf8 remove_nth_utf8 cancel_utf8)

lemma messages_utf8:
  "conversation_utf8 c \<Longrightarrow> list_all (\<lambda>m. utf8_valid (hm_content m)) (f (cv_messages c)) \<Longrightarrow>
   conversation_utf8 (cv_messages_update f c)"
  by (simp add: conversation_utf8_def)

lemma clear_utf8: "app_utf8 app \<Longrightarrow> app_utf8 (clear_selected_conversation app)"
  by (auto simp: clear_selected_conversation_def split: option.split intro!: change_selected_utf8 messages_utf8 cancel_utf8)

lemma remove_message_utf8: "app_utf8 app \<Longrightarrow> app_utf8 (remove_selected_message i app)"
  by (auto simp: remove_selected_message_def Let_def conversation_utf8_def split: option.split
      intro!: change_selected_utf8 cancel_utf8 messages_utf8 elim!: list_all_sub)

lemma refresh_utf8:
  "app_utf8 app \<Longrightarrow> app_utf8 (fst (refresh_models app)) \<and> spawned_utf8 (snd (refresh_models app))"
  by (simp add: refresh_models_def app_utf8_defs settings_utf8_def utf8_literals del: append.simps)

lemma found_utf8: "app_utf8 app \<Longrightarrow> find_conversation i app = Some c \<Longrightarrow> conversation_utf8 c"
  by (auto simp: app_utf8_defs list_all_iff find_conversation_def find_Some_iff)

lemma selected_utf8: "app_utf8 app \<Longrightarrow> selected app = Some c \<Longrightarrow> conversation_utf8 c"
  by (auto simp: selected_def bind_eq_Some_conv intro: found_utf8)

lemma push_question_utf8:
  "conversation_utf8 c \<Longrightarrow> utf8_valid content \<Longrightarrow> conversation_utf8 (push_question user assistant content c)"
  by (simp add: push_question_def Let_def conversation_utf8_def utf8_valid_take)

lemma from_conversation_utf8:
  assumes "settings_utf8 settings" "conversation_utf8 c"
  shows "request_utf8 (from_conversation settings c)"
proof -
  have role: "utf8_valid ''user''" "utf8_valid ''assistant''" "utf8_valid ''system''" by code_simp+
  have "utf8_valid (ap_role a) \<and> utf8_valid (ap_text a)"
    if "m \<in> set (cv_messages c)" "api_message_of m = Some a" for m a
    using that assms(2) role
    by (auto simp: api_message_of_def conversation_utf8_def list_all_iff split: role.splits if_splits)
  then show ?thesis
    using assms role
    by (auto simp: request_utf8_def from_conversation_def settings_utf8_def conversation_utf8_def list_all_iff
        List.map_filter_def)
qed

lemma send_utf8:
  assumes "app_utf8 app"
  shows "app_utf8 (fst (send user assistant app)) \<and>
    (case snd (send user assistant app) of Some task \<Rightarrow> spawned_utf8 task | None \<Rightarrow> True)"
proof (cases "str_trim (ha_draft app) = [] \<or> ha_active app \<noteq> None \<or> selected (app\<lparr>ha_draft := []\<rparr>) = None")
  case True
  then show ?thesis using assms draft_utf8 [OF assms, of "[]"] by (auto simp: send_def Let_def)
next
  case False
  then obtain c where c: "selected (app\<lparr>ha_draft := []\<rparr>) = Some c" by blast
  let ?c = "push_question user assistant (ha_draft app) c"
  have app: "app_utf8 (app\<lparr>ha_draft := []\<rparr>)" using draft_utf8 [OF assms, of "[]"] by simp
  have valid: "conversation_utf8 ?c" "settings_utf8 (sv_settings (ha_state app))"
    using push_question_utf8 [OF selected_utf8 [OF app c]] assms by (simp_all add: app_utf8_defs)
  have "app_utf8 (change_selected (\<lambda>_. ?c) (app\<lparr>ha_draft := []\<rparr>))" using app valid(1) by (rule change_selected_utf8)
  then show ?thesis
    using False c valid from_conversation_utf8 [OF valid(2,1)]
    by (simp add: send_def Let_def app_utf8_def utf8_literals settings_utf8_def del: append.simps)
qed

lemma settings_update_utf8:
  "app_utf8 app \<Longrightarrow> settings_utf8 (f (sv_settings (ha_state app))) \<Longrightarrow>
   app_utf8 (ha_state_update (sv_settings_update f) app)"
  by (simp add: app_utf8_defs)

lemma app_settings_utf8: "app_utf8 app \<Longrightarrow> settings_utf8 (sv_settings (ha_state app))"
  by (simp add: app_utf8_defs)

lemma chosen_model_utf8: "app_utf8 app \<Longrightarrow> model \<in> set (ha_models app) \<Longrightarrow> utf8_valid model"
  by (simp add: app_utf8_def list_all_iff)

lemma perform_utf8:
  assumes "app_utf8 app" "action_utf8 a" "enabled app a"
  shows "app_utf8 (fst (perform a app)) \<and>
    (case snd (perform a app) of Some task \<Rightarrow> spawned_utf8 task | None \<Rightarrow> True)"
proof (cases a)
  case (SendDraft user assistant)
  then show ?thesis using send_utf8 [OF assms(1)] by simp
next
  case RefreshModels
  then show ?thesis using refresh_utf8 [OF assms(1)] by (simp add: case_prod_beta Let_def)
qed (use assms app_settings_utf8 [OF assms(1)] chosen_model_utf8 [OF assms(1)] in
    \<open>auto simp: new_utf8 select_utf8 remove_conversation_utf8 clear_utf8 remove_message_utf8 draft_utf8
      cancel_utf8 settings_utf8_def conversation_utf8_def split: option.split
      intro!: settings_update_utf8 change_selected_utf8\<close>)

lemma finish_utf8: "app_utf8 app \<Longrightarrow> utf8_valid status \<Longrightarrow> app_utf8 (finish_stream_of i status app)"
  by (simp add: finish_stream_of_def app_utf8_defs split: option.split)

lemma process_event_utf8:
  assumes "app_utf8 app" "event_utf8 e"
  shows "app_utf8 (process_event new_id e app)"
proof (cases e)
  case (ModelsEvent r)
  then show ?thesis
    using assms
    by (cases r) (auto simp: app_utf8_defs settings_utf8_def selected_discovered_model_def utf8_literals
        in_range_def split: list.split)
next
  case (DeltaEvent c m piece)
  with assms show ?thesis
    by (auto intro!: change_conversation_utf8 messages_utf8 list_all_update_first
        simp: conversation_utf8_def utf8_valid_append)
next
  case (FailedEvent c err)
  with assms show ?thesis
    by (auto intro!: change_conversation_utf8 messages_utf8 finish_utf8 simp: utf8_literals conversation_utf8_def)
qed (use assms in \<open>auto intro!: finish_utf8 simp: utf8_literals\<close>)

section \<open>Reachable states\<close>

lemma launch_utf8:
  assumes "utf8_parser parse_json" "reply_utf8 reply" "run_utf8 s"
  shows "run_utf8 (launch parse_json reply task s)"
  using assms stream_chat_utf8 [OF assms(1,2)]
  by (auto simp: run_utf8_def launch_tasks split: option.split spawned.split)

lemma boot_utf8: "saved_utf8 stored \<Longrightarrow> run_utf8 (harness_boot (Some stored) i issued)"
  by (simp add: run_utf8_def harness_boot_def harness_new_def refresh_models_def app_utf8_def utf8_literals
      del: append.simps)

lemma default_utf8: "saved_utf8 (saved_state_default i)"
proof -
  have "utf8_valid ''http://127.0.0.1:8000''" "utf8_valid ''qwen2.5-0.5b-instruct-q4-k-m''" by code_simp+
  then show ?thesis
    by (simp add: saved_utf8_def saved_state_default_def settings_default_def settings_utf8_def new_conversation_utf8)
qed

lemma start_utf8: "harness_start s \<Longrightarrow> run_utf8 s"
proof (erule harness_start.cases)
  fix i
  have "harness_boot None i {} = harness_boot (Some (saved_state_default i)) i {}"
    by (simp add: harness_boot_def harness_new_def)
  then show "s = harness_boot None i {} \<Longrightarrow> run_utf8 s" using boot_utf8 [OF default_utf8] by simp
qed

lemma step_utf8:
  assumes "utf8_parser parse_json" "text_step parse_json s t" "run_utf8 s"
  shows "run_utf8 t"
  using assms(2,3)
proof cases
  case (text_acts a reply app task)
  have "app_utf8 app"
    using perform_utf8 [OF _ text_acts(2,4)] text_acts(7) assms(3) by (simp add: run_utf8_def)
  then show ?thesis
    unfolding text_acts(1) using assms(3) by (intro launch_utf8 [OF assms(1) text_acts(3)]) (simp add: run_utf8_def)
next
  case (text_restarts new_id)
  then show ?thesis using assms(3) boot_utf8 by (simp add: run_utf8_def app_utf8_def)
qed (use assms(3) in \<open>auto simp: run_utf8_def intro: process_event_utf8\<close>)

section \<open>What is shown\<close>

definition view_utf8 :: "chat_view \<Rightarrow> bool" where
  "view_utf8 v \<longleftrightarrow>
     utf8_valid (ct_title v) \<and> utf8_valid (ct_budget v) \<and> utf8_valid (ct_model v) \<and>
     list_all utf8_valid (ct_models v) \<and> list_all (\<lambda>b. utf8_valid (bb_text b)) (ct_bubbles v)"

lemma upper_ascii:
  assumes "ascii b"
  shows "ascii (to_ascii_upper b)"
proof -
  have "(of_char b :: nat) - 32 < 128" using assms by (simp add: in_range_def)
  with assms show ?thesis unfolding to_ascii_upper_def by (auto intro: ascii_code)
qed

lemma uppercase_utf8:
  assumes "\<forall>c. utf8_valid (upper c)" and "utf8_char c = Some (length c)"
  shows "utf8_valid (uppercase upper c)"
proof (cases "\<exists>b. c = [b]")
  case True
  then obtain b where b: "c = [b]" by blast
  with assms(2) have "ascii b" by (auto split: if_splits)
  then show ?thesis using upper_ascii [of b] b by (simp add: uppercase_def)
next
  case False
  with assms(1) show ?thesis by (simp add: uppercase_def split: list.split)
qed

lemma navigation_title_utf8:
  assumes "\<forall>c. utf8_valid (upper c)"
  shows "utf8_valid (navigation_title upper title width)"
proof (cases "utf8_chars (str_trim title)")
  case Nil
  then show ?thesis by (simp add: navigation_title_def utf8_literals)
next
  case (Cons c cs)
  then have chars: "\<forall>d \<in> set (c # cs). utf8_char d = Some (length d)"
    using utf8_chars_char [of _ "str_trim title"] by simp
  then have "utf8_valid (concat cs)" by (intro utf8_valid_concat) (auto intro: utf8_valid_one)
  then have "utf8_valid (uppercase upper c @ concat cs)"
    using uppercase_utf8 [OF assms] chars by (intro utf8_valid_appendI) auto
  moreover have "utf8_valid (concat (take n (utf8_chars s)) @ ellipsis)" for n s
    by (intro utf8_valid_appendI utf8_valid_concat utf8_valid_ellipsis)
      (auto dest: in_set_takeD intro: utf8_valid_chars)
  ultimately show ?thesis by (simp add: navigation_title_def Cons Let_def)
qed

lemma view_of_chat_utf8:
  assumes "app_utf8 app" "conversation_utf8 c"
  shows "view_utf8 (view_of_chat app c)"
proof -
  have "utf8_valid (bb_text b)" if "m \<in> set (cv_messages c)" "bubble_of app c m = Some b" for m b
    using that assms(2)
    by (auto simp: bubble_of_def Let_def conversation_utf8_def list_all_iff utf8_literals split: if_splits
        simp del: append.simps)
  moreover have "utf8_valid ''~''" "utf8_valid '' / ''" "utf8_valid '' tokens''" by code_simp+
  ultimately show ?thesis
    using assms
    by (auto simp: view_utf8_def view_of_chat_def Let_def app_utf8_defs conversation_utf8_def settings_utf8_def
        list_all_iff List.map_filter_def utf8_valid_append utf8_valid_show_nat simp del: append.simps)
qed

lemma delete_dialog_utf8:
  assumes "app_utf8 app" "delete_dialog app = Some (question, stops)"
  shows "utf8_valid question"
proof -
  from assms(2) obtain i where q: "question = ''Delete '' @ [CHR 0x22] @
      (case find_conversation i app of Some c \<Rightarrow> cv_title c | None \<Rightarrow> ''this conversation'') @ [CHR 0x22] @ ''?''"
    by (auto simp: delete_dialog_def)
  have "utf8_valid (case find_conversation i app of Some c \<Rightarrow> cv_title c | None \<Rightarrow> ''this conversation'')"
    using found_utf8 [OF assms(1), of i] by (auto simp: conversation_utf8_def in_range_def split: option.split)
  then show ?thesis unfolding q by (simp add: in_range_def utf8_valid_append)
qed

section \<open>The typing theorems\<close>

text \<open>
  C26. No slice of the extraction of tool calls panics, and its results are texts: whatever well-formed
  text the model generates, \<open>parse_tool_calls\<close> cuts it only at boundaries of characters (the version
  with checked slices returns, and returns the same), and the visible text, the ids, names and
  arguments of the calls and the error messages are well-formed.
\<close>

theorem tool_call_slices_safe:
  assumes "utf8_parser parse_json" and "utf8_valid generated" and "utf8_valid request_id"
  shows "sliced_tool_calls parse_json generated tools request_id =
      Some (parse_tool_calls parse_json generated tools request_id) \<and>
    calls_utf8 (parse_tool_calls parse_json generated tools request_id)"
proof -
  have start: "utf8_valid []" "list_all tool_call_utf8 []" by simp_all
  note run = sliced_loop_ok [OF assms(1,3,2) start, of "declared_names tools" "{}"]
  have same: "parse_tool_calls parse_json generated tools request_id =
      map_sum id (\<lambda>(visible, calls). (str_trim visible, calls))
        (parse_loop parse_json (declared_names tools) request_id generated [] [] {})"
    by (auto simp: parse_tool_calls_def split: sum.split)
  show ?thesis
    using run unfolding same sliced_tool_calls_def
    by (auto simp: calls_utf8_def utf8_valid_trim split: sum.splits)
qed

text \<open>
  C25. Every text of the client is UTF-8. However the user acts, whatever bytes the network delivers and
  however it cuts them, in every reachable state the titles, messages, the draft, the model names, the
  status and all events under way are well-formed; so is all that is shown, the labels, the bubbles and the
  question before a conversation is deleted, and every request that may be sent.
\<close>

theorem client_texts_utf8:
  assumes "utf8_parser parse_json" and "\<forall>c. utf8_valid (upper c)"
    and "harness_start s0" and "(text_step parse_json)\<^sup>*\<^sup>* s0 s"
  shows "run_utf8 s \<and>
    list_all (\<lambda>item. utf8_valid (ni_label item)) (sidebar upper narrow (hs_app s)) \<and>
    (case shown_chat (hs_app s) of Some v \<Rightarrow> view_utf8 v | None \<Rightarrow> True) \<and>
    (case delete_dialog (hs_app s) of Some (question, _) \<Rightarrow> utf8_valid question | None \<Rightarrow> True) \<and>
    (case snd (send user assistant (hs_app s)) of Some task \<Rightarrow> spawned_utf8 task | None \<Rightarrow> True)"
proof -
  have run: "run_utf8 s"
    using assms(4) by (induction rule: rtranclp_induct) (auto intro: step_utf8 [OF assms(1)] start_utf8 [OF assms(3)])
  then have app: "app_utf8 (hs_app s)" by (simp add: run_utf8_def)
  have "list_all (\<lambda>item. utf8_valid (ni_label item)) (sidebar upper narrow (hs_app s))"
    using navigation_title_utf8 [OF assms(2)] by (simp add: list_all_iff sidebar_def)
  moreover have "case shown_chat (hs_app s) of Some v \<Rightarrow> view_utf8 v | None \<Rightarrow> True"
    using view_of_chat_utf8 [OF app] selected_utf8 [OF app] by (simp add: shown_chat_def split: option.split)
  moreover have "case delete_dialog (hs_app s) of Some (question, _) \<Rightarrow> utf8_valid question | None \<Rightarrow> True"
    using delete_dialog_utf8 [OF app] by (auto split: option.split)
  ultimately show ?thesis using run send_utf8 [OF app] by simp
qed

section \<open>Samples\<close>

lemma demo_json_utf8: "utf8_parser demo_json"
proof -
  have "utf8_valid ''expected value''" "json_utf8 (JObject [(''name'', JString ''f''), (''arguments'', JObject [])])"
    by code_simp+
  then show ?thesis by (simp add: utf8_parser_def demo_json_def)
qed

text \<open>An accented letter before and behind the markup.\<close>

definition demo_accented :: string where
  "demo_accented = [CHR 0xC3, CHR 0xA9] @ ''<tool_call>{f}</tool_call>'' @ [CHR 0xC3, CHR 0xA9]"

theorem tool_call_slices_safe_witness:
  "sliced_tool_calls demo_json demo_accented [demo_tool ''f''] ''r'' =
     Some (Inr ([CHR 0xC3, CHR 0xA9, CHR 0xC3, CHR 0xA9], [demo_call ''r-0'' ''f'']))"
proof -
  have valid: "utf8_valid demo_accented" "utf8_valid ''r''" by code_simp+
  have "parse_tool_calls demo_json demo_accented [demo_tool ''f''] ''r'' =
      Inr ([CHR 0xC3, CHR 0xA9, CHR 0xC3, CHR 0xA9], [demo_call ''r-0'' ''f''])"
    by code_simp
  then show ?thesis using tool_call_slices_safe [OF demo_json_utf8 valid, of "[demo_tool ''f'']"] by simp
qed

lemma demo_chat_json_utf8: "utf8_parser demo_chat_json"
proof -
  have "utf8_valid ''choices''" "utf8_valid ''delta''" "utf8_valid ''content''" by code_simp+
  then show ?thesis by (simp add: utf8_parser_def demo_chat_json_def)
qed

theorem client_texts_utf8_witness:
  "app_utf8 (hs_app (demo_boot\<lparr>hs_app := (hs_app demo_boot)\<lparr>ha_draft := [CHR 0xC3, CHR 0xA9]\<rparr>\<rparr>))"
proof -
  have typed: "action_utf8 (EditDraft [CHR 0xC3, CHR 0xA9])" "reply_utf8 demo_reply" by code_simp+
  let ?s = "demo_boot\<lparr>hs_app := (hs_app demo_boot)\<lparr>ha_draft := [CHR 0xC3, CHR 0xA9]\<rparr>\<rparr>"
  have "text_step demo_chat_json demo_boot ?s"
    using text_acts [OF typed, of demo_boot _ None demo_chat_json] by (simp add: launch_def demo_run_defs)
  then have "(text_step demo_chat_json)\<^sup>*\<^sup>* demo_boot ?s" by (rule r_into_rtranclp)
  from client_texts_utf8 [OF demo_chat_json_utf8 _ demo_client_start this, of "\<lambda>_. []"]
  show ?thesis by (simp add: run_utf8_def)
qed

end
