(* ===== verification/Harness_Frame.thy ===== *)
theory Harness_Frame
  imports Harness_View
begin

text \<open>
  One frame of the desktop client: \<open>update\<close> of \<open>crates/harness/src/main.rs\<close> from its first line to
  its last. It empties the event queue, draws the sidebar, the conversation, the dialog and the settings, and
  carries out what the widgets report, in the order of the code. What the widgets report is the
  argument; a frame turns out to be a sequence of the actions of \<open>Harness\<close>, each enabled when its turn comes.
\<close>

section \<open>What the widgets report\<close>

text \<open>A row of the sidebar and a bubble are told by their ids; an edited field has its new value, a
  button whose handler draws UUIDs comes with them.\<close>

record frame_input =
  fi_settings :: bool
  fi_new_chat :: "uuid option"
  fi_select :: "uuid \<Rightarrow> bool"
  fi_delete :: "uuid \<Rightarrow> bool"
  fi_model :: "string option"
  fi_draft :: "string option"
  fi_enter :: bool
  fi_send :: bool
  fi_question :: uuid
  fi_answer :: uuid
  fi_stop :: bool
  fi_clear :: bool
  fi_remove :: "uuid \<Rightarrow> bool"
  fi_cancel :: bool
  fi_confirm :: bool
  fi_replacement :: uuid
  fi_dismiss :: bool
  fi_endpoint :: "string option"
  fi_refresh :: bool
  fi_budget :: "usize option"
  fi_max_tokens :: "usize option"
  fi_system_enabled :: "bool option"
  fi_system_harness :: "string option"
  fi_close :: bool

text \<open>A variable assigned in a loop over the rows keeps the last one clicked.\<close>

definition last_clicked :: "(uuid \<Rightarrow> bool) \<Rightarrow> uuid list \<Rightarrow> uuid option" where
  "last_clicked clicked ids = (case filter clicked ids of [] \<Rightarrow> None | i # is \<Rightarrow> Some (last (i # is)))"

text \<open>\<open>DragValue::range\<close>.\<close>

definition clamp_usize :: "usize \<Rightarrow> usize \<Rightarrow> usize \<Rightarrow> usize" where
  "clamp_usize low high n = max low (min high n)"

definition optionally :: "('b \<Rightarrow> 'a \<Rightarrow> 'a) \<Rightarrow> 'b option \<Rightarrow> 'a \<Rightarrow> 'a" where
  "optionally f x a = (case x of Some y \<Rightarrow> f y a | None \<Rightarrow> a)"

section \<open>The frame\<close>

definition sidebar_turn :: "frame_input \<Rightarrow> harness_app \<Rightarrow> harness_app" where
  "sidebar_turn i app =
     (let app = (if fi_settings i then app\<lparr>ha_show_settings := True\<rparr> else app);
          app = optionally new_conversation (fi_new_chat i) app;
          rows = map cv_id (conversations app);
          app = optionally select_conversation (last_clicked (fi_select i) rows) app
      in optionally (\<lambda>row app. app\<lparr>ha_pending_delete := Some row\<rparr>) (last_clicked (fi_delete i) rows) app)"

definition choose_model :: "string \<Rightarrow> harness_app \<Rightarrow> harness_app" where
  "choose_model model app =
     (if model \<in> set (ha_models app)
      then ha_state_update (sv_settings_update (se_model_update (\<lambda>_. model))) app else app)"

text \<open>The composer: the draft, whether it is to be sent, and the stop button.\<close>

definition may_send_draft :: "harness_app \<Rightarrow> bool" where
  "may_send_draft app \<longleftrightarrow> ha_active app = None \<and> str_trim (ha_draft app) \<noteq> []"

definition composer_turn :: "frame_input \<Rightarrow> harness_app \<Rightarrow> harness_app \<times> bool" where
  "composer_turn i app =
     (let app = optionally choose_model (fi_model i) app;
          app = optionally (\<lambda>s. ha_draft_update (\<lambda>_. s)) (fi_draft i) app;
          sends = (fi_enter i \<or> fi_send i \<and> may_send_draft app)
      in (case ha_active app of
            Some stream \<Rightarrow> if fi_stop i then snd (cancel_stream_for (ac_conversation stream) app) else app
          | None \<Rightarrow> app,
          sends))"

text \<open>The messages with a bubble; one of them may be deleted from its context menu.\<close>

definition bubble_ids :: "harness_app \<Rightarrow> uuid list" where
  "bubble_ids app =
     (case selected app of
        Some c \<Rightarrow> map bb_message (List.map_filter (bubble_of app c) (cv_messages c))
      | None \<Rightarrow> [])"

definition central_turn :: "frame_input \<Rightarrow> harness_app \<Rightarrow> harness_app \<times> spawned list" where
  "central_turn i app =
     (if selected app = None then (app, [])
      else (let (app, sends) = composer_turn i app;
                app = optionally remove_selected_message (last_clicked (fi_remove i) (bubble_ids app)) app;
                app = (if fi_clear i then clear_selected_conversation app else app)
            in if sends \<and> may_send_draft app
               then (let (app, task) = send (fi_question i) (fi_answer i) app
                     in (app, case task of Some t \<Rightarrow> [t] | None \<Rightarrow> []))
               else (app, [])))"

definition dialog_turn :: "frame_input \<Rightarrow> harness_app \<Rightarrow> harness_app" where
  "dialog_turn i app =
     (case ha_pending_delete app of
        None \<Rightarrow> app
      | Some doomed \<Rightarrow>
          (let app = (if fi_cancel i then app\<lparr>ha_pending_delete := None\<rparr> else app);
               app = (if fi_confirm i
                      then (remove_conversation (fi_replacement i) doomed app)\<lparr>ha_pending_delete := None\<rparr> else app)
           in if fi_dismiss i then app\<lparr>ha_pending_delete := None\<rparr> else app))"

text \<open>The fields of the system harness exist while a conversation is selected, the text while it is enabled.\<close>

definition system_turn :: "frame_input \<Rightarrow> harness_app \<Rightarrow> harness_app" where
  "system_turn i app =
     change_selected (\<lambda>c.
       (let c = optionally (\<lambda>b. cv_system_enabled_update (\<lambda>_. b)) (fi_system_enabled i) c
        in if cv_system_enabled c
           then optionally (\<lambda>s. cv_system_harness_update (\<lambda>_. s)) (fi_system_harness i) c else c)) app"

definition settings_turn :: "frame_input \<Rightarrow> harness_app \<Rightarrow> harness_app \<times> spawned list" where
  "settings_turn i app =
     (if \<not> ha_show_settings app then (app, [])
      else (let edit = (\<lambda>f. ha_state_update (sv_settings_update f));
                app = optionally (\<lambda>s. edit (se_endpoint_update (\<lambda>_. s))) (fi_endpoint i) app;
                app = optionally (\<lambda>n. edit (se_context_budget_update (\<lambda>_. clamp_usize 128 131072 n))) (fi_budget i) app;
                app = optionally (\<lambda>n. edit (se_max_tokens_update (\<lambda>_. clamp_usize 1 8192 n))) (fi_max_tokens i) app;
                app = system_turn i app;
                app = app\<lparr>ha_show_settings := \<not> fi_close i\<rparr>
            in if fi_refresh i then (let (app, task) = refresh_models app in (app, [task])) else (app, [])))"

definition update_frame ::
  "frame_input \<Rightarrow> (uuid \<times> event) list \<Rightarrow> harness_app \<Rightarrow> harness_app \<times> spawned list" where
  "update_frame i events app =
     (let app = process_events events app;
          app = sidebar_turn i app;
          (app, sent) = central_turn i app;
          app = dialog_turn i app;
          (app, fetched) = settings_turn i app
      in (app, sent @ fetched))"

section \<open>Sequences of actions\<close>

fun run_actions :: "ui_action list \<Rightarrow> harness_app \<Rightarrow> (harness_app \<times> spawned list) option" where
  "run_actions [] app = Some (app, [])"
| "run_actions (a # as) app =
     (if enabled app a
      then map_option (\<lambda>(app', tasks). (app', (case snd (perform a app) of Some t \<Rightarrow> [t] | None \<Rightarrow> []) @ tasks))
             (run_actions as (fst (perform a app)))
      else None)"

lemma run_actions_append:
  "run_actions as app = Some (app1, ts) \<Longrightarrow> run_actions bs app1 = Some (app2, us) \<Longrightarrow>
   run_actions (as @ bs) app = Some (app2, ts @ us)"
  by (induction as arbitrary: app app1 ts) (auto split: if_splits)

text \<open>The actions of a frame.\<close>

definition optional_action :: "('a \<Rightarrow> ui_action) \<Rightarrow> 'a option \<Rightarrow> ui_action list" where
  "optional_action f x = (case x of Some y \<Rightarrow> [f y] | None \<Rightarrow> [])"

definition action_if :: "ui_action \<Rightarrow> bool \<Rightarrow> ui_action list" where
  "action_if a b = (if b then [a] else [])"

definition frame_ids :: "frame_input \<Rightarrow> uuid list" where
  "frame_ids i =
     (case fi_new_chat i of Some n \<Rightarrow> [n] | None \<Rightarrow> []) @ [fi_question i, fi_answer i, fi_replacement i]"

definition sidebar_actions :: "frame_input \<Rightarrow> harness_app \<Rightarrow> ui_action list" where
  "sidebar_actions i app =
     (let rows = map cv_id (conversations (optionally new_conversation (fi_new_chat i) app))
      in action_if OpenSettings (fi_settings i) @ optional_action NewChat (fi_new_chat i) @
         optional_action SelectChat (last_clicked (fi_select i) rows) @
         optional_action AskDelete (last_clicked (fi_delete i) rows))"

definition central_actions :: "frame_input \<Rightarrow> harness_app \<Rightarrow> ui_action list" where
  "central_actions i app =
     (if selected app = None then []
      else (let (app1, sends) = composer_turn i app;
                removed = last_clicked (fi_remove i) (bubble_ids app1);
                app2 = optionally remove_selected_message removed app1;
                app3 = (if fi_clear i then clear_selected_conversation app2 else app2)
            in optional_action ChooseModel
                 (case fi_model i of Some m \<Rightarrow> if m \<in> set (ha_models app) then Some m else None | None \<Rightarrow> None) @
               optional_action EditDraft (fi_draft i) @
               action_if StopGeneration (fi_stop i \<and> ha_active app \<noteq> None) @
               optional_action DeleteMessage removed @ action_if ClearChat (fi_clear i) @
               action_if (SendDraft (fi_question i) (fi_answer i)) (sends \<and> may_send_draft app3)))"

definition dialog_actions :: "frame_input \<Rightarrow> harness_app \<Rightarrow> ui_action list" where
  "dialog_actions i app =
     (if ha_pending_delete app = None then []
      else if fi_confirm i then [ConfirmDelete (fi_replacement i)]
      else action_if CancelDelete (fi_cancel i \<or> fi_dismiss i))"

definition system_actions :: "frame_input \<Rightarrow> harness_app \<Rightarrow> ui_action list" where
  "system_actions i app =
     (case selected app of
        None \<Rightarrow> []
      | Some c \<Rightarrow>
          optional_action EditSystemEnabled (fi_system_enabled i) @
          (if (case fi_system_enabled i of Some b \<Rightarrow> b | None \<Rightarrow> cv_system_enabled c)
           then optional_action EditSystemHarness (fi_system_harness i) else []))"

definition settings_actions :: "frame_input \<Rightarrow> harness_app \<Rightarrow> ui_action list" where
  "settings_actions i app =
     (if \<not> ha_show_settings app then []
      else optional_action EditEndpoint (fi_endpoint i) @
           optional_action EditBudget (map_option (clamp_usize 128 131072) (fi_budget i)) @
           optional_action EditMaxTokens (map_option (clamp_usize 1 8192) (fi_max_tokens i)) @
           system_actions i app @
           action_if RefreshModels (fi_refresh i) @ action_if CloseSettings (fi_close i))"

definition frame_actions :: "frame_input \<Rightarrow> harness_app \<Rightarrow> ui_action list" where
  "frame_actions i app =
     (let app1 = sidebar_turn i app;
          app2 = fst (central_turn i app1);
          app3 = dialog_turn i app2
      in sidebar_actions i app @ central_actions i app1 @ dialog_actions i app2 @ settings_actions i app3)"

lemma run_optional:
  assumes "\<And>y. x = Some y \<Longrightarrow> enabled app (f y)"
    and "\<And>y. x = Some y \<Longrightarrow> perform (f y) app = (g y app, None)"
  shows "run_actions (optional_action f x) app = Some (optionally g x app, [])"
  using assms by (cases x) (simp_all add: optional_action_def optionally_def)

lemma run_if:
  assumes "b \<Longrightarrow> enabled app a" and "b \<Longrightarrow> perform a app = (app', None)"
  shows "run_actions (action_if a b) app = Some (if b then app' else app, [])"
  using assms by (simp add: action_if_def)

lemma run_seq:
  "run_actions as app = Some (app1, []) \<Longrightarrow> run_actions bs app1 = Some r \<Longrightarrow> run_actions (as @ bs) app = Some r"
  using run_actions_append [of as app app1 "[]" bs] by (cases r) simp

lemma last_clicked_row: "last_clicked clicked ids = Some x \<Longrightarrow> x \<in> set ids \<and> clicked x"
  using last_in_set [of "filter clicked ids"] by (auto simp: last_clicked_def simp del: last_in_set split: list.splits)

section \<open>A frame is a sequence of enabled actions\<close>

lemma optionally_simps [simp]: "optionally f None a = a" "optionally f (Some x) a = f x a"
  by (simp_all add: optionally_def)

lemma shown_settings_rows:
  "conversations (optionally new_conversation x (if b then app\<lparr>ha_show_settings := True\<rparr> else app)) =
   conversations (optionally new_conversation x app)"
  by (cases x) simp_all

lemma sidebar_run: "run_actions (sidebar_actions i app) app = Some (sidebar_turn i app, [])"
proof -
  let ?a1 = "if fi_settings i then app\<lparr>ha_show_settings := True\<rparr> else app"
  let ?a2 = "optionally new_conversation (fi_new_chat i) ?a1"
  let ?rows = "map cv_id (conversations ?a2)"
  let ?a3 = "optionally select_conversation (last_clicked (fi_select i) ?rows) ?a2"
  have rows: "conversations ?a3 = conversations ?a2" by (simp add: optionally_def split: option.split)
  have "run_actions (action_if OpenSettings (fi_settings i)) app = Some (?a1, [])" by (rule run_if) simp_all
  moreover have "run_actions (optional_action NewChat (fi_new_chat i)) ?a1 = Some (?a2, [])" by (rule run_optional) simp_all
  moreover have "run_actions (optional_action SelectChat (last_clicked (fi_select i) ?rows)) ?a2 = Some (?a3, [])"
    by (rule run_optional) (auto dest: last_clicked_row)
  moreover have "run_actions (optional_action AskDelete (last_clicked (fi_delete i) ?rows)) ?a3 =
      Some (optionally (\<lambda>row app. app\<lparr>ha_pending_delete := Some row\<rparr>) (last_clicked (fi_delete i) ?rows) ?a3, [])"
    by (rule run_optional) (use rows in \<open>auto dest: last_clicked_row\<close>)
  ultimately show ?thesis
    unfolding sidebar_actions_def sidebar_turn_def Let_def shown_settings_rows
    by - (intro run_seq, assumption+)
qed

text \<open>Whether a conversation is selected depends on the ids of the conversations only.\<close>

lemma selected_None_iff:
  "selected app = None \<longleftrightarrow>
     (case sv_selected (ha_state app) of None \<Rightarrow> True | Some s \<Rightarrow> s \<notin> set (map cv_id (conversations app)))"
  by (auto simp: selected_def find_conversation_def find_None_iff split: option.split)

lemma selected_None_cong:
  "sv_selected (ha_state app') = sv_selected (ha_state app) \<Longrightarrow>
   map cv_id (conversations app') = map cv_id (conversations app) \<Longrightarrow> selected app' = None \<longleftrightarrow> selected app = None"
  by (simp add: selected_None_iff del: set_map split: option.split)

lemma change_selected_ids:
  assumes "\<And>c. cv_id (f c) = cv_id c"
  shows "sv_selected (ha_state (change_selected f app)) = sv_selected (ha_state app)"
    "map cv_id (conversations (change_selected f app)) = map cv_id (conversations app)"
  using assms by (simp_all add: change_selected_def map_update_first split: option.split)

lemma remove_message_selected: "selected (remove_selected_message m app) = None \<longleftrightarrow> selected app = None"
  by (rule selected_None_cong)
    (simp_all add: remove_selected_message_def Let_def change_selected_ids split: option.split)

lemma clear_selected: "selected (clear_selected_conversation app) = None \<longleftrightarrow> selected app = None"
  by (rule selected_None_cong) (simp_all add: clear_selected_conversation_def change_selected_ids split: option.split)

lemma selected_frame [simp]:
  "selected (app\<lparr>ha_draft := d\<rparr>) = selected app"
  "selected (ha_draft_update f app) = selected app"
  "selected (ha_state_update (sv_settings_update g) app) = selected app"
  "selected (snd (cancel_stream_for s app)) = selected app"
  by (simp_all add: selected_def find_conversation_def)

lemma bubble_ids_messages:
  "m \<in> set (bubble_ids app) \<Longrightarrow> \<exists>c. selected app = Some c \<and> m \<in> hm_id ` set (cv_messages c)"
  by (cases "selected app") (auto simp: bubble_ids_def bubble_of_def Let_def List.map_filter_def split: if_splits)

lemma central_run: "run_actions (central_actions i app) app = Some (central_turn i app)"
proof (cases "selected app = None")
  case True
  then show ?thesis by (simp add: central_actions_def central_turn_def)
next
  case False
  let ?model = "case fi_model i of Some m \<Rightarrow> if m \<in> set (ha_models app) then Some m else None | None \<Rightarrow> None"
  let ?a1 = "optionally choose_model (fi_model i) app"
  let ?a2 = "optionally (\<lambda>s. ha_draft_update (\<lambda>_. s)) (fi_draft i) ?a1"
  let ?a3 = "fst (composer_turn i app)" and ?sends = "snd (composer_turn i app)"
  let ?removed = "last_clicked (fi_remove i) (bubble_ids ?a3)"
  let ?a4 = "optionally remove_selected_message ?removed ?a3"
  let ?a5 = "if fi_clear i then clear_selected_conversation ?a4 else ?a4"
  have a1: "selected ?a1 = selected app" "ha_active ?a1 = ha_active app"
    by (cases "fi_model i"; simp add: choose_model_def)+
  then have a2: "selected ?a2 = selected app" "ha_active ?a2 = ha_active app" by (cases "fi_draft i"; simp)+
  have a3: "?a3 = (if fi_stop i \<and> ha_active app \<noteq> None
      then snd (cancel_stream_for (ac_conversation (the (ha_active app))) ?a2) else ?a2)"
    using a2(2) by (auto simp: composer_turn_def Let_def split: option.split)
  then have sel3: "selected ?a3 = selected app" using a2(1) by simp
  have sel4: "selected ?a4 \<noteq> None" using False sel3 by (cases ?removed) (simp_all add: remove_message_selected)
  then have sel5: "selected ?a5 \<noteq> None" by (simp add: clear_selected del: not_None_eq)
  have "run_actions (optional_action ChooseModel ?model) app =
      Some (optionally (\<lambda>m. ha_state_update (sv_settings_update (se_model_update (\<lambda>_. m)))) ?model app, [])"
    using False by (intro run_optional) (auto split: option.splits if_splits)
  moreover have "optionally (\<lambda>m. ha_state_update (sv_settings_update (se_model_update (\<lambda>_. m)))) ?model app = ?a1"
    by (cases "fi_model i") (simp_all add: choose_model_def)
  ultimately have "run_actions (optional_action ChooseModel ?model) app = Some (?a1, [])" by simp
  moreover have "run_actions (optional_action EditDraft (fi_draft i)) ?a1 = Some (?a2, [])"
    using False a1 by (intro run_optional) simp_all
  moreover have "run_actions (action_if StopGeneration (fi_stop i \<and> ha_active app \<noteq> None)) ?a2 = Some (?a3, [])"
    unfolding a3 using False a2 by (intro run_if) (auto split: option.split)
  moreover have "run_actions (optional_action DeleteMessage ?removed) ?a3 = Some (?a4, [])"
    by (intro run_optional) (auto dest!: last_clicked_row bubble_ids_messages)
  moreover have "run_actions (action_if ClearChat (fi_clear i)) ?a4 = Some (?a5, [])"
    using sel4 by (intro run_if) simp_all
  moreover have "run_actions (action_if (SendDraft (fi_question i) (fi_answer i)) (?sends \<and> may_send_draft ?a5)) ?a5 =
      Some (central_turn i app)"
    using False sel5 by (auto simp: central_turn_def Let_def action_if_def may_send_draft_def case_prod_beta)
  ultimately show ?thesis
    using False unfolding central_actions_def Let_def case_prod_beta if_False by - (simp only: if_False, intro run_seq, assumption+)
qed

lemma dialog_run:
  assumes "\<not> (fi_cancel i \<and> fi_confirm i)"
  shows "run_actions (dialog_actions i app) app = Some (dialog_turn i app, [])"
  using assms by (auto simp: dialog_actions_def dialog_turn_def action_if_def Let_def)

lemma clamp_usize_range: "low \<le> high \<Longrightarrow> low \<le> clamp_usize low high n \<and> clamp_usize low high n \<le> high"
  by (simp add: clamp_usize_def)

lemma shown_settings_frame [simp]:
  "ha_show_settings (ha_state_update f app) = ha_show_settings app"
  "ha_show_settings (change_selected g app) = ha_show_settings app"
  "ha_show_settings (fst (refresh_models app)) = ha_show_settings app"
  by (simp_all add: change_selected_def change_conversation_def refresh_models_def split: option.split)

lemma selected_change_selected:
  "(\<And>c. cv_id (f c) = cv_id c) \<Longrightarrow> selected (change_selected f app) = map_option f (selected app)"
  by (cases "sv_selected (ha_state app)")
    (simp_all add: change_selected_def selected_def find_conversation_def change_conversation_def find_update_first)

lemma change_selected_twice:
  assumes "\<And>c. cv_id (f c) = cv_id c"
  shows "change_selected g (change_selected f app) = change_selected (g \<circ> f) app"
proof -
  have "update_first P g (update_first P f cs) = update_first P (g \<circ> f) cs"
    if "\<And>c. P (f c) = P c" for P and cs :: "conversation list"
    using that by (induction cs) simp_all
  then show ?thesis
    using assms by (simp add: change_selected_def change_conversation_def split: option.split)
qed

lemma change_selected_cong:
  assumes "\<And>c. selected app = Some c \<Longrightarrow> f c = g c"
  shows "change_selected f app = change_selected g app"
proof -
  have "find P cs = Some c \<Longrightarrow> f c = g c \<Longrightarrow> update_first P f cs = update_first P g cs"
    "find P cs = None \<Longrightarrow> update_first P f cs = update_first P g cs"
    for P c and cs :: "conversation list"
    by (induction cs) (auto split: if_splits)
  then show ?thesis
    using assms by (cases "sv_selected (ha_state app)"; cases "find_conversation (the (sv_selected (ha_state app))) app")
      (simp_all add: change_selected_def change_conversation_def selected_def find_conversation_def)
qed

lemma change_selected_same:
  assumes "\<And>c. selected app = Some c \<Longrightarrow> f c = c"
  shows "change_selected f app = app"
proof -
  have "update_first P (\<lambda>c. c) cs = cs" for P and cs :: "conversation list" by (induction cs) simp_all
  then have "change_selected (\<lambda>c. c) app = app"
    by (simp add: change_selected_def change_conversation_def split: option.split)
  with change_selected_cong [of app f "\<lambda>c. c"] assms show ?thesis by simp
qed

lemma system_run:
  assumes "ha_show_settings app"
  shows "run_actions (system_actions i app) app = Some (system_turn i app, [])"
proof (cases "selected app")
  case None
  then have "system_turn i app = app" unfolding system_turn_def by (intro change_selected_same) simp
  with None show ?thesis by (simp add: system_actions_def)
next
  case (Some c)
  let ?enable = "\<lambda>b. cv_system_enabled_update (\<lambda>_. b)" and ?harness = "\<lambda>s. cv_system_harness_update (\<lambda>_. s)"
  let ?app = "optionally (\<lambda>b. change_selected (?enable b)) (fi_system_enabled i) app"
  let ?c = "optionally ?enable (fi_system_enabled i) c"
  have first: "run_actions (optional_action EditSystemEnabled (fi_system_enabled i)) app = Some (?app, [])"
    using assms Some by (intro run_optional) simp_all
  have sel: "selected ?app = Some ?c" and shown: "ha_show_settings ?app"
    using Some assms by (cases "fi_system_enabled i"; simp add: selected_change_selected)+
  have enabled: "(case fi_system_enabled i of Some b \<Rightarrow> b | None \<Rightarrow> cv_system_enabled c) = cv_system_enabled ?c"
    by (cases "fi_system_enabled i") simp_all
  let ?last = "if cv_system_enabled ?c then optionally (\<lambda>s. change_selected (?harness s)) (fi_system_harness i) ?app else ?app"
  have second: "run_actions (if cv_system_enabled ?c then optional_action EditSystemHarness (fi_system_harness i) else []) ?app =
      Some (?last, [])"
    using sel shown by (auto intro!: run_optional)
  have "?last = system_turn i app"
    unfolding system_turn_def
    by (cases "fi_system_enabled i"; cases "fi_system_harness i")
      (auto simp: Let_def change_selected_twice Some intro!: change_selected_cong change_selected_same [symmetric])
  with run_seq [OF first second] show ?thesis unfolding system_actions_def Some option.case enabled by simp
qed

lemma settings_run: "run_actions (settings_actions i app) app = Some (settings_turn i app)"
proof (cases "ha_show_settings app")
  case True
  let ?edit = "\<lambda>f. ha_state_update (sv_settings_update f)"
  let ?budget = "map_option (clamp_usize 128 131072) (fi_budget i)"
  let ?tokens = "map_option (clamp_usize 1 8192) (fi_max_tokens i)"
  let ?a1 = "optionally (\<lambda>s. ?edit (se_endpoint_update (\<lambda>_. s))) (fi_endpoint i) app"
  let ?a2 = "optionally (\<lambda>n. ?edit (se_context_budget_update (\<lambda>_. n))) ?budget ?a1"
  let ?a3 = "optionally (\<lambda>n. ?edit (se_max_tokens_update (\<lambda>_. n))) ?tokens ?a2"
  let ?a4 = "system_turn i ?a3"
  let ?a5 = "if fi_refresh i then fst (refresh_models ?a4) else ?a4"
  let ?ts = "if fi_refresh i then [snd (refresh_models ?a4)] else []"
  have shown: "ha_show_settings ?a1" "ha_show_settings ?a2" "ha_show_settings ?a3" "ha_show_settings ?a4" "ha_show_settings ?a5"
    using True by (auto simp: optionally_def system_turn_def split: option.split)
  have sel: "selected ?a3 = selected app" by (auto simp: optionally_def split: option.split)
  have "run_actions (optional_action EditEndpoint (fi_endpoint i)) app = Some (?a1, [])"
    using True by (intro run_optional) simp_all
  moreover have "run_actions (optional_action EditBudget ?budget) ?a1 = Some (?a2, [])"
    using shown(1) clamp_usize_range [of 128 131072] by (intro run_optional) auto
  moreover have "run_actions (optional_action EditMaxTokens ?tokens) ?a2 = Some (?a3, [])"
    using shown(2) clamp_usize_range [of 1 8192] by (intro run_optional) auto
  moreover have "run_actions (system_actions i app) ?a3 = Some (?a4, [])"
    using system_run [OF shown(3), of i] sel by (simp add: system_actions_def)
  moreover have "run_actions (action_if RefreshModels (fi_refresh i) @ action_if CloseSettings (fi_close i)) ?a4 =
      Some (settings_turn i app)"
  proof (rule trans [OF run_actions_append])
    show "run_actions (action_if RefreshModels (fi_refresh i)) ?a4 = Some (?a5, ?ts)"
      using shown(4) by (simp add: action_if_def case_prod_beta Let_def)
    show "run_actions (action_if CloseSettings (fi_close i)) ?a5 =
        Some (if fi_close i then ?a5\<lparr>ha_show_settings := False\<rparr> else ?a5, [])"
      using shown(5) by (intro run_if) simp_all
    have same: "optionally f (map_option g x) a = optionally (\<lambda>n. f (g n)) x a" for f g x a
      by (cases x) simp_all
    show "Some (if fi_close i then ?a5\<lparr>ha_show_settings := False\<rparr> else ?a5, ?ts @ []) = Some (settings_turn i app)"
      using True shown(4) by (simp add: settings_turn_def Let_def same refresh_models_def)
  qed
  ultimately show ?thesis
    using True unfolding settings_actions_def by - (simp only: not_True_eq_False if_False, (rule run_seq, assumption)+)
qed (simp add: settings_actions_def settings_turn_def)

lemma frame_run:
  assumes "\<not> (fi_cancel i \<and> fi_confirm i)"
  shows "run_actions (frame_actions i (process_events events app)) (process_events events app) =
    Some (update_frame i events app)"
proof -
  let ?app = "process_events events app"
  let ?app1 = "sidebar_turn i ?app"
  obtain app2 sent where central: "central_turn i ?app1 = (app2, sent)" by fastforce
  obtain app4 fetched where settings: "settings_turn i (dialog_turn i app2) = (app4, fetched)" by fastforce
  have "run_actions (dialog_actions i app2 @ settings_actions i (dialog_turn i app2)) app2 = Some (app4, fetched)"
    using run_seq [OF dialog_run [OF assms] settings_run] settings by simp
  then have "run_actions (central_actions i ?app1 @ dialog_actions i app2 @ settings_actions i (dialog_turn i app2)) ?app1 =
      Some (app4, sent @ fetched)"
    by (intro run_actions_append [of _ _ app2]) (simp_all add: central_run central)
  from run_seq [OF sidebar_run this] show ?thesis
    by (simp add: frame_actions_def update_frame_def Let_def central settings)
qed

section \<open>Frames of the running client\<close>

primrec drawn_by :: "ui_action list \<Rightarrow> uuid list" where
  "drawn_by [] = []"
| "drawn_by (a # as) = drawn a @ drawn_by as"

lemma drawn_by_append [simp]: "drawn_by (as @ bs) = drawn_by as @ drawn_by bs"
  by (induction as) simp_all

lemma drawn_simps:
  "(\<And>y. drawn (f y) = []) \<Longrightarrow> drawn_by (optional_action f x) = []"
  "drawn_by (action_if a b) = (if b then drawn a else [])"
  by (simp_all add: optional_action_def action_if_def split: option.split)

lemma sidebar_drawn: "drawn_by (sidebar_actions i app) = (case fi_new_chat i of Some n \<Rightarrow> [n] | None \<Rightarrow> [])"
  by (simp add: sidebar_actions_def Let_def drawn_simps)
    (simp add: optional_action_def split: option.split)

lemma central_drawn: "drawn_by (central_actions i app) \<in> {[], [fi_question i, fi_answer i]}"
  by (simp add: central_actions_def Let_def drawn_simps case_prod_beta)

lemma dialog_drawn: "drawn_by (dialog_actions i app) \<in> {[], [fi_replacement i]}"
  by (simp add: dialog_actions_def drawn_simps)

lemma settings_drawn: "drawn_by (settings_actions i app) = []"
  by (auto simp: settings_actions_def system_actions_def drawn_simps split: option.split)

lemma frame_drawn:
  assumes "distinct (frame_ids i)"
  shows "distinct (drawn_by (frame_actions i app)) \<and> set (drawn_by (frame_actions i app)) \<subseteq> set (frame_ids i)"
proof -
  let ?app1 = "sidebar_turn i app"
  note central_drawn [of i ?app1] dialog_drawn [of i "fst (central_turn i ?app1)"]
  then show ?thesis
    using assms
    by (auto simp: frame_actions_def Let_def sidebar_drawn settings_drawn frame_ids_def split: option.splits)
qed

lemma actions_steps:
  assumes "run_actions as (hs_app s) = Some (app', tasks)"
    and "distinct (drawn_by as)" "set (drawn_by as) \<inter> hs_issued s = {}"
  shows "\<exists>s'. (harness_step parse_json)\<^sup>*\<^sup>* s s' \<and> hs_app s' = app' \<and> hs_queue s' = hs_queue s"
  using assms
proof (induction as arbitrary: s tasks)
  case (Cons a as)
  obtain app1 task where perform: "perform a (hs_app s) = (app1, task)" by fastforce
  with Cons.prems(1) obtain tasks' where enabled: "enabled (hs_app s) a" and rest: "run_actions as app1 = Some (app', tasks')"
    by (auto split: if_splits)
  let ?s = "launch parse_json ReplyCancelled task (s\<lparr>hs_app := app1, hs_issued := hs_issued s \<union> set (drawn a)\<rparr>)"
  have step: "harness_step parse_json s ?s"
    using enabled perform Cons.prems(2,3) by (intro acts) auto
  from Cons.IH [of ?s] rest Cons.prems(2,3) obtain s' where
    "(harness_step parse_json)\<^sup>*\<^sup>* ?s s'" "hs_app s' = app'" "hs_queue s' = hs_queue s"
    by auto
  then show ?case using converse_rtranclp_into_rtranclp [of "harness_step parse_json", OF step] by blast
qed auto

lemma events_steps:
  assumes "map snd events = hs_queue s" "distinct (map fst events)" "set (map fst events) \<inter> hs_issued s = {}"
  shows "\<exists>s'. (harness_step parse_json)\<^sup>*\<^sup>* s s' \<and> hs_app s' = process_events events (hs_app s) \<and> hs_queue s' = [] \<and>
    hs_issued s' = hs_issued s \<union> set (map fst events)"
  using assms
proof (induction events arbitrary: s)
  case (Cons ne events)
  obtain n e where ne: "ne = (n, e)" by fastforce
  let ?s = "s\<lparr>hs_app := process_event n e (hs_app s), hs_queue := map snd events, hs_issued := insert n (hs_issued s)\<rparr>"
  have step: "harness_step parse_json s ?s"
    using Cons.prems ne by (intro receives) auto
  from Cons.IH [of ?s] Cons.prems ne obtain s' where
    "(harness_step parse_json)\<^sup>*\<^sup>* ?s s'" "hs_app s' = process_events events (process_event n e (hs_app s))" "hs_queue s' = []"
    "hs_issued s' = insert n (hs_issued s) \<union> set (map fst events)"
    by auto
  then show ?case
    using converse_rtranclp_into_rtranclp [of "harness_step parse_json", OF step] ne by (auto simp: process_events_def intro!: exI [of _ s'])
qed (auto simp: process_events_def)

text \<open>
  C15. Every frame of the window is a run of the client. Whatever the widgets report in one frame, a click on several
  of them included, and whatever events wait in the queue, what \<open>update\<close> does is a sequence of enabled
  actions of the user after the events, so the client's steps allow it and every property of reachable states holds
  between frames: the selected conversation exists, no UUID is used twice and at most one stream is under
  way. (The dialog's two buttons are not clicked in the same frame.)
\<close>

theorem frame_is_run:
  assumes "harness_start s0" and "(harness_step parse_json)\<^sup>*\<^sup>* s0 s"
    and "\<not> (fi_cancel i \<and> fi_confirm i)" and "map snd events = hs_queue s"
    and "distinct (map fst events @ frame_ids i)" and "set (map fst events @ frame_ids i) \<inter> hs_issued s = {}"
  shows "\<exists>s'. (harness_step parse_json)\<^sup>*\<^sup>* s s' \<and> hs_app s' = fst (update_frame i events (hs_app s)) \<and>
    hs_queue s' = [] \<and> harness_inv s'"
proof -
  let ?app = "process_events events (hs_app s)"
  obtain s1 where s1: "(harness_step parse_json)\<^sup>*\<^sup>* s s1" "hs_app s1 = ?app" "hs_queue s1 = []"
    "hs_issued s1 = hs_issued s \<union> set (map fst events)"
    using events_steps [OF assms(4), of parse_json] assms(5,6) by auto
  have drawn: "distinct (drawn_by (frame_actions i ?app))" "set (drawn_by (frame_actions i ?app)) \<subseteq> set (frame_ids i)"
    using frame_drawn [of i ?app] assms(5) by auto
  have fresh: "set (drawn_by (frame_actions i ?app)) \<inter> hs_issued s1 = {}"
    using drawn(2) assms(5,6) unfolding s1(4) distinct_append set_append by blast
  have "run_actions (frame_actions i ?app) (hs_app s1) = Some (fst (update_frame i events (hs_app s)), snd (update_frame i events (hs_app s)))"
    unfolding s1(2) using frame_run [OF assms(3)] by simp
  from actions_steps [OF this drawn(1) fresh, of parse_json] s1(3) obtain s2 where
    s2: "(harness_step parse_json)\<^sup>*\<^sup>* s1 s2" "hs_app s2 = fst (update_frame i events (hs_app s))" "hs_queue s2 = []"
    by auto
  have reach: "(harness_step parse_json)\<^sup>*\<^sup>* s s2" using s1(1) s2(1) by (rule rtranclp_trans)
  have "harness_inv s2"
    using client.invariant_reachable [OF assms(1) rtranclp_trans [OF assms(2) reach]] .
  with reach s2 show ?thesis by blast
qed

text \<open>The user types a message and sends it with the enter key, in one frame.\<close>

definition demo_frame :: frame_input where
  "demo_frame =
     \<lparr>fi_settings = False, fi_new_chat = None, fi_select = (\<lambda>_. False), fi_delete = (\<lambda>_. False), fi_model = None,
      fi_draft = Some ''hi'', fi_enter = True, fi_send = False, fi_question = 2, fi_answer = 3, fi_stop = False,
      fi_clear = False, fi_remove = (\<lambda>_. False), fi_cancel = False, fi_confirm = False, fi_replacement = 4,
      fi_dismiss = False, fi_endpoint = None, fi_refresh = False, fi_budget = None, fi_max_tokens = None,
      fi_system_enabled = None, fi_system_harness = None, fi_close = False\<rparr>"

lemma demo_update:
  "map_option ac_assistant_message (ha_active (fst (update_frame demo_frame [] (hs_app demo_boot)))) = Some 3"
  by (simp add: update_frame_def process_events_def sidebar_turn_def central_turn_def composer_turn_def dialog_turn_def
      settings_turn_def demo_frame_def optionally_def last_clicked_def may_send_draft_def demo_trim send_def
      change_selected_def change_conversation_def demo_run_defs)

theorem frame_is_run_witness:
  "\<exists>s'. (harness_step demo_chat_json)\<^sup>*\<^sup>* demo_boot s' \<and> map_option ac_assistant_message (ha_active (hs_app s')) = Some 3 \<and>
     harness_inv s'"
proof -
  have "\<not> (fi_cancel demo_frame \<and> fi_confirm demo_frame)" by (simp add: demo_frame_def)
  moreover have "distinct (map fst ([] :: (uuid \<times> event) list) @ frame_ids demo_frame)"
    "set (map fst ([] :: (uuid \<times> event) list) @ frame_ids demo_frame) \<inter> hs_issued demo_boot = {}"
    by (simp_all add: frame_ids_def demo_frame_def demo_boot_def)
  moreover have "map snd ([] :: (uuid \<times> event) list) = hs_queue demo_boot" by (simp add: demo_boot_def)
  ultimately show ?thesis
    using frame_is_run [OF demo_client_start rtranclp.rtrancl_refl, of demo_frame "[]"] demo_update by metis
qed

end
