(* ===== verification/Widgets.thy ===== *)
theory Widgets
  imports Complex_Main Harness_View
begin

text \<open>
  The look of the desktop client, \<open>crates/harness/src/components.rs\<close> and \<open>theme.rs\<close>: colours, strokes,
  frames and buttons as data, which of them each widget gets, and the areas the two sides of a sidebar
  row and the column of a conversation take. egui draws them: the multiplication of a colour is the
  parameter \<open>gamma\<close>. An \<open>f32\<close> is its rational value; \<open>rnd\<close> rounds the exact result of an operation.
\<close>

section \<open>Theme\<close>

record color32 =
  co_r :: "8 word"
  co_g :: "8 word"
  co_b :: "8 word"
  co_a :: "8 word"

definition from_rgb :: "8 word \<Rightarrow> 8 word \<Rightarrow> 8 word \<Rightarrow> color32" where
  "from_rgb r g b = \<lparr>co_r = r, co_g = g, co_b = b, co_a = 255\<rparr>"

definition transparent :: color32 where
  "transparent = \<lparr>co_r = 0, co_g = 0, co_b = 0, co_a = 0\<rparr>"

definition CANVAS :: color32 where "CANVAS = from_rgb 22 22 19"
definition SIDEBAR :: color32 where "SIDEBAR = from_rgb 18 18 16"
definition SURFACE :: color32 where "SURFACE = from_rgb 31 31 27"
definition SURFACE_RAISED :: color32 where "SURFACE_RAISED = from_rgb 42 42 36"
definition BORDER :: color32 where "BORDER = from_rgb 77 76 68"
definition TEXT :: color32 where "TEXT = from_rgb 244 242 229"
definition MUTED :: color32 where "MUTED = from_rgb 177 173 150"
definition BANANA :: color32 where "BANANA = from_rgb 248 211 68"
definition BANANA_HOVER :: color32 where "BANANA_HOVER = from_rgb 255 226 108"
definition ERROR :: color32 where "ERROR = from_rgb 244 125 101"
definition SUCCESS :: color32 where "SUCCESS = from_rgb 143 204 139"

lemmas colors = CANVAS_def SIDEBAR_def SURFACE_def SURFACE_RAISED_def BORDER_def TEXT_def MUTED_def BANANA_def
  BANANA_HOVER_def ERROR_def SUCCESS_def from_rgb_def

definition SPACE_8 :: rat where "SPACE_8 = 8"
definition SPACE_12 :: rat where "SPACE_12 = 12"
definition RADIUS_SMALL :: nat where "RADIUS_SMALL = 8"
definition RADIUS_MEDIUM :: nat where "RADIUS_MEDIUM = 10"
definition RADIUS_LARGE :: nat where "RADIUS_LARGE = 12"

type_synonym stroke = "rat \<times> color32"

definition stroke_none :: stroke where
  "stroke_none = (0, transparent)"

text \<open>The members of egui's style that \<open>apply\<close> sets.\<close>

record widget_visuals =
  wv_bg_fill :: color32
  wv_bg_stroke :: stroke
  wv_fg_color :: color32

record visuals =
  vi_panel_fill :: color32
  vi_window_fill :: color32
  vi_faint_bg :: color32
  vi_extreme_bg :: color32
  vi_override_text :: "color32 option"
  vi_selection_fill :: color32
  vi_selection_stroke :: color32
  vi_noninteractive :: widget_visuals
  vi_inactive :: widget_visuals
  vi_hovered :: widget_visuals
  vi_active :: widget_visuals
  vi_open :: widget_visuals
  vi_window_stroke :: stroke
  vi_window_radius :: nat

datatype text_style = BodyStyle | ButtonStyle | HeadingStyle | OtherStyle string

record style =
  sy_item_spacing :: "rat \<times> rat"
  sy_button_padding :: "rat \<times> rat"
  sy_interact_height :: rat
  sy_text_styles :: "text_style \<rightharpoonup> rat"
  sy_visuals :: visuals

definition themed_visuals :: "(color32 \<Rightarrow> rat \<Rightarrow> color32) \<Rightarrow> visuals \<Rightarrow> visuals" where
  "themed_visuals gamma dark =
     dark\<lparr>vi_panel_fill := CANVAS, vi_window_fill := SURFACE, vi_faint_bg := SURFACE,
          vi_extreme_bg := SURFACE_RAISED, vi_override_text := Some TEXT,
          vi_selection_fill := gamma BANANA 0.42, vi_selection_stroke := BANANA,
          vi_noninteractive := (vi_noninteractive dark)\<lparr>wv_bg_fill := CANVAS, wv_fg_color := TEXT, wv_bg_stroke := (1, BORDER)\<rparr>,
          vi_inactive := (vi_inactive dark)\<lparr>wv_bg_fill := SURFACE, wv_fg_color := TEXT, wv_bg_stroke := (1, BORDER)\<rparr>,
          vi_hovered := (vi_hovered dark)\<lparr>wv_bg_fill := SURFACE_RAISED, wv_bg_stroke := (1, gamma BANANA_HOVER 0.7)\<rparr>,
          vi_active := (vi_active dark)\<lparr>wv_bg_fill := gamma BANANA 0.45, wv_bg_stroke := (1, BANANA)\<rparr>,
          vi_open := (vi_open dark)\<lparr>wv_bg_fill := SURFACE_RAISED, wv_bg_stroke := (1, gamma BANANA 0.75)\<rparr>,
          vi_window_stroke := (1, BORDER), vi_window_radius := RADIUS_MEDIUM\<rparr>"

definition apply_theme :: "(color32 \<Rightarrow> rat \<Rightarrow> color32) \<Rightarrow> visuals \<Rightarrow> style \<Rightarrow> style" where
  "apply_theme gamma dark style =
     style\<lparr>sy_item_spacing := (SPACE_8, SPACE_8), sy_button_padding := (SPACE_12, SPACE_8), sy_interact_height := 36,
           sy_text_styles := (sy_text_styles style)(BodyStyle \<mapsto> 15.5, ButtonStyle \<mapsto> 14.5, HeadingStyle \<mapsto> 21),
           sy_visuals := themed_visuals gamma dark\<rparr>"

section \<open>Components\<close>

record frame_style =
  fs_fill :: color32
  fs_stroke :: stroke
  fs_radius :: nat
  fs_margin :: "nat \<times> nat"

definition composer_card :: "bool \<Rightarrow> frame_style" where
  "composer_card focused =
     \<lparr>fs_fill = SURFACE, fs_stroke = (if focused then 1.5 else 1, if focused then BANANA else BORDER),
      fs_radius = RADIUS_LARGE, fs_margin = (12, 12)\<rparr>"

fun message_text_color :: "message_surface \<Rightarrow> color32" where
  "message_text_color UserSurface = SIDEBAR"
| "message_text_color AssistantSurface = TEXT"
| "message_text_color ErrorSurface = ERROR"

fun bubble_colors :: "message_surface \<Rightarrow> color32 \<times> stroke" where
  "bubble_colors UserSurface = (BANANA, stroke_none)"
| "bubble_colors AssistantSurface = (SURFACE, (1, BORDER))"
| "bubble_colors ErrorSurface = (from_rgb 66 38 32, (1, ERROR))"

record bubble_widget =
  bw_frame :: frame_style
  bw_label :: string
  bw_label_color :: color32
  bw_min_width :: rat
  bw_max_width :: rat
  bw_right :: bool

definition chat_bubble :: "message_surface \<Rightarrow> string \<Rightarrow> bool \<Rightarrow> bubble_widget" where
  "chat_bubble surface label align_right =
     (let (fill, stroke) = bubble_colors surface
      in \<lparr>bw_frame = \<lparr>fs_fill = fill, fs_stroke = stroke, fs_radius = RADIUS_LARGE, fs_margin = (14, 10)\<rparr>,
          bw_label = label, bw_label_color = message_text_color surface, bw_min_width = 144, bw_max_width = 620,
          bw_right = align_right\<rparr>)"

record button =
  bu_label :: string
  bu_color :: color32
  bu_strong :: bool
  bu_fill :: color32
  bu_stroke :: stroke
  bu_radius :: nat

definition primary_button :: "string \<Rightarrow> button" where
  "primary_button label =
     \<lparr>bu_label = label, bu_color = SIDEBAR, bu_strong = True, bu_fill = BANANA, bu_stroke = stroke_none,
      bu_radius = RADIUS_SMALL\<rparr>"

definition secondary_button :: "string \<Rightarrow> button" where
  "secondary_button label =
     \<lparr>bu_label = label, bu_color = TEXT, bu_strong = False, bu_fill = SURFACE_RAISED, bu_stroke = (1, BORDER),
      bu_radius = RADIUS_SMALL\<rparr>"

definition muted_text :: "string \<Rightarrow> string \<times> color32" where
  "muted_text label = (label, MUTED)"

text \<open>The colour of the dot and the text beside it.\<close>

definition status_line :: "bool \<Rightarrow> string \<Rightarrow> color32 \<times> string \<times> color32" where
  "status_line online label = (if online then SUCCESS else MUTED, muted_text label)"

section \<open>A row of the sidebar\<close>

record rect =
  re_min_x :: rat
  re_min_y :: rat
  re_max_x :: rat
  re_max_y :: rat

definition in_rect :: "rat \<times> rat \<Rightarrow> rect \<Rightarrow> bool" where
  "in_rect p r \<longleftrightarrow> re_min_x r \<le> fst p \<and> fst p \<le> re_max_x r \<and> re_min_y r \<le> snd p \<and> snd p \<le> re_max_y r"

text \<open>What egui reports of an area: the pointer is over it, it has the focus, it was clicked.\<close>

record response =
  rs_hovered :: bool
  rs_focus :: bool
  rs_clicked :: bool

record nav_widget =
  nw_select_rect :: rect
  nw_delete_rect :: rect
  nw_fill :: color32
  nw_stroke :: stroke
  nw_text :: "string \<times> color32"
  nw_mark :: bool
  nw_delete_text :: string

definition select_rect :: "(rat \<Rightarrow> rat) \<Rightarrow> rect \<Rightarrow> rect" where
  "select_rect rnd r = r\<lparr>re_max_x := rnd (re_max_x r - 34)\<rparr>"

definition delete_rect :: "(rat \<Rightarrow> rat) \<Rightarrow> rect \<Rightarrow> rect" where
  "delete_rect rnd r = r\<lparr>re_min_x := rnd (re_max_x r - 34)\<rparr>"

definition navigation_item ::
  "(color32 \<Rightarrow> rat \<Rightarrow> color32) \<Rightarrow> (rat \<Rightarrow> rat) \<Rightarrow> rect \<Rightarrow> response \<Rightarrow> response \<Rightarrow> string \<Rightarrow> bool \<Rightarrow> nav_widget" where
  "navigation_item gamma rnd r select delete label chosen =
     \<lparr>nw_select_rect = select_rect rnd r, nw_delete_rect = delete_rect rnd r,
      nw_fill = (if chosen then gamma BANANA 0.32
                 else if rs_hovered select \<or> rs_hovered delete then SURFACE_RAISED else transparent),
      nw_stroke = (if rs_focus select \<or> rs_focus delete then (1, BANANA) else stroke_none),
      nw_text = (label, TEXT),
      nw_mark = (chosen \<or> rs_hovered select \<or> rs_hovered delete),
      nw_delete_text = ''Delete chat: '' @ label\<rparr>"

text \<open>A click on the left area also requests the focus for it.\<close>

definition focus_requested :: "response \<Rightarrow> bool" where
  "focus_requested select = rs_clicked select"

section \<open>The panels\<close>

definition sidebar_frame :: frame_style where
  "sidebar_frame = \<lparr>fs_fill = SIDEBAR, fs_stroke = (1, BORDER), fs_radius = 0, fs_margin = (14, 16)\<rparr>"

text \<open>The gap on the left of a conversation's column and the width of the column.\<close>

definition conversation_column :: "(rat \<Rightarrow> rat) \<Rightarrow> rat \<Rightarrow> rat \<times> rat" where
  "conversation_column rnd available =
     (let width = min available 980
      in (max (rnd (rnd (available - width) / 2)) 0, width))"

section \<open>Facts\<close>

text \<open>Rounding to \<open>f32\<close> is monotone and keeps the values of \<open>f32\<close>.\<close>

definition rounds :: "(rat \<Rightarrow> rat) \<Rightarrow> rat set \<Rightarrow> bool" where
  "rounds rnd floats \<longleftrightarrow> mono rnd \<and> (\<forall>x \<in> floats. rnd x = x)"

text \<open>
  The two areas of a row cover it: every point of a row is in one of them, and only the dividing line is in
  both. The buttons the pointer can click are those of the row it is in.
\<close>

lemma row_areas:
  assumes "rounds rnd {re_min_x r, re_max_x r}" and "re_min_x r + 34 \<le> re_max_x r"
  shows "in_rect p r \<longleftrightarrow> in_rect p (select_rect rnd r) \<or> in_rect p (delete_rect rnd r)"
    and "in_rect p (select_rect rnd r) \<Longrightarrow> in_rect p (delete_rect rnd r) \<Longrightarrow> fst p = rnd (re_max_x r - 34)"
proof -
  have "rnd (re_min_x r) \<le> rnd (re_max_x r - 34)" "rnd (re_max_x r - 34) \<le> rnd (re_max_x r)"
    using monoD [of rnd "re_min_x r" "re_max_x r - 34"] monoD [of rnd "re_max_x r - 34" "re_max_x r"] assms
    by (simp_all add: rounds_def)
  then have "re_min_x r \<le> rnd (re_max_x r - 34)" "rnd (re_max_x r - 34) \<le> re_max_x r"
    using assms(1) by (simp_all add: rounds_def)
  then show "in_rect p r \<longleftrightarrow> in_rect p (select_rect rnd r) \<or> in_rect p (delete_rect rnd r)"
    by (auto simp: in_rect_def select_rect_def delete_rect_def)
  show "in_rect p (select_rect rnd r) \<Longrightarrow> in_rect p (delete_rect rnd r) \<Longrightarrow> fst p = rnd (re_max_x r - 34)"
    by (simp add: in_rect_def select_rect_def delete_rect_def)
qed

text \<open>The column is in the panel, at most 980 wide, and its margins are equal as far as \<open>f32\<close> has the halves.\<close>

lemma column_fits:
  assumes "conversation_column rnd available = (gap, width)"
  shows "width \<le> 980" "width \<le> available" "0 \<le> gap"
  using assms by (auto simp: conversation_column_def Let_def)

lemma column_centred:
  assumes "rounds rnd {available - width, (available - width) / 2}" and "conversation_column rnd available = (gap, width)"
  shows "gap + width + gap = available"
proof -
  have width: "width = min available 980" and gap: "gap = max (rnd (rnd (available - width) / 2)) 0"
    using assms(2) by (auto simp: conversation_column_def Let_def)
  have "rnd (rnd (available - width) / 2) = (available - width) / 2" using assms(1) by (simp add: rounds_def)
  moreover have "0 \<le> available - width" by (simp add: width)
  ultimately have "gap = (available - width) / 2" by (simp add: gap)
  then show ?thesis by (simp add: field_simps)
qed

text \<open>Who wrote a message can be told from its bubble.\<close>

definition drawn_bubble :: "bubble \<Rightarrow> bubble_widget" where
  "drawn_bubble b = chat_bubble (bb_surface b) (bb_text b) (bb_align_right b)"

lemma surface_from_fill: "inj (\<lambda>surface. fst (bubble_colors surface))"
proof (rule injI)
  fix s t :: message_surface
  show "fst (bubble_colors s) = fst (bubble_colors t) \<Longrightarrow> s = t" by (cases s; cases t) (simp_all add: colors)
qed

lemma drawn_role:
  assumes "bubble_of app c m = Some b" "bubble_of app c m' = Some b'"
  shows "fs_fill (bw_frame (drawn_bubble b)) = fs_fill (bw_frame (drawn_bubble b')) \<longleftrightarrow> hm_role m = hm_role m'"
    and "bw_right (drawn_bubble b) \<longleftrightarrow> hm_role m = UserRole"
proof -
  have surface: "bb_surface b = surface_of (hm_role m)" "bb_surface b' = surface_of (hm_role m')"
    and right: "bb_align_right b = (hm_role m = UserRole)"
    using assms by (auto simp: bubble_of_def Let_def split: if_splits)
  have "surface_of r = surface_of r' \<longleftrightarrow> r = r'" for r r' by (cases r; cases r') simp_all
  then show "fs_fill (bw_frame (drawn_bubble b)) = fs_fill (bw_frame (drawn_bubble b')) \<longleftrightarrow> hm_role m = hm_role m'"
    using injD [OF surface_from_fill, of "bb_surface b" "bb_surface b'"] surface
    by (auto simp: drawn_bubble_def chat_bubble_def case_prod_beta)
  show "bw_right (drawn_bubble b) \<longleftrightarrow> hm_role m = UserRole"
    by (simp add: drawn_bubble_def chat_bubble_def case_prod_beta right)
qed

text \<open>Texts are legible: in the weights of luma, the text of each widget differs from its ground by more
  than 100 of 255.\<close>

definition luma :: "color32 \<Rightarrow> nat" where
  "luma c = (299 * unat (co_r c) + 587 * unat (co_g c) + 114 * unat (co_b c)) div 1000"

definition legible :: "color32 \<Rightarrow> color32 \<Rightarrow> bool" where
  "legible text_color ground \<longleftrightarrow> 100 < \<bar>int (luma text_color) - int (luma ground)\<bar>"

lemma widgets_legible:
  "legible (message_text_color surface) (fst (bubble_colors surface))"
  "legible (bu_color (primary_button label)) (bu_fill (primary_button label))"
  "legible (bu_color (secondary_button label)) (bu_fill (secondary_button label))"
  "legible TEXT CANVAS" "legible MUTED SIDEBAR" "legible MUTED CANVAS"
proof -
  show "legible (message_text_color surface) (fst (bubble_colors surface))"
    by (cases surface) (simp_all add: colors legible_def luma_def)
qed (simp_all add: primary_button_def secondary_button_def colors legible_def luma_def)

end
