(* ===== verification/Wire.thy ===== *)
theory Wire
  imports Protocol "HOL-Library.Monad_Syntax"
begin

text \<open>
  The JSON the processes exchange: what \<open>#[derive(Serialize, Deserialize)]\<close> with the attributes in
  \<open>decompute-core/src/chat.rs\<close>, \<open>models.rs\<close>, \<open>protocol/src\<close> and \<open>coordinator/src/openai.rs\<close> makes
  of their types. An encoder gives the object with its members in the order of the fields; a
  decoder looks members up by name, ignores others and refuses a known member that occurs twice.
  Error messages are left out (\<open>None\<close>), and so are the two notations no process here writes:
  a struct as an array and a unit variant as an object. The text of a value is a matter of serde_json.
\<close>

section \<open>Values and members\<close>

type_synonym members = "(string \<times> json_value) list"
type_synonym 'a decoder = "json_value \<Rightarrow> 'a option"

definition field_values :: "string \<Rightarrow> members \<Rightarrow> json_value list" where
  "field_values k ms = map snd (filter (\<lambda>(k', _). k' = k) ms)"

definition required :: "'a decoder \<Rightarrow> string \<Rightarrow> members \<Rightarrow> 'a option" where
  "required dec k ms = (case field_values k ms of [v] \<Rightarrow> dec v | _ \<Rightarrow> None)"

definition defaulted :: "'a \<Rightarrow> 'a decoder \<Rightarrow> string \<Rightarrow> members \<Rightarrow> 'a option" where
  "defaulted d dec k ms = (case field_values k ms of [] \<Rightarrow> Some d | [v] \<Rightarrow> dec v | _ \<Rightarrow> None)"

text \<open>\<open>Option<T>\<close> reads \<open>null\<close> as \<open>None\<close>; as a field it may also be missing.\<close>

definition nullable :: "'a decoder \<Rightarrow> 'a option decoder" where
  "nullable dec v = (if v = JNull then Some None else map_option Some (dec v))"

abbreviation optional :: "'a decoder \<Rightarrow> string \<Rightarrow> members \<Rightarrow> 'a option option" where
  "optional dec \<equiv> defaulted None (nullable dec)"

definition dec_list :: "'a decoder \<Rightarrow> 'a list decoder" where
  "dec_list dec v = (case v of JArray vs \<Rightarrow> those (map dec vs) | _ \<Rightarrow> None)"

definition dec_object :: "members decoder" where
  "dec_object v = (case v of JObject ms \<Rightarrow> Some ms | _ \<Rightarrow> None)"

definition dec_bool :: "bool decoder" where
  "dec_bool v = (case v of JBool b \<Rightarrow> Some b | _ \<Rightarrow> None)"

text \<open>A unit variant is its name.\<close>

definition dec_name :: "(string \<times> 'a) list \<Rightarrow> 'a decoder" where
  "dec_name names v = (case v of JString s \<Rightarrow> map_of names s | _ \<Rightarrow> None)"

text \<open>An unsigned number of 64 bits: digits whose value is in range.\<close>

definition enc_u64 :: "64 word \<Rightarrow> json_value" where
  "enc_u64 n = JNumber (show_nat (unat n))"

definition dec_u64 :: "64 word decoder" where
  "dec_u64 v =
     (case v of
        JNumber s \<Rightarrow>
          if s \<noteq> [] \<and> list_all is_ascii_digit s \<and> decimal_value s < 2 ^ 64
          then Some (of_nat (decimal_value s)) else None
      | _ \<Rightarrow> None)"

text \<open>Members that \<open>skip_serializing_if\<close> leaves out.\<close>

definition skip_none :: "string \<Rightarrow> ('a \<Rightarrow> json_value) \<Rightarrow> 'a option \<Rightarrow> members" where
  "skip_none k enc x = (case x of None \<Rightarrow> [] | Some y \<Rightarrow> [(k, enc y)])"

definition skip_empty :: "string \<Rightarrow> ('a \<Rightarrow> json_value) \<Rightarrow> 'a list \<Rightarrow> members" where
  "skip_empty k enc xs = (if xs = [] then [] else [(k, JArray (map enc xs))])"

definition enc_nullable :: "('a \<Rightarrow> json_value) \<Rightarrow> 'a option \<Rightarrow> json_value" where
  "enc_nullable enc x = (case x of None \<Rightarrow> JNull | Some y \<Rightarrow> enc y)"

named_theorems wire \<open>decoding what was encoded\<close>

lemma field_values_simps [wire]:
  "field_values k [] = []"
  "field_values k ((k', v) # ms) = (if k' = k then [v] else []) @ field_values k ms"
  "field_values k (ms @ ms') = field_values k ms @ field_values k ms'"
  "field_values k (skip_none k' enc x) = (if k' = k then map enc (case x of None \<Rightarrow> [] | Some y \<Rightarrow> [y]) else [])"
  "field_values k (skip_empty k' enc' xs) = (if k' = k \<and> xs \<noteq> [] then [JArray (map enc' xs)] else [])"
  by (auto simp: field_values_def skip_none_def skip_empty_def split: option.split)

lemma dec_values [wire]:
  "dec_object (JObject ms) = Some ms"
  "dec_u64 (enc_u64 n) = Some n"
  "as_str (JString s) = Some s"
  "dec_bool (JBool b) = Some b"
  "dec_name names (JString s) = map_of names s"
  using show_nat_digits [of "unat n"] unsigned_less [of n]
  by (simp_all add: dec_object_def dec_u64_def enc_u64_def as_str_def dec_bool_def dec_name_def)

lemma enc_u64_not_null [simp]: "enc_u64 n \<noteq> JNull"
  by (simp add: enc_u64_def)

lemma those_map_encoded: "(\<And>x. x \<in> set xs \<Longrightarrow> dec (enc x) = Some x) \<Longrightarrow> those (map (dec \<circ> enc) xs) = Some xs"
  by (induction xs) auto

lemma dec_list_encoded [wire]:
  "(\<And>x. x \<in> set xs \<Longrightarrow> dec (enc x) = Some x) \<Longrightarrow> dec_list dec (JArray (map enc xs)) = Some xs"
  by (simp add: dec_list_def those_map_encoded)

lemma required_encoded [wire]: "field_values k ms = [v] \<Longrightarrow> required dec k ms = dec v"
  by (simp add: required_def)

lemma defaulted_empty [wire]:
  assumes "field_values k ms = (if xs \<noteq> [] then [JArray (map enc xs)] else [])"
    and "\<And>x. x \<in> set xs \<Longrightarrow> dec (enc x) = Some x"
  shows "defaulted [] (dec_list dec) k ms = Some xs"
  using assms by (simp add: defaulted_def dec_list_encoded)

lemma optional_none [wire]:
  assumes "field_values k ms = map enc (case x of None \<Rightarrow> [] | Some y \<Rightarrow> [y])"
    and "\<And>y. x = Some y \<Longrightarrow> dec (enc y) = Some y \<and> enc y \<noteq> JNull"
  shows "optional dec k ms = Some x"
  using assms by (cases x) (simp_all add: defaulted_def nullable_def)

section \<open>Messages and tools\<close>

definition chat_role_names :: "(string \<times> chat_role) list" where
  "chat_role_names =
     [(''system'', System), (''user'', User), (''assistant'', Assistant), (''tool'', Tool)]"

fun enc_chat_role :: "chat_role \<Rightarrow> json_value" where
  "enc_chat_role System = JString ''system''"
| "enc_chat_role User = JString ''user''"
| "enc_chat_role Assistant = JString ''assistant''"
| "enc_chat_role Tool = JString ''tool''"

fun enc_tool_type :: "tool_type \<Rightarrow> json_value" where
  "enc_tool_type Function = JString ''function''"

definition dec_tool_type :: "tool_type decoder" where
  "dec_tool_type = dec_name [(''function'', Function)]"

fun enc_finish_reason :: "finish_reason \<Rightarrow> json_value" where
  "enc_finish_reason Stop = JString ''stop''"
| "enc_finish_reason ToolCalls = JString ''tool_calls''"

definition dec_finish_reason :: "finish_reason decoder" where
  "dec_finish_reason = dec_name [(''stop'', Stop), (''tool_calls'', ToolCalls)]"

definition enc_function_call :: "function_call \<Rightarrow> json_value" where
  "enc_function_call f = JObject [(''name'', JString (fc_name f)), (''arguments'', fc_arguments f)]"

definition dec_function_call :: "function_call decoder" where
  "dec_function_call v = do {
     ms \<leftarrow> dec_object v;
     name \<leftarrow> required as_str ''name'' ms;
     arguments \<leftarrow> required Some ''arguments'' ms;
     Some \<lparr>fc_name = name, fc_arguments = arguments\<rparr>}"

definition enc_tool_call :: "tool_call \<Rightarrow> json_value" where
  "enc_tool_call c =
     JObject [(''id'', JString (tc_id c)), (''type'', enc_tool_type (tc_kind c)),
              (''function'', enc_function_call (tc_function c))]"

definition dec_tool_call :: "tool_call decoder" where
  "dec_tool_call v = do {
     ms \<leftarrow> dec_object v;
     i \<leftarrow> required as_str ''id'' ms;
     kind \<leftarrow> required dec_tool_type ''type'' ms;
     f \<leftarrow> required dec_function_call ''function'' ms;
     Some \<lparr>tc_id = i, tc_kind = kind, tc_function = f\<rparr>}"

definition enc_function_definition :: "function_definition \<Rightarrow> json_value" where
  "enc_function_definition f =
     JObject ([(''name'', JString (fd_name f))] @ skip_none ''description'' JString (fd_description f) @
              [(''parameters'', fd_parameters f)])"

definition dec_function_definition :: "function_definition decoder" where
  "dec_function_definition v = do {
     ms \<leftarrow> dec_object v;
     name \<leftarrow> required as_str ''name'' ms;
     description \<leftarrow> optional as_str ''description'' ms;
     parameters \<leftarrow> required Some ''parameters'' ms;
     Some \<lparr>fd_name = name, fd_description = description, fd_parameters = parameters\<rparr>}"

definition enc_tool_definition :: "tool_definition \<Rightarrow> json_value" where
  "enc_tool_definition t =
     JObject [(''type'', enc_tool_type (td_kind t)), (''function'', enc_function_definition (td_function t))]"

definition dec_tool_definition :: "tool_definition decoder" where
  "dec_tool_definition v = do {
     ms \<leftarrow> dec_object v;
     kind \<leftarrow> required dec_tool_type ''type'' ms;
     f \<leftarrow> required dec_function_definition ''function'' ms;
     Some \<lparr>td_kind = kind, td_function = f\<rparr>}"

definition enc_chat_message :: "chat_message \<Rightarrow> json_value" where
  "enc_chat_message m =
     JObject ([(''role'', enc_chat_role (cm_role m)), (''content'', JString (cm_content m))] @
              skip_empty ''tool_calls'' enc_tool_call (cm_tool_calls m) @
              skip_none ''tool_call_id'' JString (cm_tool_call_id m))"

definition dec_chat_message :: "chat_message decoder" where
  "dec_chat_message v = do {
     ms \<leftarrow> dec_object v;
     role \<leftarrow> required (dec_name chat_role_names) ''role'' ms;
     content \<leftarrow> required as_str ''content'' ms;
     calls \<leftarrow> defaulted [] (dec_list dec_tool_call) ''tool_calls'' ms;
     call_id \<leftarrow> optional as_str ''tool_call_id'' ms;
     Some \<lparr>cm_role = role, cm_content = content, cm_tool_calls = calls, cm_tool_call_id = call_id\<rparr>}"

lemma dec_names [wire]:
  "dec_name chat_role_names (enc_chat_role r) = Some r"
  "dec_tool_type (enc_tool_type k) = Some k"
  "dec_finish_reason (enc_finish_reason fr) = Some fr"
  by (cases r; cases k; cases fr; simp add: chat_role_names_def dec_tool_type_def dec_finish_reason_def dec_name_def)+

lemma dec_tool_parts [wire]:
  "dec_function_call (enc_function_call f) = Some f"
  "dec_function_definition (enc_function_definition d) = Some d"
  by (simp_all add: dec_function_call_def enc_function_call_def dec_function_definition_def
      enc_function_definition_def wire)

lemma dec_tools [wire]:
  "dec_tool_call (enc_tool_call c) = Some c"
  "dec_tool_definition (enc_tool_definition t) = Some t"
  by (simp_all add: dec_tool_call_def enc_tool_call_def dec_tool_definition_def enc_tool_definition_def wire)

lemma dec_chat_message_encoded [wire]: "dec_chat_message (enc_chat_message m) = Some m"
  by (simp add: dec_chat_message_def enc_chat_message_def wire)

section \<open>Requests to a worker and its answers\<close>

text \<open>A UUID is its text; printing and parsing it are the \<open>uuid\<close> crate's.\<close>

definition dec_uuid :: "(string \<Rightarrow> uuid option) \<Rightarrow> uuid decoder" where
  "dec_uuid parse_uuid v = Option.bind (as_str v) parse_uuid"

definition uuid_text :: "(uuid \<Rightarrow> string) \<Rightarrow> (string \<Rightarrow> uuid option) \<Rightarrow> uuid \<Rightarrow> bool" where
  "uuid_text show_uuid parse_uuid i \<longleftrightarrow> parse_uuid (show_uuid i) = Some i"

definition enc_generate_request :: "(uuid \<Rightarrow> string) \<Rightarrow> generate_request \<Rightarrow> json_value" where
  "enc_generate_request show_uuid r =
     JObject ([(''request_id'', JString (show_uuid (gr_request_id r)))] @
              skip_none ''session_id'' (\<lambda>i. JString (show_uuid i)) (gr_session_id r) @
              [(''model'', JString (gr_model r))] @
              skip_none ''prompt'' JString (gr_prompt r) @
              skip_none ''messages'' (\<lambda>ms. JArray (map enc_chat_message ms)) (gr_messages r) @
              skip_none ''template'' JString (gr_template r) @
              skip_empty ''tools'' enc_tool_definition (gr_tools r) @
              [(''max_tokens'', enc_u64 (gr_max_tokens r))])"

definition dec_generate_request :: "(string \<Rightarrow> uuid option) \<Rightarrow> generate_request decoder" where
  "dec_generate_request parse_uuid v = do {
     ms \<leftarrow> dec_object v;
     request_id \<leftarrow> required (dec_uuid parse_uuid) ''request_id'' ms;
     session_id \<leftarrow> optional (dec_uuid parse_uuid) ''session_id'' ms;
     model \<leftarrow> required as_str ''model'' ms;
     prompt \<leftarrow> optional as_str ''prompt'' ms;
     messages \<leftarrow> optional (dec_list dec_chat_message) ''messages'' ms;
     template \<leftarrow> optional as_str ''template'' ms;
     tools \<leftarrow> defaulted [] (dec_list dec_tool_definition) ''tools'' ms;
     max_tokens \<leftarrow> required dec_u64 ''max_tokens'' ms;
     Some \<lparr>gr_request_id = request_id, gr_session_id = session_id, gr_model = model,
           gr_prompt = prompt, gr_messages = messages, gr_template = template, gr_tools = tools,
           gr_max_tokens = max_tokens\<rparr>}"

definition enc_generate_response :: "(uuid \<Rightarrow> string) \<Rightarrow> generate_response \<Rightarrow> json_value" where
  "enc_generate_response show_uuid r =
     JObject ([(''request_id'', JString (show_uuid (gp_request_id r))),
               (''worker_id'', JString (gp_worker_id r)), (''model'', JString (gp_model r)),
               (''text'', JString (gp_text r)), (''input_tokens'', enc_u64 (gp_input_tokens r)),
               (''output_tokens'', enc_u64 (gp_output_tokens r))] @
              skip_empty ''tool_calls'' enc_tool_call (gp_tool_calls r) @
              [(''finish_reason'', enc_finish_reason (gp_finish_reason r))])"

definition dec_generate_response :: "(string \<Rightarrow> uuid option) \<Rightarrow> generate_response decoder" where
  "dec_generate_response parse_uuid v = do {
     ms \<leftarrow> dec_object v;
     request_id \<leftarrow> required (dec_uuid parse_uuid) ''request_id'' ms;
     worker_id \<leftarrow> required as_str ''worker_id'' ms;
     model \<leftarrow> required as_str ''model'' ms;
     words \<leftarrow> required as_str ''text'' ms;
     input_tokens \<leftarrow> required dec_u64 ''input_tokens'' ms;
     output_tokens \<leftarrow> required dec_u64 ''output_tokens'' ms;
     calls \<leftarrow> defaulted [] (dec_list dec_tool_call) ''tool_calls'' ms;
     finish_reason \<leftarrow> required dec_finish_reason ''finish_reason'' ms;
     Some \<lparr>gp_request_id = request_id, gp_worker_id = worker_id, gp_model = model, gp_text = words,
           gp_input_tokens = input_tokens, gp_output_tokens = output_tokens, gp_tool_calls = calls,
           gp_finish_reason = finish_reason\<rparr>}"

text \<open>A stream event is tagged by its member \<open>type\<close>.\<close>

fun enc_stream_event :: "generation_stream_event \<Rightarrow> json_value" where
  "enc_stream_event (TextDelta t) = JObject [(''type'', JString ''text_delta''), (''text'', JString t)]"
| "enc_stream_event (Completed i n calls fr) =
     JObject [(''type'', JString ''completed''), (''input_tokens'', enc_u64 i), (''output_tokens'', enc_u64 n),
              (''tool_calls'', JArray (map enc_tool_call calls)), (''finish_reason'', enc_finish_reason fr)]"
| "enc_stream_event (StreamError m) = JObject [(''type'', JString ''error''), (''message'', JString m)]"

definition dec_stream_event :: "generation_stream_event decoder" where
  "dec_stream_event v = do {
     ms \<leftarrow> dec_object v;
     tag \<leftarrow> required as_str ''type'' ms;
     if tag = ''text_delta'' then map_option TextDelta (required as_str ''text'' ms)
     else if tag = ''completed'' then do {
       i \<leftarrow> required dec_u64 ''input_tokens'' ms;
       n \<leftarrow> required dec_u64 ''output_tokens'' ms;
       calls \<leftarrow> required (dec_list dec_tool_call) ''tool_calls'' ms;
       fr \<leftarrow> required dec_finish_reason ''finish_reason'' ms;
       Some (Completed i n calls fr)}
     else if tag = ''error'' then map_option StreamError (required as_str ''message'' ms)
     else None}"

lemma dec_uuid_encoded [wire]:
  "uuid_text show_uuid parse_uuid i \<Longrightarrow> dec_uuid parse_uuid (JString (show_uuid i)) = Some i"
  by (simp add: dec_uuid_def uuid_text_def wire)

lemma dec_generate_request_encoded [wire]:
  assumes "uuid_text show_uuid parse_uuid (gr_request_id r)"
    and "\<And>i. gr_session_id r = Some i \<Longrightarrow> uuid_text show_uuid parse_uuid i"
  shows "dec_generate_request parse_uuid (enc_generate_request show_uuid r) = Some r"
  using assms by (simp add: dec_generate_request_def enc_generate_request_def wire)

lemma dec_generate_response_encoded [wire]:
  "uuid_text show_uuid parse_uuid (gp_request_id r) \<Longrightarrow>
   dec_generate_response parse_uuid (enc_generate_response show_uuid r) = Some r"
  by (simp add: dec_generate_response_def enc_generate_response_def wire)

lemma dec_stream_event_encoded [wire]: "dec_stream_event (enc_stream_event e) = Some e"
  by (cases e) (simp_all add: dec_stream_event_def wire)

section \<open>Registrations and heartbeats\<close>

fun enc_acceleration :: "acceleration \<Rightarrow> json_value" where
  "enc_acceleration Cpu = JString ''cpu''"
| "enc_acceleration Metal = JString ''metal''"
| "enc_acceleration Cuda = JString ''cuda''"

definition dec_acceleration :: "acceleration decoder" where
  "dec_acceleration = dec_name [(''cpu'', Cpu), (''metal'', Metal), (''cuda'', Cuda)]"

fun enc_model_status :: "model_status \<Rightarrow> json_value" where
  "enc_model_status Loaded = JString ''loaded''"
| "enc_model_status Loading = JString ''loading''"
| "enc_model_status Unavailable = JString ''unavailable''"

definition dec_model_status :: "model_status decoder" where
  "dec_model_status =
     dec_name [(''loaded'', Loaded), (''loading'', Loading), (''unavailable'', Unavailable)]"

fun enc_worker_state :: "worker_state \<Rightarrow> json_value" where
  "enc_worker_state Available = JString ''available''"
| "enc_worker_state Busy = JString ''busy''"
| "enc_worker_state Draining = JString ''draining''"
| "enc_worker_state Offline = JString ''offline''"

definition dec_worker_state :: "worker_state decoder" where
  "dec_worker_state =
     dec_name [(''available'', Available), (''busy'', Busy), (''draining'', Draining), (''offline'', Offline)]"

definition enc_hardware_info :: "hardware_info \<Rightarrow> json_value" where
  "enc_hardware_info h =
     JObject [(''architecture'', JString (hw_architecture h)),
              (''total_memory_bytes'', enc_u64 (hw_total_memory_bytes h)),
              (''available_memory_bytes'', enc_u64 (hw_available_memory_bytes h)),
              (''acceleration'', enc_acceleration (hw_acceleration h))]"

definition dec_hardware_info :: "hardware_info decoder" where
  "dec_hardware_info v = do {
     ms \<leftarrow> dec_object v;
     architecture \<leftarrow> required as_str ''architecture'' ms;
     total_memory \<leftarrow> required dec_u64 ''total_memory_bytes'' ms;
     available_memory \<leftarrow> required dec_u64 ''available_memory_bytes'' ms;
     acceleration \<leftarrow> required dec_acceleration ''acceleration'' ms;
     Some \<lparr>hw_architecture = architecture, hw_total_memory_bytes = total_memory,
           hw_available_memory_bytes = available_memory, hw_acceleration = acceleration\<rparr>}"

definition enc_model_capability :: "model_capability \<Rightarrow> json_value" where
  "enc_model_capability m =
     JObject ([(''id'', JString (mc_id m)), (''status'', enc_model_status (mc_status m))] @
              skip_none ''manifest_sha256'' JString (mc_manifest_sha256 m))"

definition dec_model_capability :: "model_capability decoder" where
  "dec_model_capability v = do {
     ms \<leftarrow> dec_object v;
     i \<leftarrow> required as_str ''id'' ms;
     status \<leftarrow> required dec_model_status ''status'' ms;
     manifest \<leftarrow> optional as_str ''manifest_sha256'' ms;
     Some \<lparr>mc_id = i, mc_status = status, mc_manifest_sha256 = manifest\<rparr>}"

text \<open>\<open>#[serde(flatten)]\<close> puts the members of the capabilities beside those of the struct around them.\<close>

definition capabilities_members :: "worker_capabilities \<Rightarrow> members" where
  "capabilities_members c =
     [(''node_id'', JString (wc_node_id c)), (''models'', JArray (map enc_model_capability (wc_models c))),
      (''active_requests'', enc_u64 (wc_active_requests c)), (''max_requests'', enc_u64 (wc_max_requests c)),
      (''state'', enc_worker_state (wc_state c)), (''hardware'', enc_hardware_info (wc_hardware c))]"

definition dec_capabilities :: "members \<Rightarrow> worker_capabilities option" where
  "dec_capabilities ms = do {
     node_id \<leftarrow> required as_str ''node_id'' ms;
     models \<leftarrow> required (dec_list dec_model_capability) ''models'' ms;
     active_requests \<leftarrow> required dec_u64 ''active_requests'' ms;
     max_requests \<leftarrow> required dec_u64 ''max_requests'' ms;
     state \<leftarrow> required dec_worker_state ''state'' ms;
     hardware \<leftarrow> required dec_hardware_info ''hardware'' ms;
     Some \<lparr>wc_node_id = node_id, wc_models = models, wc_active_requests = active_requests,
           wc_max_requests = max_requests, wc_state = state, wc_hardware = hardware\<rparr>}"

definition enc_register_request :: "register_worker_request \<Rightarrow> json_value" where
  "enc_register_request r =
     JObject ([(''address'', JString (rw_address r))] @ capabilities_members (rw_capabilities r))"

definition dec_register_request :: "register_worker_request decoder" where
  "dec_register_request v = do {
     ms \<leftarrow> dec_object v;
     address \<leftarrow> required as_str ''address'' ms;
     c \<leftarrow> dec_capabilities ms;
     Some \<lparr>rw_address = address, rw_capabilities = c\<rparr>}"

definition enc_heartbeat_request :: "heartbeat_request \<Rightarrow> json_value" where
  "enc_heartbeat_request r = JObject (capabilities_members (hb_capabilities r))"

definition dec_heartbeat_request :: "heartbeat_request decoder" where
  "dec_heartbeat_request v = do {
     ms \<leftarrow> dec_object v;
     c \<leftarrow> dec_capabilities ms;
     Some \<lparr>hb_capabilities = c\<rparr>}"

lemma dec_worker_names [wire]:
  "dec_acceleration (enc_acceleration a) = Some a"
  "dec_model_status (enc_model_status s) = Some s"
  "dec_worker_state (enc_worker_state ws) = Some ws"
  by (cases a; cases s; cases ws; simp add: dec_acceleration_def dec_model_status_def dec_worker_state_def dec_name_def)+

lemma dec_worker_parts [wire]:
  "dec_hardware_info (enc_hardware_info h) = Some h"
  "dec_model_capability (enc_model_capability m) = Some m"
  by (simp_all add: dec_hardware_info_def enc_hardware_info_def dec_model_capability_def
      enc_model_capability_def wire)

lemma dec_reports [wire]:
  "dec_register_request (enc_register_request r) = Some r"
  "dec_heartbeat_request (enc_heartbeat_request hb) = Some hb"
  by (simp_all add: dec_register_request_def enc_register_request_def dec_heartbeat_request_def
      enc_heartbeat_request_def dec_capabilities_def capabilities_members_def wire)

text \<open>
  C29. What one process sends the other reads: every request, answer and stream event between the
  coordinator and a worker, and every registration and heartbeat, decodes to the value that was
  encoded, whatever optional parts it has, if the texts of its UUIDs parse.
\<close>

theorem wire_roundtrip:
  assumes "uuid_text show_uuid parse_uuid (gr_request_id r)"
    and "case gr_session_id r of Some i \<Rightarrow> uuid_text show_uuid parse_uuid i | None \<Rightarrow> True"
    and "uuid_text show_uuid parse_uuid (gp_request_id a)"
  shows "dec_generate_request parse_uuid (enc_generate_request show_uuid r) = Some r \<and>
    dec_generate_response parse_uuid (enc_generate_response show_uuid a) = Some a \<and>
    dec_stream_event (enc_stream_event e) = Some e \<and>
    dec_register_request (enc_register_request w) = Some w \<and>
    dec_heartbeat_request (enc_heartbeat_request h) = Some h"
proof -
  have "dec_generate_request parse_uuid (enc_generate_request show_uuid r) = Some r"
    by (rule dec_generate_request_encoded [OF assms(1)]) (use assms(2) in simp)
  with assms(3) show ?thesis by (simp add: dec_generate_response_encoded dec_stream_event_encoded dec_reports)
qed

definition sample_request :: generate_request where
  "sample_request =
     \<lparr>gr_request_id = 7, gr_session_id = Some 7, gr_model = ''m'', gr_prompt = Some ''hi'', gr_messages = None,
      gr_template = None, gr_tools = [], gr_max_tokens = 100\<rparr>"

definition sample_response :: generate_response where
  "sample_response =
     \<lparr>gp_request_id = 7, gp_worker_id = ''b'', gp_model = ''m'', gp_text = ''ho'', gp_input_tokens = 3,
      gp_output_tokens = 1, gp_tool_calls = [], gp_finish_reason = Stop\<rparr>"

theorem wire_roundtrip_witness:
  "dec_generate_request (\<lambda>s. if s = ''seven'' then Some 7 else None)
     (enc_generate_request (\<lambda>_. ''seven'') sample_request) = Some sample_request"
proof -
  have seven: "uuid_text (\<lambda>_. ''seven'') (\<lambda>s. if s = ''seven'' then Some 7 else None) 7" by (simp add: uuid_text_def)
  have "gr_request_id sample_request = 7" "gr_session_id sample_request = Some 7" "gp_request_id sample_response = 7"
    by (simp_all add: sample_request_def sample_response_def)
  then show ?thesis
    using wire_roundtrip [of "\<lambda>_. ''seven''" "\<lambda>s. if s = ''seven'' then Some 7 else None" sample_request sample_response]
      seven by simp
qed

end
