(* ===== verification/Wire_Public.thy ===== *)
theory Wire_Public
  imports Wire Openai
begin

text \<open>
  The JSON of the public API, from the attributes in \<open>crates/coordinator/src/openai.rs\<close>: what is
  read of a request, what is written of a response, a stream chunk, the model list and an error.
\<close>

section \<open>Requests\<close>

definition dec_openai_role :: "openai_role decoder" where
  "dec_openai_role =
     dec_name [(''system'', OSystem), (''developer'', ODeveloper), (''user'', OUser),
               (''assistant'', OAssistant), (''tool'', OTool)]"

definition dec_openai_function_call :: "openai_function_call decoder" where
  "dec_openai_function_call v = do {
     ms \<leftarrow> dec_object v;
     name \<leftarrow> required as_str ''name'' ms;
     arguments \<leftarrow> required as_str ''arguments'' ms;
     Some \<lparr>of_name = name, of_arguments = arguments\<rparr>}"

definition dec_openai_tool_call :: "openai_tool_call decoder" where
  "dec_openai_tool_call v = do {
     ms \<leftarrow> dec_object v;
     i \<leftarrow> required as_str ''id'' ms;
     kind \<leftarrow> required dec_tool_type ''type'' ms;
     f \<leftarrow> required dec_openai_function_call ''function'' ms;
     Some \<lparr>ot_id = i, ot_kind = kind, ot_function = f\<rparr>}"

definition dec_completion_message :: "chat_completion_message decoder" where
  "dec_completion_message v = do {
     ms \<leftarrow> dec_object v;
     role \<leftarrow> required dec_openai_role ''role'' ms;
     content \<leftarrow> optional Some ''content'' ms;
     calls \<leftarrow> defaulted [] (dec_list dec_openai_tool_call) ''tool_calls'' ms;
     call_id \<leftarrow> optional as_str ''tool_call_id'' ms;
     Some \<lparr>om_role = role, om_content = content, om_tool_calls = calls, om_tool_call_id = call_id\<rparr>}"

definition dec_completion_request :: "chat_completion_request decoder" where
  "dec_completion_request v = do {
     ms \<leftarrow> dec_object v;
     model \<leftarrow> required as_str ''model'' ms;
     messages \<leftarrow> required (dec_list dec_completion_message) ''messages'' ms;
     tools \<leftarrow> defaulted [] (dec_list dec_tool_definition) ''tools'' ms;
     stream \<leftarrow> defaulted False dec_bool ''stream'' ms;
     max_tokens \<leftarrow> optional dec_u64 ''max_tokens'' ms;
     max_completion_tokens \<leftarrow> optional dec_u64 ''max_completion_tokens'' ms;
     template \<leftarrow> optional as_str ''template'' ms;
     Some \<lparr>cr_model = model, cr_messages = messages, cr_tools = tools, cr_stream = stream,
           cr_max_tokens = max_tokens, cr_max_completion_tokens = max_completion_tokens,
           cr_template = template\<rparr>}"

section \<open>Responses\<close>

definition enc_openai_tool_call :: "openai_tool_call \<Rightarrow> json_value" where
  "enc_openai_tool_call c =
     JObject [(''id'', JString (ot_id c)), (''type'', enc_tool_type (ot_kind c)),
              (''function'', JObject [(''name'', JString (of_name (ot_function c))),
                                      (''arguments'', JString (of_arguments (ot_function c)))])]"

definition enc_index :: "nat \<Rightarrow> json_value" where
  "enc_index n = JNumber (show_nat n)"

definition enc_usage :: "completion_usage \<Rightarrow> json_value" where
  "enc_usage u =
     JObject [(''prompt_tokens'', enc_u64 (cu_prompt_tokens u)),
              (''completion_tokens'', enc_u64 (cu_completion_tokens u)),
              (''total_tokens'', enc_u64 (cu_total_tokens u))]"

definition enc_assistant_message :: "assistant_message \<Rightarrow> json_value" where
  "enc_assistant_message m =
     JObject ([(''role'', JString (am_role m)), (''content'', enc_nullable JString (am_content m))] @
              skip_empty ''tool_calls'' enc_openai_tool_call (am_tool_calls m))"

definition enc_completion_choice :: "completion_choice \<Rightarrow> json_value" where
  "enc_completion_choice c =
     JObject [(''index'', enc_index (cc_index c)), (''message'', enc_assistant_message (cc_message c)),
              (''finish_reason'', enc_finish_reason (cc_finish_reason c))]"

definition enc_completion_response :: "chat_completion_response \<Rightarrow> json_value" where
  "enc_completion_response r =
     JObject [(''id'', JString (cp_id r)), (''object'', JString (cp_object r)),
              (''created'', enc_u64 (cp_created r)), (''model'', JString (cp_model r)),
              (''choices'', JArray (map enc_completion_choice (cp_choices r))),
              (''usage'', enc_usage (cp_usage r))]"

definition enc_chunk_tool_call :: "chunk_tool_call \<Rightarrow> json_value" where
  "enc_chunk_tool_call c =
     JObject ((''index'', enc_index (ct_index c)) #
       (case enc_openai_tool_call (ct_call c) of JObject ms \<Rightarrow> ms | _ \<Rightarrow> []))"

definition enc_assistant_delta :: "assistant_delta \<Rightarrow> json_value" where
  "enc_assistant_delta d =
     JObject (skip_none ''role'' JString (ad_role d) @ skip_none ''content'' JString (ad_content d) @
              skip_empty ''tool_calls'' enc_chunk_tool_call (ad_tool_calls d))"

definition enc_chunk_choice :: "chunk_choice \<Rightarrow> json_value" where
  "enc_chunk_choice c =
     JObject ([(''index'', enc_index (ch_index c)), (''delta'', enc_assistant_delta (ch_delta c))] @
              skip_none ''finish_reason'' enc_finish_reason (ch_finish_reason c))"

definition enc_completion_chunk :: "chat_completion_chunk \<Rightarrow> json_value" where
  "enc_completion_chunk c =
     JObject ([(''id'', JString (ck_id c)), (''object'', JString (ck_object c)),
               (''created'', enc_u64 (ck_created c)), (''model'', JString (ck_model c)),
               (''choices'', JArray (map enc_chunk_choice (ck_choices c)))] @
              skip_none ''usage'' enc_usage (ck_usage c))"

definition enc_error_response :: "error_response \<Rightarrow> json_value" where
  "enc_error_response e =
     JObject [(''error'', JObject [(''message'', JString (oe_message (er_error e))),
                                   (''type'', JString (oe_kind (er_error e))),
                                   (''code'', enc_nullable JString (oe_code (er_error e)))])]"

text \<open>The data of an error event, \<open>send_error\<close>.\<close>

definition enc_stream_error :: "string \<Rightarrow> json_value" where
  "enc_stream_error message = JObject [(''error'', JObject [(''message'', JString message)])]"

definition enc_openai_model :: "openai_model \<Rightarrow> json_value" where
  "enc_openai_model m =
     JObject [(''id'', JString (md_id m)), (''object'', JString (md_object m)),
              (''owned_by'', JString (md_owned_by m))]"

definition enc_models_response :: "models_response \<Rightarrow> json_value" where
  "enc_models_response r =
     JObject [(''object'', JString (ms_object r)), (''data'', JArray (map enc_openai_model (ms_data r)))]"

section \<open>What a client sends back\<close>

lemma dec_openai_tool_call_encoded [wire]: "dec_openai_tool_call (enc_openai_tool_call c) = Some c"
  by (simp add: dec_openai_tool_call_def enc_openai_tool_call_def dec_openai_function_call_def wire)

text \<open>
  A client may send an assistant message back as it got it: the member \<open>message\<close> of a choice
  is read as the history message it was made from, with the same text, or none, and the same tool
  calls in order.
\<close>

theorem answer_sent_back:
  assumes "am_role m = ''assistant''"
  shows "dec_completion_message (enc_assistant_message m) =
    Some \<lparr>om_role = OAssistant, om_content = map_option JString (am_content m),
          om_tool_calls = am_tool_calls m, om_tool_call_id = None\<rparr>"
  using assms
  by (cases "am_content m")
    (simp_all add: dec_completion_message_def enc_assistant_message_def dec_openai_role_def enc_nullable_def
      defaulted_def nullable_def dec_list_encoded wire)

end
