(* ===== verification/Harness_Service.thy ===== *)
theory Harness_Service
  imports Harness_Run Coordinator_Api
begin

text \<open>
  The client of \<open>crates/harness/src/main.rs\<close> and the public API of
  \<open>crates/coordinator/src/api.rs\<close> together: the requests the client sends pass the coordinator's
  checks, and what the client shows of a public stream. The JSON printers of both sides are
  arguments; what is relied on of them is stated for the texts at hand.
\<close>

section \<open>Requests\<close>

text \<open>The role names \<open>#[serde(rename_all = "lowercase")]\<close> gives \<open>OpenAiRole\<close>, and the body of a
  request as the coordinator's \<open>ChatCompletionRequest\<close> deserializes it.\<close>

definition openai_role_named :: "string \<Rightarrow> openai_role option" where
  "openai_role_named name =
     map_of [(''system'', OSystem), (''developer'', ODeveloper), (''user'', OUser),
             (''assistant'', OAssistant), (''tool'', OTool)] name"

definition received_message :: "api_message \<Rightarrow> chat_completion_message option" where
  "received_message m =
     map_option (\<lambda>role. \<lparr>om_role = role, om_content = Some (JString (ap_text m)),
                         om_tool_calls = [], om_tool_call_id = None\<rparr>)
       (openai_role_named (ap_role m))"

definition received_request :: "api_request \<Rightarrow> chat_completion_request option" where
  "received_request r =
     map_option (\<lambda>ms. \<lparr>cr_model = rq_model r, cr_messages = ms, cr_tools = [], cr_stream = rq_stream r,
                       cr_max_tokens = Some (rq_max_tokens r), cr_max_completion_tokens = None,
                       cr_template = None\<rparr>)
       (those (map received_message (rq_messages r)))"

text \<open>The messages of the model's prompt.\<close>

definition prompt_messages :: "conversation \<Rightarrow> chat_message list" where
  "prompt_messages c =
     (if cv_system_enabled c \<and> str_trim (cv_system_harness c) \<noteq> []
      then [\<lparr>cm_role = System, cm_content = cv_system_harness c, cm_tool_calls = [],
             cm_tool_call_id = None\<rparr>] else []) @
     map (\<lambda>m. \<lparr>cm_role = (if hm_role m = UserRole then User else Assistant), cm_content = hm_content m,
               cm_tool_calls = [], cm_tool_call_id = None\<rparr>)
       (filter (\<lambda>m. hm_role m = UserRole \<or> hm_role m = AssistantRole \<and> hm_content m \<noteq> [])
         (cv_messages c))"

definition plain_message :: "chat_message \<Rightarrow> bool" where
  "plain_message m \<longleftrightarrow> cm_role m \<noteq> Tool \<and> cm_tool_calls m = [] \<and> cm_tool_call_id m = None"

lemma plain_history: "\<forall>m \<in> set ms. plain_message m \<Longrightarrow> validate_tool_history ms [] = Inr ()"
proof -
  assume plain: "\<forall>m \<in> set ms. plain_message m"
  have "check_messages D ms [] {} = Inr ([], {})" for D
    using plain
  proof (induction ms)
    case (Cons m ms)
    then have "check_message D m [] {} = Inr ([], {})"
      by (cases "cm_role m") (auto simp: check_message_def plain_message_def)
    with Cons show ?case by simp
  qed simp
  then show ?thesis by (simp add: validate_tool_history_def)
qed

lemma prompt_messages_plain: "\<forall>m \<in> set (prompt_messages c). plain_message m"
  by (auto simp: prompt_messages_def plain_message_def)

lemma those_map_Some: "those (map f xs) = Some ys \<longleftrightarrow> map f xs = map Some ys"
  by (induction xs arbitrary: ys) (auto split: option.splits)

text \<open>Each message the client writes is received as the public message of the same prompt message.\<close>

definition public_message :: "chat_message \<Rightarrow> chat_completion_message" where
  "public_message m =
     \<lparr>om_role = (case cm_role m of System \<Rightarrow> OSystem | User \<Rightarrow> OUser | Assistant \<Rightarrow> OAssistant | Tool \<Rightarrow> OTool),
      om_content = Some (JString (cm_content m)), om_tool_calls = [], om_tool_call_id = None\<rparr>"

lemma convert_public_message: "plain_message m \<Longrightarrow> convert_message parse_json (public_message m) = Inr m"
  by (cases "cm_role m")
    (auto simp: convert_message_def public_message_def convert_content_def convert_role_def plain_message_def)

lemma received_messages:
  "map received_message (rq_messages (from_conversation settings c)) =
     map (Some \<circ> public_message) (prompt_messages c)"
proof -
  have "map received_message (List.map_filter api_message_of ms) =
      map (Some \<circ> public_message) (map (\<lambda>m. \<lparr>cm_role = (if hm_role m = UserRole then User else Assistant),
          cm_content = hm_content m, cm_tool_calls = [], cm_tool_call_id = None\<rparr>)
        (filter (\<lambda>m. hm_role m = UserRole \<or> hm_role m = AssistantRole \<and> hm_content m \<noteq> []) ms))" for ms
  proof (induction ms)
    case (Cons m ms)
    then show ?case
      by (cases "hm_role m") (simp_all add: List.map_filter_def api_message_of_def received_message_def
          openai_role_named_def public_message_def)
  qed (simp add: List.map_filter_def)
  then show ?thesis
    by (simp add: from_conversation_def prompt_messages_def received_message_def openai_role_named_def
        public_message_def)
qed

lemma received_from_conversation:
  "received_request (from_conversation settings c) =
     Some \<lparr>cr_model = se_model settings, cr_messages = map public_message (prompt_messages c), cr_tools = [],
           cr_stream = True, cr_max_tokens = Some (se_max_tokens settings), cr_max_completion_tokens = None,
           cr_template = None\<rparr>"
proof -
  have "those (map (Some \<circ> public_message) ms) = Some (map public_message ms)" for ms
    by (simp add: those_map_Some)
  then show ?thesis
    unfolding received_request_def received_messages by (simp add: from_conversation_def)
qed

lemma prompt_push_question:
  "prompt_messages (push_question user assistant content c) =
     prompt_messages c @ [\<lparr>cm_role = User, cm_content = content, cm_tool_calls = [], cm_tool_call_id = None\<rparr>]"
  by (simp add: prompt_messages_def push_question_def Let_def)

lemma prepare_received:
  assumes "h_parse_uuid host (str_trim (h_show_uuid host i)) = Some i"
    and "list_all visible_ascii (h_show_uuid host i)" and "prompt_messages c \<noteq> []"
    and "received_request (from_conversation settings c) = Some public"
  shows "prepare_request host new_id (Some (h_show_uuid host i)) public =
    Inr \<lparr>gr_request_id = new_id, gr_session_id = Some i, gr_model = se_model settings, gr_prompt = None,
         gr_messages = Some (prompt_messages c), gr_template = None, gr_tools = [],
         gr_max_tokens = se_max_tokens settings\<rparr>"
proof -
  have converted: "map (convert_message (h_parse_json host)) (map public_message (prompt_messages c)) =
      map Inr (prompt_messages c)"
    using prompt_messages_plain [of c] by (simp add: convert_public_message)
  have public: "public = \<lparr>cr_model = se_model settings, cr_messages = map public_message (prompt_messages c),
      cr_tools = [], cr_stream = True, cr_max_tokens = Some (se_max_tokens settings),
      cr_max_completion_tokens = None, cr_template = None\<rparr>"
    using assms(4) by (simp add: received_from_conversation)
  show ?thesis
    unfolding prepare_request_def parse_session_id_def try_from_request_def public
    using assms(1-3) plain_history [OF prompt_messages_plain, of c] converted
    by (simp add: validate_tools_def chosen_max_tokens_def del: map_map)
qed

text \<open>
  Every request the client sends passes the coordinator's checks, if the header carries the
  UUID over: the prompt is the conversation's system message, if it is enabled and not blank, its
  questions and its answers that are not empty, in order, and the draft as the last message; error
  messages and empty answers are left out, and the conversation is the session.
\<close>

theorem client_request_accepted:
  assumes "saved_ok (ha_state app)" and "selected app = Some c"
    and "send user assistant app = (app', Some (SpawnChat endpoint request conversation message))"
    and "h_parse_uuid host (str_trim (h_show_uuid host (cv_id c))) = Some (cv_id c)"
    and "list_all visible_ascii (h_show_uuid host (cv_id c))"
  shows "conversation = cv_id c \<and> message = assistant \<and> ha_draft app' = [] \<and>
    (\<exists>public. received_request request = Some public \<and>
       prepare_request host new_id (Some (h_show_uuid host conversation)) public =
         Inr \<lparr>gr_request_id = new_id, gr_session_id = Some conversation,
              gr_model = se_model (sv_settings (ha_state app)), gr_prompt = None,
              gr_messages = Some (prompt_messages c @
                [\<lparr>cm_role = User, cm_content = ha_draft app, cm_tool_calls = [], cm_tool_call_id = None\<rparr>]),
              gr_template = None, gr_tools = [],
              gr_max_tokens = se_max_tokens (sv_settings (ha_state app))\<rparr>)"
proof -
  have idle: "str_trim (ha_draft app) \<noteq> []" "ha_active app = None"
    using assms(3) by (auto simp: send_def split: if_splits)
  let ?c = "push_question user assistant (ha_draft app) c"
  let ?settings = "sv_settings (ha_state app)"
  note run = send_run [OF assms(1) idle assms(2), of user assistant]
  have request: "request = from_conversation ?settings ?c" "conversation = cv_id c" "message = assistant"
    and draft: "ha_draft app' = []"
    using run assms(3) by (auto simp: change_conversation_def)
  obtain public where public: "received_request request = Some public"
    by (simp add: request received_from_conversation)
  have "prompt_messages ?c \<noteq> []" by (simp add: prompt_push_question)
  from prepare_received [OF assms(4,5) this public [unfolded request(1)], of new_id] show ?thesis
    using public request draft by (simp add: prompt_push_question)
qed

lemma demo_draft: "str_trim ''d'' \<noteq> []"
  by code_simp

theorem client_request_accepted_witness:
  "\<exists>public r. received_request (from_conversation settings_default (push_question 3 4 ''d'' (demo_conversation 2))) =
       Some public \<and>
     prepare_request (demo_host\<lparr>h_parse_uuid := (\<lambda>_. Some 2)\<rparr>) 9 (Some ''seven'') public = Inr r \<and>
     gr_session_id r = Some 2"
proof -
  have sel: "selected demo_app = Some (demo_conversation 2)"
    by (simp add: selected_def find_conversation_def demo_app_def harness_new_def refresh_models_def
        demo_conversation_def conversation_new_def)
  have sent: "send 3 4 demo_app = (fst (send 3 4 demo_app), Some (SpawnChat (se_endpoint settings_default)
      (from_conversation settings_default (push_question 3 4 ''d'' (demo_conversation 2))) 2 4))"
    using sel by (simp add: send_def demo_app_def harness_new_def refresh_models_def demo_draft Let_def selected_def
        find_conversation_def demo_conversation_def conversation_new_def)
  have "list_all visible_ascii ''seven''" by code_simp
  then show ?thesis
    using client_request_accepted [OF demo_app_ok(2) sel sent, of "demo_host\<lparr>h_parse_uuid := (\<lambda>_. Some 2)\<rparr>" 9]
    by (auto simp: demo_host_def demo_conversation_def conversation_new_def)
qed

section \<open>Public streams\<close>

text \<open>The bytes of one event of a public stream: \<open>json_event\<close>, the end marker, and \<open>send_error\<close>,
  which names its event.\<close>

definition public_frame ::
  "(chat_completion_chunk \<Rightarrow> string) \<Rightarrow> (string \<Rightarrow> string) \<Rightarrow> public_event \<Rightarrow> bytes" where
  "public_frame print_chunk print_error event =
     (case event of
        ChunkEvent c \<Rightarrow> sse_encode (print_chunk c)
      | DoneEvent \<Rightarrow> sse_encode ''[DONE]''
      | ErrorEvent m \<Rightarrow> ''event: error'' @ LF # sse_encode (print_error m))"

text \<open>What the two JSON libraries are relied on for: a printed chunk or error is a line of valid
  UTF-8, and the parsed chunk has the text of the first choice's delta, if it has any.\<close>

definition chunk_text :: "chat_completion_chunk \<Rightarrow> string option" where
  "chunk_text c = ad_content (ch_delta (hd (ck_choices c)))"

definition prints_public ::
  "(string \<Rightarrow> string + json_value) \<Rightarrow> (chat_completion_chunk \<Rightarrow> string) \<Rightarrow> (string \<Rightarrow> string) \<Rightarrow>
   public_event list \<Rightarrow> bool" where
  "prints_public parse_json print_chunk print_error events \<longleftrightarrow>
     (\<forall>event \<in> set events.
        (case event of
           DoneEvent \<Rightarrow> True
         | ChunkEvent c \<Rightarrow>
             sse_payload (print_chunk c) \<and> print_chunk c \<notin> {[], ''[DONE]''} \<and>
             (case parse_json (print_chunk c) of Inr v \<Rightarrow> delta_content v = chunk_text c | Inl _ \<Rightarrow> False)
         | ErrorEvent m \<Rightarrow>
             sse_payload (print_error m) \<and> print_error m \<notin> {[], ''[DONE]''} \<and>
             (case parse_json (print_error m) of Inr v \<Rightarrow> delta_content v = None | Inl _ \<Rightarrow> False)))"

text \<open>The events the client makes of the public ones.\<close>

fun shown :: "uuid \<Rightarrow> uuid \<Rightarrow> public_event \<Rightarrow> event list" where
  "shown c m (ChunkEvent ck) = (case chunk_text ck of Some t \<Rightarrow> [DeltaEvent c m t] | None \<Rightarrow> [])"
| "shown c m DoneEvent = [CompletedEvent c]"
| "shown c m (ErrorEvent _) = []"

lemma frame_data_encode: "sse_payload p \<Longrightarrow> frame_data (sse_encode p) = p"
  by (simp add: frame_data_def utf8_lossy_valid utf8_valid_encode data_lines_encode)

lemma frame_data_error:
  assumes "sse_payload p"
  shows "frame_data (''event: error'' @ LF # sse_encode p) = p"
proof -
  have valid: "utf8_valid (''event: error'' @ LF # sse_encode p)"
    using utf8_valid_append [of "''event: error'' @ [LF]" "sse_encode p"] utf8_valid_encode [OF assms]
    by (simp add: in_range_def)
  have lines: "str_lines (''event: error'' @ LF # sse_encode p) = ''event: error'' # str_lines (sse_encode p)"
    using lines_acc_no_LF [of "''event: error''" "[]" "sse_encode p"]
    by (simp add: str_lines_def strip_cr_def)
  have "data_lines (''event: error'' @ LF # sse_encode p) = data_lines (sse_encode p)"
    unfolding data_lines_def lines by (simp add: List.map_filter_def)
  with assms show ?thesis
    unfolding frame_data_def utf8_lossy_valid [OF valid] by (simp add: data_lines_encode)
qed

lemma find_sub_skip: "hd (x # xs) \<noteq> LF \<or> hd xs \<noteq> LF \<Longrightarrow> find_sub [LF, LF] (x # xs) = map_option Suc (find_sub [LF, LF] xs)"
  by (cases xs) (auto simp: starts_with_def)

lemma frame_end_error:
  assumes "LF \<notin> set p"
  shows "harness_frame_end ((''event: error'' @ LF # sse_encode p) @ rest) =
    Some (length (''event: error'' @ LF # sse_encode p))"
proof -
  have encoded: "find_sub [LF, LF] (sse_encode p @ rest) = Some (length (''data: '' @ p))"
    using find_sub_LF [of "''data: '' @ p" rest] assms by (simp add: sse_encode_def del: find_sub.simps)
  have start: "hd (sse_encode p @ rest) \<noteq> LF" by (simp add: sse_encode_def)
  have "find_sub [LF, LF] ((''event: error'' @ LF # sse_encode p) @ rest) =
      Some (length (''event: error'' @ LF # ''data: '' @ p))"
    using encoded start by (simp add: find_sub_skip del: find_sub.simps)
  then show ?thesis by (simp add: harness_frame_end_def sse_encode_def del: find_sub.simps)
qed

lemma split_frames_complete:
  assumes "\<And>f rest. f \<in> set fs \<Longrightarrow> harness_frame_end (f @ rest) = Some (length f)"
  shows "split_frames harness_frame_end (concat fs) = (fs, [])"
  using assms
proof (induction fs)
  case Nil
  then show ?case by (simp add: harness_frames.split_frames_None harness_frame_end_Nil)
next
  case (Cons f fs)
  then have "harness_frame_end (f @ concat fs) = Some (length f)" by simp
  with Cons show ?case by (simp add: harness_frames.split_frames_Some)
qed

lemma public_frame_end:
  assumes "prints_public parse_json print_chunk print_error events" and "e \<in> set events"
  shows "harness_frame_end (public_frame print_chunk print_error e @ rest) =
    Some (length (public_frame print_chunk print_error e))"
proof (cases e)
  case (ChunkEvent ck)
  with assms have "LF \<notin> set (print_chunk ck)" by (force simp: prints_public_def sse_payload_def)
  with ChunkEvent show ?thesis by (simp add: public_frame_def frame_end_encode)
next
  case DoneEvent
  then show ?thesis using frame_end_encode [of "''[DONE]''" rest] by (simp add: public_frame_def)
next
  case (ErrorEvent msg)
  with assms have "LF \<notin> set (print_error msg)" by (force simp: prints_public_def sse_payload_def)
  with ErrorEvent frame_end_error show ?thesis by (simp add: public_frame_def)
qed

lemma split_public_frames:
  "prints_public parse_json print_chunk print_error events \<Longrightarrow>
   split_frames harness_frame_end (concat (map (public_frame print_chunk print_error) events)) =
     (map (public_frame print_chunk print_error) events, [])"
  by (rule split_frames_complete) (auto simp: public_frame_end)

lemma chat_frame_public:
  assumes "prints_public parse_json print_chunk print_error events" and "e \<in> set events"
  shows "chat_frame parse_json c m (public_frame print_chunk print_error e) = (shown c m e, e = DoneEvent)"
proof (cases e)
  case (ChunkEvent ck)
  with assms have "sse_payload (print_chunk ck)" "print_chunk ck \<noteq> []" "print_chunk ck \<noteq> ''[DONE]''"
    "case parse_json (print_chunk ck) of Inr v \<Rightarrow> delta_content v = chunk_text ck | Inl _ \<Rightarrow> False"
    by (force simp: prints_public_def)+
  with ChunkEvent show ?thesis
    by (auto simp: public_frame_def chat_frame_def frame_data_encode split: sum.splits option.split)
next
  case DoneEvent
  then show ?thesis
    by (simp add: public_frame_def chat_frame_def frame_data_encode sse_payload_done)
next
  case (ErrorEvent msg)
  with assms have "sse_payload (print_error msg)" "print_error msg \<noteq> []" "print_error msg \<noteq> ''[DONE]''"
    "case parse_json (print_error msg) of Inr v \<Rightarrow> delta_content v = None | Inl _ \<Rightarrow> False"
    by (force simp: prints_public_def)+
  with ErrorEvent show ?thesis
    using frame_data_error [of "print_error msg"]
    by (auto simp: public_frame_def chat_frame_def Let_def split: sum.splits)
qed

text \<open>The client takes the events up to the first end marker.\<close>

lemma frames_events_public:
  "prints_public parse_json print_chunk print_error events \<Longrightarrow>
   frames_events parse_json c m (map (public_frame print_chunk print_error) events) =
     (concat (map (shown c m) (takeWhile (\<lambda>e. e \<noteq> DoneEvent) events)) @
        (if DoneEvent \<in> set events then [CompletedEvent c] else []), DoneEvent \<in> set events)"
proof (induction events)
  case (Cons e events)
  then have "prints_public parse_json print_chunk print_error events"
    by (simp add: prints_public_def)
  note IH = Cons.IH [OF this]
  show ?case
    using chat_frame_public [OF Cons.prems, of e c m] by (simp add: IH)
qed simp

lemma stream_chat_public:
  assumes "prints_public parse_json print_chunk print_error events"
    and "concat chunks = concat (map (public_frame print_chunk print_error) events)"
  shows "stream_chat parse_json c m (ReplyBody (map (BodyTurn \<circ> Inr) chunks @ turns)) =
    concat (map (shown c m) (takeWhile (\<lambda>e. e \<noteq> DoneEvent) events)) @
    (if DoneEvent \<in> set events then [CompletedEvent c] else chat_turns parse_json c m [] turns)"
  by (simp add: stream_chat_def chat_turns_body assms(2) split_public_frames [OF assms(1)]
      frames_events_public [OF assms(1)])

text \<open>The public events among the effects of a forwarding task.\<close>

definition sent_events :: "effect list \<Rightarrow> public_event list" where
  "sent_events effects = List.map_filter (\<lambda>e. case e of Sent p \<Rightarrow> Some p | _ \<Rightarrow> None) effects"

lemma sent_events_simps [simp]:
  "sent_events [] = []"
  "sent_events (Sent p # es) = p # sent_events es"
  "sent_events (RegistryOp r # es) = sent_events es"
  by (simp_all add: sent_events_def List.map_filter_def)

lemma sent_events_append: "sent_events (xs @ ys) = sent_events xs @ sent_events ys"
  by (simp add: sent_events_def List.map_filter_def)

lemma sent_events_map: "sent_events (map Sent ps) = ps"
  by (induction ps) simp_all

lemma shown_deltas:
  "concat (map (shown c m) (map ChunkEvent (role_chunk ctx # map (text_chunk ctx) ts @ completed_chunks pj ctx i n calls fr))) =
     map (DeltaEvent c m) ts"
proof -
  have "concat (map (shown c m) (map (ChunkEvent \<circ> text_chunk ctx) ts)) = map (DeltaEvent c m) ts"
    by (induction ts) (simp_all add: chunk_defs chunk_text_def)
  then show ?thesis by (simp add: chunk_defs chunk_text_def completed_chunks_def o_def)
qed

section \<open>From the worker to the screen\<close>

lemma answer_text_deltas: "answer_text (map (DeltaEvent c m) ts @ [e]) = concat ts @ answer_text [e]"
  by (induction ts) simp_all

lemma shown_public_stream:
  assumes "prints_public parse_json print_chunk print_error (public_stream host ctx ts i n calls fr)"
    and "concat chunks = concat (map (public_frame print_chunk print_error) (public_stream host ctx ts i n calls fr))"
  shows "stream_chat parse_json c m (ReplyBody (map (BodyTurn \<circ> Inr) chunks @ turns)) =
    map (DeltaEvent c m) ts @ [CompletedEvent c]"
proof -
  let ?cks = "role_chunk ctx # map (text_chunk ctx) ts @ completed_chunks (h_print_json host) ctx i n calls fr"
  have public: "public_stream host ctx ts i n calls fr = map ChunkEvent ?cks @ [DoneEvent]"
    by (simp add: public_stream_def)
  have "takeWhile (\<lambda>e. e \<noteq> DoneEvent) (map ChunkEvent ?cks @ [DoneEvent]) = map ChunkEvent ?cks"
    by (subst takeWhile_append2) auto
  moreover have "DoneEvent \<in> set (map ChunkEvent ?cks @ [DoneEvent])" by simp
  ultimately show ?thesis
    using stream_chat_public [OF assms, of c m turns] shown_deltas [of c m ctx ts "h_print_json host" i n calls fr]
    unfolding public by (simp only: if_True)
qed

lemma answer_shown:
  assumes "prints_events host print_event (map TextDelta ts @ [Completed i n calls fr])"
    and "concat chunks = worker_body print_event (map TextDelta ts @ [Completed i n calls fr])"
    and "events = sent_events (fw_trace (forward_worker_stream host task None (map Inr chunks)))"
    and "prints_public parse_json print_chunk print_error events"
    and "concat chunks' = concat (map (public_frame print_chunk print_error) events)"
    and "ha_active app = Some a" and "ac_conversation a = c"
    and "message_text app c m = Some x"
    and "length ids = Suc (length ts)"
  shows "let shown_events = stream_chat parse_json c m (ReplyBody (map (BodyTurn \<circ> Inr) chunks' @ turns));
             app' = process_events (zip ids shown_events) app
         in shown_events = map (DeltaEvent c m) ts @ [CompletedEvent c] \<and>
            message_text app' c m = Some (x @ concat ts) \<and> ha_active app' = None"
proof -
  have events: "events = public_stream host (st_context task) ts i n calls fr"
    by (simp add: assms(3) forwarded_completely [OF assms(1,2)] sent_events_append sent_events_map)
  note stream = shown_public_stream [OF assms(4) [unfolded events] assms(5) [unfolded events], of c m turns]
  have "filter chat_event (map (DeltaEvent c m) ts @ [CompletedEvent c]) = map (DeltaEvent c m) ts @ [CompletedEvent c]"
    by (simp add: filter_id_conv)
  from process_stream [OF this _ assms(6,7,8), of ids] assms(9) show ?thesis
    unfolding Let_def stream by (simp add: answer_text_deltas del: process_event.simps)
qed

text \<open>
  What a worker streams ends up on the screen: when a worker streams text deltas and a
  completion, however the bytes are cut on the way to the coordinator and on the way to the
  client, the client's task sends these deltas and the completion; once the application has
  processed them, the answer has grown by exactly the worker's text and the stream is over.
\<close>

theorem answer_reaches_client:
  assumes "prints_events host print_event (map TextDelta ts @ [Completed i n calls fr])"
    and "concat chunks = worker_body print_event (map TextDelta ts @ [Completed i n calls fr])"
    and "events = sent_events (fw_trace (forward_worker_stream host task None (map Inr chunks)))"
    and "prints_public parse_json print_chunk print_error events"
    and "concat chunks' = concat (map (public_frame print_chunk print_error) events)"
    and "ha_active app = Some a" and "ac_conversation a = c"
    and "message_text app c m = Some x"
    and "length ids = Suc (length ts)"
  shows "let shown_events = stream_chat parse_json c m (ReplyBody (map (BodyTurn \<circ> Inr) chunks' @ turns));
             app' = process_events (zip ids shown_events) app
         in shown_events = map (DeltaEvent c m) ts @ [CompletedEvent c] \<and>
            message_text app' c m = Some (x @ concat ts) \<and> ha_active app' = None"
  using assms by (rule answer_shown)

text \<open>
  C40. The text of a failure is lost on its way to the screen: when a worker reports an error in
  its stream, the coordinator passes the message on in an error event and ends the stream, but
  the client ignores the event and shows the same text whatever the message was.
\<close>

theorem error_message_lost:
  assumes "prints_events host print_event (map TextDelta ts @ [StreamError msg])"
    and "concat chunks = worker_body print_event (map TextDelta ts @ [StreamError msg])"
    and "events = sent_events (fw_trace (forward_worker_stream host task None (map Inr chunks)))"
    and "prints_public parse_json print_chunk print_error events"
    and "concat chunks' = concat (map (public_frame print_chunk print_error) events)"
  shows "ErrorEvent msg \<in> set events \<and>
    stream_chat parse_json c m (ReplyBody (map (BodyTurn \<circ> Inr) chunks')) =
      map (DeltaEvent c m) ts @ [FailedEvent c ''Stream ended before [DONE]'']"
proof -
  let ?ctx = "st_context task"
  let ?cks = "role_chunk ?ctx # map (text_chunk ?ctx) ts"
  have texts: "prints_events host print_event (map TextDelta ts)"
    using assms(1) by (simp add: prints_events_def)
  have last: "handle_frame host task (sse_encode (print_event (StreamError msg))) False s =
      handle_event host task (StreamError msg) False s" for s
    using assms(1) by (rule handle_frame_event) simp
  have "fw_trace (forward_worker_stream host task None (map Inr chunks)) =
      map Sent (map ChunkEvent ?cks @ [ErrorEvent msg]) @ [RegistryOp (Release (sw_id (st_worker task)))]"
    (is "?trace = _")
    by (simp add: forward_worker_stream_def forward_body_chunks feed_worker_body [OF assms(1,2)] handle_frames_append
        handle_text_frames [OF texts, unfolded o_def] last handle_event_def send_event_outcome send_error_def
        sent_all_def release_slot_def emit_def o_def)
  then have "sent_events ?trace = map ChunkEvent ?cks @ [ErrorEvent msg]"
    by (simp only: sent_events_append sent_events_map) simp
  then have events: "events = map ChunkEvent ?cks @ [ErrorEvent msg]" using assms(3) by simp
  have no_done: "DoneEvent \<notin> set events" by (auto simp: events)
  then have all: "takeWhile (\<lambda>e. e \<noteq> DoneEvent) events = events" by (metis (mono_tags, lifting) takeWhile_eq_all_conv)
  have "concat (map (shown c m) (map (ChunkEvent \<circ> text_chunk ?ctx) ts)) = map (DeltaEvent c m) ts"
    by (induction ts) (simp_all add: chunk_defs chunk_text_def)
  then have shown: "concat (map (shown c m) events) = map (DeltaEvent c m) ts"
    by (simp add: events chunk_defs chunk_text_def o_def)
  have "stream_chat parse_json c m (ReplyBody (map (BodyTurn \<circ> Inr) chunks')) =
      map (DeltaEvent c m) ts @ [FailedEvent c ''Stream ended before [DONE]'']"
    using stream_chat_public [OF assms(4,5), of c m "[]"] no_done all shown by simp
  then show ?thesis by (simp add: events)
qed

text \<open>A chunk with a text prints as \<open>T\<close> and the text, everything else as \<open>N\<close>.\<close>

definition demo_print_chunk :: "chat_completion_chunk \<Rightarrow> string" where
  "demo_print_chunk c = (case chunk_text c of Some t \<Rightarrow> CHR ''T'' # t | None \<Rightarrow> ''N'')"

definition demo_parse_chunk :: "string \<Rightarrow> string + json_value" where
  "demo_parse_chunk payload = (if payload = ''N'' then Inr JNull else demo_chat_json (tl payload))"

definition demo_worker_events :: "generation_stream_event list" where
  "demo_worker_events = map TextDelta [''a'', ''b''] @ [Completed 3 1 [] Stop]"

definition demo_public_events :: "public_event list" where
  "demo_public_events =
     sent_events (fw_trace (forward_worker_stream demo_host demo_task None
       (map Inr [worker_body demo_print_event demo_worker_events])))"

theorem answer_reaches_client_witness:
  "message_text (process_events (zip [5, 6, 7] [DeltaEvent 1 3 ''a'', DeltaEvent 1 3 ''b'', CompletedEvent 1])
     (hs_app demo_sent)) 1 3 = Some ''ab''"
proof -
  have prints: "prints_events demo_host demo_print_event (map TextDelta [''a'', ''b''] @ [Completed 3 1 [] Stop])"
    by code_simp
  have body: "concat [worker_body demo_print_event demo_worker_events] =
      worker_body demo_print_event (map TextDelta [''a'', ''b''] @ [Completed 3 1 [] Stop])"
    by (simp add: demo_worker_events_def)
  have public: "prints_public demo_parse_chunk demo_print_chunk (\<lambda>_. ''N'') demo_public_events"
    by code_simp
  obtain a where a: "ha_active (hs_app demo_sent) = Some a" "ac_conversation a = 1"
    using demo_sent_app(2) by auto
  have chunks: "concat [concat (map (public_frame demo_print_chunk (\<lambda>_. ''N'')) demo_public_events)] =
      concat (map (public_frame demo_print_chunk (\<lambda>_. ''N'')) demo_public_events)"
    by simp
  have ids: "length [5, 6, 7 :: uuid] = Suc (length [''a'', ''b''])" by simp
  show ?thesis
    using answer_reaches_client [OF prints body demo_public_events_def public chunks a demo_sent_app(1) ids, of "[]"]
    by (auto simp: Let_def simp del: process_event.simps process_events_simps)
qed

definition demo_failing_host :: host where
  "demo_failing_host = demo_host\<lparr>h_parse_event := (\<lambda>payload. case payload of
     [] \<Rightarrow> Inl [] | c # rest \<Rightarrow> if c = CHR ''E'' then Inr (StreamError rest) else Inr (TextDelta rest))\<rparr>"

definition demo_error_events :: "public_event list" where
  "demo_error_events =
     sent_events (fw_trace (forward_worker_stream demo_failing_host demo_task None
       (map Inr [worker_body demo_print_event [TextDelta ''a'', StreamError ''no memory'']])))"

theorem error_message_lost_witness:
  "ErrorEvent ''no memory'' \<in> set demo_error_events \<and>
   stream_chat demo_parse_chunk 1 3 (ReplyBody (map (BodyTurn \<circ> Inr)
     [concat (map (public_frame demo_print_chunk (\<lambda>_. ''N'')) demo_error_events)])) =
     [DeltaEvent 1 3 ''a'', FailedEvent 1 ''Stream ended before [DONE]'']"
proof -
  have prints: "prints_events demo_failing_host demo_print_event (map TextDelta [''a''] @ [StreamError ''no memory''])"
    by code_simp
  have body: "concat [worker_body demo_print_event [TextDelta ''a'', StreamError ''no memory'']] =
      worker_body demo_print_event (map TextDelta [''a''] @ [StreamError ''no memory''])"
    by simp
  have public: "prints_public demo_parse_chunk demo_print_chunk (\<lambda>_. ''N'') demo_error_events"
    by code_simp
  have chunks: "concat [concat (map (public_frame demo_print_chunk (\<lambda>_. ''N'')) demo_error_events)] =
      concat (map (public_frame demo_print_chunk (\<lambda>_. ''N'')) demo_error_events)"
    by simp
  show ?thesis
    using error_message_lost [OF prints body demo_error_events_def public chunks, of 1 3] by simp
qed

end
