(* ===== verification/Wire_Service.thy ===== *)
theory Wire_Service
  imports Wire_Public Harness_Service
begin

text \<open>
  The processes over JSON: what the worker prints the coordinator parses, what the coordinator
  prints the desktop client parses, and the other way round for requests. Only the text of a JSON
  value is left to serde_json: its compact text is one line of UTF-8 that parses to the value.
  Members are kept in the order of the text; that a parsed \<open>Value\<close> sorts them makes no difference
  here, since they are looked up by name.
\<close>

section \<open>The text of a value\<close>

definition json_text :: "(json_value \<Rightarrow> string) \<Rightarrow> (string \<Rightarrow> json_value option) \<Rightarrow> json_value \<Rightarrow> bool" where
  "json_text print parse v \<longleftrightarrow>
     parse (print v) = Some v \<and> sse_payload (print v) \<and>
     (is_object v \<longrightarrow> starts_with ''{'' (print v))"

text \<open>\<open>serde_json::from_str\<close> into an event, a worker's answer and a \<open>Value\<close>; \<open>message\<close> is the text of its error.\<close>

definition parse_event_with ::
  "(string \<Rightarrow> json_value option) \<Rightarrow> (string \<Rightarrow> string) \<Rightarrow> string \<Rightarrow> string + generation_stream_event" where
  "parse_event_with parse message text =
     (case Option.bind (parse text) dec_stream_event of Some e \<Rightarrow> Inr e | None \<Rightarrow> Inl (message text))"

definition parse_response_with ::
  "(string \<Rightarrow> json_value option) \<Rightarrow> (string \<Rightarrow> uuid option) \<Rightarrow> (string \<Rightarrow> string) \<Rightarrow> string \<Rightarrow>
   string + generate_response" where
  "parse_response_with parse parse_uuid message text =
     (case Option.bind (parse text) (dec_generate_response parse_uuid) of Some r \<Rightarrow> Inr r | None \<Rightarrow> Inl (message text))"

definition parse_value_with ::
  "(string \<Rightarrow> json_value option) \<Rightarrow> (string \<Rightarrow> string) \<Rightarrow> string \<Rightarrow> string + json_value" where
  "parse_value_with parse message text =
     (case parse text of Some v \<Rightarrow> Inr v | None \<Rightarrow> Inl (message text))"

lemma json_object_text:
  "json_text print parse v \<Longrightarrow> is_object v \<Longrightarrow> print v \<notin> {[], ''[DONE]''}"
  by (auto simp: json_text_def starts_with_iff)

section \<open>The worker's stream\<close>

lemma enc_stream_event_object [simp]: "is_object (enc_stream_event e)"
  by (cases e) simp_all

lemma prints_events_wire:
  assumes "h_parse_event host = parse_event_with parse message"
    and "\<forall>e \<in> set events. json_text print parse (enc_stream_event e)"
  shows "prints_events host (print \<circ> enc_stream_event) events"
  using assms json_object_text [of print parse "enc_stream_event e" for e]
  by (force simp: prints_events_def json_text_def parse_event_with_def dec_stream_event_encoded)

section \<open>The public stream\<close>

lemma json_child_object: "json_child k index (JObject ms) = map_of ms k"
  by (simp add: json_child_def json_get_def)

lemma map_of_skips [simp]:
  "map_of (skip_none k' enc x) k = (if k = k' then map_option enc x else None)"
  "map_of (skip_empty k' enc' xs) k = (if k = k' \<and> xs \<noteq> [] then Some (JArray (map enc' xs)) else None)"
  by (auto simp: skip_none_def skip_empty_def split: option.split)

lemma delta_content_chunk: "ck_choices c \<noteq> [] \<Longrightarrow> delta_content (enc_completion_chunk c) = chunk_text c"
  by (cases "ck_choices c"; cases "ad_content (ch_delta (hd (ck_choices c)))")
    (simp_all add: delta_content_def enc_completion_chunk_def json_child_object json_child_def [of _ _ "JArray _"]
      enc_chunk_choice_def enc_assistant_delta_def chunk_text_def as_str_def map_add_def)

lemma delta_content_error: "delta_content (enc_stream_error m) = None"
  by (simp add: delta_content_def enc_stream_error_def json_child_object)

lemma public_objects [simp]: "is_object (enc_completion_chunk c)" "is_object (enc_stream_error m)"
  by (simp_all add: enc_completion_chunk_def enc_stream_error_def)

text \<open>The value an event carries, if it carries one; the end marker is not JSON.\<close>

fun public_value :: "public_event \<Rightarrow> json_value option" where
  "public_value (ChunkEvent c) = Some (enc_completion_chunk c)"
| "public_value DoneEvent = None"
| "public_value (ErrorEvent m) = Some (enc_stream_error m)"

lemma prints_public_wire:
  assumes "\<forall>e \<in> set events. \<forall>v. public_value e = Some v \<longrightarrow> json_text print parse v"
    and "\<forall>c. ChunkEvent c \<in> set events \<longrightarrow> ck_choices c \<noteq> []"
  shows "prints_public (parse_value_with parse message) (print \<circ> enc_completion_chunk)
    (print \<circ> enc_stream_error) events"
  unfolding prints_public_def
proof
  fix e assume e: "e \<in> set events"
  show "case e of DoneEvent \<Rightarrow> True
     | ChunkEvent c \<Rightarrow>
         sse_payload ((print \<circ> enc_completion_chunk) c) \<and> (print \<circ> enc_completion_chunk) c \<notin> {[], ''[DONE]''} \<and>
         (case parse_value_with parse message ((print \<circ> enc_completion_chunk) c) of
            Inr v \<Rightarrow> delta_content v = chunk_text c | Inl _ \<Rightarrow> False)
     | ErrorEvent m \<Rightarrow>
         sse_payload ((print \<circ> enc_stream_error) m) \<and> (print \<circ> enc_stream_error) m \<notin> {[], ''[DONE]''} \<and>
         (case parse_value_with parse message ((print \<circ> enc_stream_error) m) of
            Inr v \<Rightarrow> delta_content v = None | Inl _ \<Rightarrow> False)"
  proof (cases e)
    case (ChunkEvent c)
    with assms e have "json_text print parse (enc_completion_chunk c)" "ck_choices c \<noteq> []" by auto
    with ChunkEvent json_object_text [OF this(1)] show ?thesis
      by (simp add: json_text_def parse_value_with_def delta_content_chunk)
  next
    case (ErrorEvent m)
    with assms(1) e have "json_text print parse (enc_stream_error m)" by auto
    with ErrorEvent json_object_text [OF this] show ?thesis
      by (simp add: json_text_def parse_value_with_def delta_content_error)
  qed simp
qed

section \<open>The client's request\<close>

definition enc_api_message :: "api_message \<Rightarrow> json_value" where
  "enc_api_message m = JObject [(''role'', JString (ap_role m)), (''content'', JString (ap_text m))]"

definition enc_api_request :: "api_request \<Rightarrow> json_value" where
  "enc_api_request r =
     JObject [(''model'', JString (rq_model r)), (''messages'', JArray (map enc_api_message (rq_messages r))),
              (''max_tokens'', enc_u64 (rq_max_tokens r)), (''stream'', JBool (rq_stream r))]"

lemma dec_api_message: "dec_completion_message (enc_api_message m) = received_message m"
  by (cases "openai_role_named (ap_role m)")
    (simp_all add: dec_completion_message_def enc_api_message_def received_message_def openai_role_named_def
      dec_openai_role_def defaulted_def nullable_def wire del: map_of.simps)

text \<open>
  The coordinator reads of the client's body exactly what \<open>received_request\<close> says: model,
  messages, token limit and the stream flag, and neither tools nor a template.
\<close>

lemma dec_api_request: "dec_completion_request (enc_api_request r) = received_request r"
proof -
  have "dec_list dec_completion_message (JArray (map enc_api_message ms)) = those (map received_message ms)" for ms
    by (simp add: dec_list_def o_def dec_api_message)
  then show ?thesis
    by (cases "those (map received_message (rq_messages r))")
      (simp_all add: dec_completion_request_def enc_api_request_def received_request_def defaulted_def
        nullable_def wire)
qed

section \<open>The client's list of models\<close>

text \<open>\<open>ModelList\<close> and \<open>Model\<close> of the client read the ids only. \<open>reply\<close>: the body of a success, or
  the message of a failed request or of another status.\<close>

definition dec_model_list :: "string list decoder" where
  "dec_model_list v = do {
     ms \<leftarrow> dec_object v;
     required (dec_list (\<lambda>m. do {ms \<leftarrow> dec_object m; required as_str ''id'' ms})) ''data'' ms}"

definition fetch_models ::
  "(string \<Rightarrow> json_value option) \<Rightarrow> (string \<Rightarrow> string) \<Rightarrow> string + string \<Rightarrow> string + string list" where
  "fetch_models parse message reply =
     (case reply of
        Inl e \<Rightarrow> Inl e
      | Inr body \<Rightarrow>
          (case Option.bind (parse body) dec_model_list of Some ids \<Rightarrow> Inr ids | None \<Rightarrow> Inl (message body)))"

lemma dec_model_list_encoded: "dec_model_list (enc_models_response r) = Some (map md_id (ms_data r))"
proof -
  have "those (map ((\<lambda>m. do {ms \<leftarrow> dec_object m; required as_str ''id'' ms}) \<circ> enc_openai_model) ms) =
      Some (map md_id ms)" for ms
    by (induction ms) (simp_all add: enc_openai_model_def wire)
  then show ?thesis
    by (simp add: dec_model_list_def enc_models_response_def dec_list_def wire)
qed

text \<open>
  C28. The client offers the coordinator's models: after the answer to a discovery request is
  processed, the list shown is the sorted list of the models some worker that is not offline has
  loaded, and the chosen model is one of them; it stays the same if it still is, and it is empty only if
  there is none.
\<close>

theorem discovered_models:
  assumes "json_text print parse (enc_models_response (models_handler reg))"
    and "app' = process_event new_id
      (ModelsEvent (fetch_models parse message (Inr (print (enc_models_response (models_handler reg)))))) app"
  defines "chosen \<equiv> se_model (sv_settings (ha_state app'))"
    and "before \<equiv> se_model (sv_settings (ha_state app))"
  shows "ha_models app' = sorted_list_of_set (loaded_model_ids reg) \<and> ha_connected app' \<and>
    (if loaded_model_ids reg = {} then chosen = []
     else chosen \<in> loaded_model_ids reg \<and> (before \<in> loaded_model_ids reg \<longrightarrow> chosen = before))"
proof -
  note ids = available_models_correct [of reg] set_available_models [of reg]
  have "fetch_models parse message (Inr (print (enc_models_response (models_handler reg)))) = Inr (available_models reg)"
    using assms(1) by (simp add: fetch_models_def json_text_def dec_model_list_encoded models_handler_def o_def)
  then show ?thesis
    using ids(2) unfolding chosen_def before_def assms(2)
    by (cases "available_models reg") (auto simp: selected_discovered_model_def simp flip: ids(1))
qed

section \<open>Sample texts\<close>

text \<open>Compact JSON for values whose strings need no escape, and a parser that knows some values.\<close>

fun sample_json :: "json_value \<Rightarrow> string" where
  "sample_json JNull = ''null''"
| "sample_json (JBool b) = (if b then ''true'' else ''false'')"
| "sample_json (JNumber s) = s"
| "sample_json (JString s) = CHR 0x22 # s @ [CHR 0x22]"
| "sample_json (JArray vs) = ''['' @ str_join '','' (map sample_json vs) @ '']''"
| "sample_json (JObject ms) =
     ''{'' @ str_join '','' (map (\<lambda>(k, v). CHR 0x22 # k @ CHR 0x22 # CHR '':'' # sample_json v) ms) @ ''}''"

definition demo_parse :: "json_value list \<Rightarrow> string \<Rightarrow> json_value option" where
  "demo_parse vs text = find (\<lambda>v. sample_json v = text) vs"

definition demo_models :: json_value where
  "demo_models = enc_models_response (models_handler demo_registry)"

theorem discovered_models_witness:
  "ha_models (process_event 9 (ModelsEvent (fetch_models (demo_parse [demo_models]) (\<lambda>_. [])
     (Inr (sample_json demo_models)))) demo_app) = sorted_list_of_set (loaded_model_ids demo_registry)"
proof -
  have "json_text sample_json (demo_parse [enc_models_response (models_handler demo_registry)])
      (enc_models_response (models_handler demo_registry))"
    by code_simp
  from discovered_models [OF this refl, of 9 "\<lambda>_. []" demo_app] show ?thesis
    by (simp add: demo_models_def)
qed

end
