(* ===== verification/Cli.thy ===== *)
theory Cli
  imports Wire_Service
begin

text \<open>
  The command-line client, \<open>crates/client/src/main.rs\<close>: one request that is not streamed, and its
  answer printed. Parsing the arguments is clap's, HTTP is reqwest's.
\<close>

record cli_args =
  cl_coordinator :: string
  cl_model :: string
  cl_prompt :: string
  cl_max_tokens :: usize

text \<open>The defaults of the options; the prompt is required.\<close>

definition cli_args_default :: "string \<Rightarrow> cli_args" where
  "cli_args_default prompt =
     \<lparr>cl_coordinator = ''http://127.0.0.1:8000'', cl_model = ''qwen2.5-0.5b-instruct-q4-k-m'',
      cl_prompt = prompt, cl_max_tokens = 100\<rparr>"

definition cli_url :: "cli_args \<Rightarrow> string" where
  "cli_url args = trim_end_slashes (cl_coordinator args) @ ''/v1/chat/completions''"

text \<open>The body is a \<open>Value\<close>, whose members are in the order of their names.\<close>

definition cli_body :: "cli_args \<Rightarrow> json_value" where
  "cli_body args =
     JObject [(''max_tokens'', enc_u64 (cl_max_tokens args)),
              (''messages'', JArray [JObject [(''content'', JString (cl_prompt args)), (''role'', JString ''user'')]]),
              (''model'', JString (cl_model args))]"

text \<open>What is printed, or the error the process ends with. \<open>reply\<close>: the body of a success, or the
  message of a request that failed or of another status; \<open>pretty\<close> is \<open>to_string_pretty\<close>
  of a \<open>Value\<close>, which puts the members of an object in the order of their names.\<close>

definition cli_output ::
  "(string \<Rightarrow> json_value option) \<Rightarrow> (string \<Rightarrow> string) \<Rightarrow> (json_value \<Rightarrow> string) \<Rightarrow> string + string \<Rightarrow>
   string + string" where
  "cli_output parse message pretty reply =
     (case reply of
        Inl e \<Rightarrow> Inl e
      | Inr body \<Rightarrow> (case parse body of None \<Rightarrow> Inl (message body) | Some v \<Rightarrow> Inr (pretty v)))"

lemma dec_cli_body:
  "dec_completion_request (cli_body args) =
     Some \<lparr>cr_model = cl_model args,
           cr_messages = [\<lparr>om_role = OUser, om_content = Some (JString (cl_prompt args)), om_tool_calls = [],
                           om_tool_call_id = None\<rparr>],
           cr_tools = [], cr_stream = False, cr_max_tokens = Some (cl_max_tokens args),
           cr_max_completion_tokens = None, cr_template = None\<rparr>"
  by (simp add: dec_completion_request_def cli_body_def dec_list_def dec_completion_message_def
      dec_openai_role_def defaulted_def nullable_def wire)

text \<open>The worker's request that is made of the arguments.\<close>

definition cli_request :: "cli_args \<Rightarrow> uuid \<Rightarrow> generate_request" where
  "cli_request args new_id =
     \<lparr>gr_request_id = new_id, gr_session_id = None, gr_model = cl_model args, gr_prompt = None,
      gr_messages = Some [\<lparr>cm_role = User, cm_content = cl_prompt args, cm_tool_calls = [], cm_tool_call_id = None\<rparr>],
      gr_template = None, gr_tools = [], gr_max_tokens = cl_max_tokens args\<rparr>"

text \<open>
  The coordinator accepts the request of the command-line client, whatever the arguments are, as a request
  for a plain answer to the prompt as the only message, with the model and the token limit of
  the arguments and outside any session.
\<close>

lemma cli_served:
  "\<exists>public. dec_completion_request (cli_body args) = Some public \<and> \<not> cr_stream public \<and>
     cr_model public = cl_model args \<and>
     prepare_request host new_id None public = Inr (cli_request args new_id)"
proof -
  let ?m = "\<lparr>cm_role = User, cm_content = cl_prompt args, cm_tool_calls = [], cm_tool_call_id = None\<rparr>"
  have "validate_tool_history [?m] [] = Inr ()"
    by (rule plain_history) (simp add: plain_message_def)
  then show ?thesis
    by (simp add: dec_cli_body prepare_request_def parse_session_id_def try_from_request_def validate_tools_def
        convert_message_def convert_content_def convert_role_def chosen_max_tokens_def cli_request_def)
qed

end
