(* ===== verification/Heartbeat.thy ===== *)
theory Heartbeat
  imports Coordinator_Api Worker_Runtime
begin

text \<open>
  How the coordinator and a worker keep in touch: \<open>start\<close> of
  \<open>crates/worker/src/heartbeat.rs\<close> on the worker's side, and on the coordinator's side the
  handlers of \<open>POST /workers/register\<close> and \<open>POST /workers/{id}/heartbeat\<close> with the expiry
  ticker of \<open>crates/coordinator/src/main.rs\<close>. What the network does to a request is an
  argument, and so are the clock and what other tasks do to the registry meanwhile.
\<close>

section \<open>One request\<close>

text \<open>A request arrives and its reply comes back, arrives with its reply lost, or never arrives.\<close>

datatype delivery = Delivered | ReplyLost | RequestLost

definition deliver ::
  "delivery \<Rightarrow> (registry \<Rightarrow> nat \<times> registry) \<Rightarrow> registry \<Rightarrow> nat option \<times> registry" where
  "deliver d handler reg =
     (case d of
        Delivered \<Rightarrow> (Some (fst (handler reg)), snd (handler reg))
      | ReplyLost \<Rightarrow> (None, snd (handler reg))
      | RequestLost \<Rightarrow> (None, reg))"

section \<open>The worker's task\<close>

text \<open>The closure \<open>register\<close>: the worker's address and its state at the time of the call.\<close>

definition register_request :: "worker_runtime \<Rightarrow> register_worker_request" where
  "register_request w = \<lparr>rw_address = wk_address w, rw_capabilities = capabilities w\<rparr>"

text \<open>The first request, before the ticker starts; its failure is only logged.\<close>

definition first_registration ::
  "instant \<Rightarrow> delivery \<Rightarrow> worker_runtime \<Rightarrow> registry \<Rightarrow> registry" where
  "first_registration now d w reg = snd (deliver d (register_handler now (register_request w)) reg)"

text \<open>One turn of the loop: the heartbeat, and another registration if the answer is 404. The
  second request is built from the worker's state at its own time.\<close>

record turn_input =
  ti_now :: instant
  ti_worker :: worker_runtime
  ti_delivery :: delivery
  ti_between :: "registry_op list"
  ti_again_now :: instant
  ti_again_worker :: worker_runtime
  ti_again_delivery :: delivery

definition heartbeat_turn :: "turn_input \<Rightarrow> registry \<Rightarrow> registry" where
  "heartbeat_turn t reg =
     (let w = ti_worker t;
          (status, reg) = deliver (ti_delivery t)
            (heartbeat_handler (ti_now t) (wk_node_id w) \<lparr>hb_capabilities = capabilities w\<rparr>) reg
      in if status = Some 404
         then snd (deliver (ti_again_delivery t)
                (register_handler (ti_again_now t) (register_request (ti_again_worker t)))
                (foldl registry_step reg (ti_between t)))
         else reg)"

section \<open>The coordinator's ticker\<close>

definition secs :: "nat \<Rightarrow> duration" where
  "secs n = n * 1000000000"

definition expiry_tick :: "instant \<Rightarrow> registry_op" where
  "expiry_tick now = ExpireAt now (secs 15)"

section \<open>A turn that gets through\<close>

text \<open>A record that says of a worker what the worker says of itself.\<close>

definition up_to_date :: "instant \<Rightarrow> worker_runtime \<Rightarrow> worker_record \<Rightarrow> bool" where
  "up_to_date now w r \<longleftrightarrow>
     wr_id r = wk_node_id w \<and> wr_models r = wc_models (capabilities w) \<and>
     wr_active_requests r = wk_active w \<and> wr_max_requests r = wk_max_requests w \<and>
     wr_state r = wc_state (capabilities w) \<and> wr_hardware r = wk_hardware w \<and>
     wr_last_heartbeat r = now"

lemma capabilities_simps:
  "wc_node_id (capabilities w) = wk_node_id w" "wc_active_requests (capabilities w) = wk_active w"
  "wc_max_requests (capabilities w) = wk_max_requests w" "wc_hardware (capabilities w) = wk_hardware w"
  by (simp_all add: capabilities_def)

lemma register_up_to_date:
  "\<exists>r. worker_at (register now (register_request w) reg) (wk_node_id w) = Some r \<and>
     up_to_date now w r \<and> wr_address r = wk_address w"
  by (simp add: register_def register_request_def up_to_date_def capabilities_simps Let_def update_conv)

lemma heartbeat_up_to_date:
  assumes "registry_inv reg" and "worker_at reg (wk_node_id w) = Some r"
  shows "\<exists>r'. worker_at (snd (heartbeat now (wk_node_id w) \<lparr>hb_capabilities = capabilities w\<rparr> reg)) (wk_node_id w) = Some r' \<and>
    up_to_date now w r' \<and> wr_address r' = wr_address r"
  using assms registry_invD(3) [OF assms]
  by (simp add: heartbeat_def map_of_al_modify heartbeat_record_def up_to_date_def capabilities_simps)

text \<open>
  C22. A turn whose requests get through brings the coordinator's record in line with the worker,
  whatever the record was: its models, capacity, hardware, state and count of active requests are
  the worker's own. Reservations that were never given back are healed, a worker marked offline
  comes back, and a worker the coordinator has forgotten registers again.
\<close>

theorem heartbeat_turn_correct:
  assumes "registry_inv reg" and "ti_delivery t \<noteq> RequestLost"
    and "worker_at reg (wk_node_id (ti_worker t)) = None \<longrightarrow>
           ti_delivery t = Delivered \<and> ti_again_delivery t \<noteq> RequestLost"
  shows "case worker_at reg (wk_node_id (ti_worker t)) of
      Some r \<Rightarrow>
        \<exists>r'. worker_at (heartbeat_turn t reg) (wk_node_id (ti_worker t)) = Some r' \<and>
          up_to_date (ti_now t) (ti_worker t) r' \<and> wr_address r' = wr_address r
    | None \<Rightarrow>
        \<exists>r'. worker_at (heartbeat_turn t reg) (wk_node_id (ti_again_worker t)) = Some r' \<and>
          up_to_date (ti_again_now t) (ti_again_worker t) r' \<and>
          wr_address r' = wk_address (ti_again_worker t)"
proof (cases "worker_at reg (wk_node_id (ti_worker t))")
  case None
  with assms(3) have "ti_delivery t = Delivered" "ti_again_delivery t \<noteq> RequestLost" by auto
  with None show ?thesis
    using register_up_to_date [of "ti_again_now t" "ti_again_worker t" "foldl registry_step reg (ti_between t)"]
    by (cases "ti_again_delivery t")
      (auto simp: heartbeat_turn_def deliver_def heartbeat_handler_def heartbeat_def register_handler_def)
next
  case (Some r)
  with assms(2) heartbeat_up_to_date [OF assms(1) Some, of "ti_now t"] show ?thesis
    by (cases "ti_delivery t")
      (auto simp: heartbeat_turn_def deliver_def heartbeat_handler_def heartbeat_def Let_def)
qed

text \<open>
  The address is not part of a heartbeat. When a worker comes up at a new address while the
  coordinator still has its record, and the first registration is lost, no number of heartbeats
  that get through repairs the record: requests keep going to the old address.
\<close>

theorem stale_address:
  assumes "registry_inv reg" and "worker_at reg (wk_node_id w) = Some r" and "wr_address r \<noteq> wk_address w"
    and "\<forall>t \<in> set turns. ti_delivery t = Delivered \<and> wk_node_id (ti_worker t) = wk_node_id w"
  shows "\<exists>r'. worker_at (fold heartbeat_turn turns (first_registration now RequestLost w reg)) (wk_node_id w) = Some r' \<and>
    wr_address r' \<noteq> wk_address w"
proof -
  have "\<exists>r'. worker_at (fold heartbeat_turn turns reg) (wk_node_id w) = Some r' \<and> wr_address r' = wr_address r"
    using assms(1,2,4)
  proof (induction turns arbitrary: reg r)
    case (Cons t turns)
    let ?reg = "snd (heartbeat (ti_now t) (wk_node_id w) \<lparr>hb_capabilities = capabilities (ti_worker t)\<rparr> reg)"
    from Cons.prems have t: "ti_delivery t = Delivered" "wk_node_id (ti_worker t) = wk_node_id w" by auto
    then have turn: "heartbeat_turn t reg = ?reg"
      using Cons.prems(2) by (simp add: heartbeat_turn_def deliver_def heartbeat_handler_def heartbeat_def)
    obtain r' where r': "worker_at ?reg (wk_node_id w) = Some r'" "wr_address r' = wr_address r"
      using heartbeat_up_to_date [of reg "ti_worker t" r "ti_now t"] Cons.prems(1,2) t(2) by auto
    have "registry_inv ?reg" using Cons.prems(1) by (rule registry_inv_heartbeat)
    from Cons.IH [OF this r'(1)] Cons.prems(3) r'(2) turn show ?case by auto
  qed simp
  with assms(3) show ?thesis by (auto simp: first_registration_def deliver_def)
qed

section \<open>Liveness\<close>

text \<open>\<open>kept_alive i t ops\<close>: since its last report at \<open>t\<close> worker \<open>i\<close> reports a state other than
  offline in time for every expiry, and no request to it fails.\<close>

fun kept_alive :: "string \<Rightarrow> instant \<Rightarrow> registry_op list \<Rightarrow> bool" where
  "kept_alive i t [] \<longleftrightarrow> True"
| "kept_alive i t (Register now request # ops) \<longleftrightarrow>
     (if wc_node_id (rw_capabilities request) = i
      then wc_state (rw_capabilities request) \<noteq> Offline \<and> kept_alive i now ops
      else kept_alive i t ops)"
| "kept_alive i t (Heartbeat now j request # ops) \<longleftrightarrow>
     (if j = i then wc_state (hb_capabilities request) \<noteq> Offline \<and> kept_alive i now ops
      else kept_alive i t ops)"
| "kept_alive i t (ExpireAt now timeout # ops) \<longleftrightarrow> now \<le> t + timeout \<and> kept_alive i t ops"
| "kept_alive i t (MarkOfflineWorkers j # ops) \<longleftrightarrow> j \<noteq> i \<and> kept_alive i t ops"
| "kept_alive i t (_ # ops) \<longleftrightarrow> kept_alive i t ops"

definition alive_at :: "string \<Rightarrow> instant \<Rightarrow> registry \<Rightarrow> bool" where
  "alive_at i t reg \<longleftrightarrow>
     (\<exists>w. worker_at reg i = Some w \<and> wr_state w \<noteq> Offline \<and> wr_last_heartbeat w = t)"

lemma reserve_release_frame:
  "wr_last_heartbeat (reserve_record w) = wr_last_heartbeat w"
  "wr_last_heartbeat (release_record w) = wr_last_heartbeat w"
  "wr_state w \<noteq> Offline \<Longrightarrow> wr_state (reserve_record w) \<noteq> Offline"
  "wr_state w \<noteq> Offline \<Longrightarrow> wr_state (release_record w) \<noteq> Offline"
  by (simp_all add: reserve_record_def release_record_def Let_def)

lemma alive_modify:
  assumes "alive_at i t reg"
    and "\<And>w. wr_state w \<noteq> Offline \<Longrightarrow> wr_state (f w) \<noteq> Offline" "\<And>w. wr_last_heartbeat (f w) = wr_last_heartbeat w"
  shows "alive_at i t (reg\<lparr>reg_workers := al_modify j f (reg_workers reg)\<rparr>)"
  using assms by (auto simp: alive_at_def map_of_al_modify)

lemma kept_alive_step:
  assumes "registry_inv reg" and "alive_at i t reg" and "kept_alive i t (op # ops)"
  shows "\<exists>t'. alive_at i t' (registry_step reg op) \<and> kept_alive i t' ops"
proof (cases op)
  case (Register now request)
  with assms(2,3) show ?thesis
    by (auto simp: alive_at_def register_def Let_def update_conv split: if_splits)
next
  case (Heartbeat now j request)
  with assms(2,3) show ?thesis
    by (auto simp: alive_at_def heartbeat_def heartbeat_record_def map_of_al_modify split: if_splits option.splits)
next
  case (SelectAndReserve now model session)
  have "alive_at i t (snd (select_and_reserve now model session reg))"
    using assms(1)
  proof (cases rule: select_and_reserve_cases [of reg now model session])
    case none
    with assms(2) show ?thesis by simp
  next
    case (some j w)
    with alive_modify [OF assms(2), of reserve_record j] show ?thesis
      by (simp add: alive_at_def reserve_release_frame)
  qed
  with SelectAndReserve assms(3) show ?thesis by auto
next
  case (Release j)
  with assms(3) alive_modify [OF assms(2), of release_record j] show ?thesis
    by (auto simp: release_def reserve_release_frame)
next
  case (ExpireAt now timeout)
  with assms(3) have "now \<le> t + timeout" by simp
  then have "\<not> timeout < now - t" by linarith
  with assms(2) ExpireAt have "alive_at i t (registry_step reg op)"
    by (auto simp: alive_at_def expire_at_def Let_def map_of_al_map expire_record_def)
  with ExpireAt assms(3) show ?thesis by auto
next
  case (MarkOfflineWorkers j)
  with assms(2,3) show ?thesis
    by (auto simp: alive_at_def mark_offline_workers_def map_of_al_modify)
next
  case (MarkOfflineAffinity j)
  with assms(2,3) show ?thesis by (auto simp: alive_at_def mark_offline_affinity_def)
qed

text \<open>
  C37. A worker that reports in time is never taken offline by the ticker: as long as every tick
  comes within 15 seconds of the worker's last report and no request to it fails, it stays in the
  table with a state other than offline, whatever else happens to the registry in between.
\<close>

theorem reporting_worker_stays:
  assumes "registry_inv reg" and "worker_at reg i = Some w" and "wr_state w \<noteq> Offline"
    and "kept_alive i (wr_last_heartbeat w) ops"
  shows "\<exists>w'. worker_at (foldl registry_step reg ops) i = Some w' \<and> wr_state w' \<noteq> Offline"
proof -
  have "\<exists>t'. alive_at i t' (foldl registry_step reg ops)"
    if "registry_inv reg" "alive_at i t reg" "kept_alive i t ops" for reg t
    using that
  proof (induction ops arbitrary: reg t)
    case (Cons op ops)
    from kept_alive_step [OF Cons.prems] obtain t' where
      t': "alive_at i t' (registry_step reg op)" "kept_alive i t' ops" by blast
    have "registry_inv (registry_step reg op)" using reg.safe_next Cons.prems(1) .
    from Cons.IH [OF this t'] show ?case by simp
  qed auto
  from this [OF assms(1) _ assms(4)] assms(2,3) show ?thesis by (auto simp: alive_at_def)
qed

text \<open>The ticks of the coordinator: one at the start and one every five seconds.\<close>

definition tick_at :: "instant \<Rightarrow> nat \<Rightarrow> instant" where
  "tick_at start k = start + k * secs 5"

lemma tick_within:
  assumes "start \<le> t"
  shows "\<exists>k. t < tick_at start k \<and> tick_at start k \<le> t + secs 5"
proof -
  let ?k = "(t - start) div secs 5 + 1"
  have pos: "0 < secs 5" by (simp add: secs_def)
  have "t - start < ?k * secs 5" using pos dividend_less_div_times [of "secs 5" "t - start"]
    by (simp add: algebra_simps)
  moreover have "?k * secs 5 \<le> (t - start) + secs 5"
    by (simp add: algebra_simps)
  ultimately have "t < start + ?k * secs 5 \<and> start + ?k * secs 5 \<le> t + secs 5" using assms by linarith
  then show ?thesis unfolding tick_at_def by blast
qed

lemma silent_record:
  assumes "registry_inv reg" and "worker_at reg i = Some w" and "\<forall>op \<in> set ops. \<not> reports i op"
  shows "\<exists>w'. worker_at (foldl registry_step reg ops) i = Some w' \<and> wr_last_heartbeat w' = wr_last_heartbeat w"
  using assms
proof (induction ops arbitrary: reg w)
  case (Cons op ops)
  have "\<exists>w'. worker_at (registry_step reg op) i = Some w' \<and> wr_last_heartbeat w' = wr_last_heartbeat w"
  proof (cases op)
    case (SelectAndReserve now model session)
    show ?thesis
      using Cons.prems(1)
    proof (cases rule: select_and_reserve_cases [of reg now model session])
      case none
      with Cons.prems(2) SelectAndReserve show ?thesis by simp
    next
      case (some j v)
      with Cons.prems(2) SelectAndReserve show ?thesis by (auto simp: map_of_al_modify reserve_release_frame)
    qed
  qed (use Cons.prems(2,3) in \<open>auto simp: register_def heartbeat_def release_def mark_offline_workers_def
      mark_offline_affinity_def expire_at_def Let_def update_conv map_of_al_modify map_of_al_map
      expire_record_def reserve_release_frame split: option.split\<close>)
  then obtain w' where w': "worker_at (registry_step reg op) i = Some w'" "wr_last_heartbeat w' = wr_last_heartbeat w"
    by blast
  have "registry_inv (registry_step reg op)" using reg.safe_next Cons.prems(1) .
  from Cons.IH [OF this w'(1)] Cons.prems(3) w'(2) show ?case by auto
qed simp

text \<open>
  A worker that falls silent is found out within 20 seconds of its last report: one of the
  coordinator's ticks falls between 15 and 20 seconds after it, and from that tick on the worker is
  not selected for any request until it reports again.
\<close>

theorem silent_worker_expires:
  assumes "registry_inv reg" and "worker_at reg i = Some w" and "start \<le> wr_last_heartbeat w + secs 15"
  shows "\<exists>k. tick_at start k \<le> wr_last_heartbeat w + secs 20 \<and>
    (\<forall>before after now model session s.
       (\<forall>op \<in> set before \<union> set after. \<not> reports i op) \<longrightarrow>
       fst (select_and_reserve now model session
         (foldl registry_step reg (before @ expiry_tick (tick_at start k) # after))) = Some s \<longrightarrow>
       sw_id s \<noteq> i)"
proof -
  obtain k where k: "wr_last_heartbeat w + secs 15 < tick_at start k"
    "tick_at start k \<le> wr_last_heartbeat w + secs 15 + secs 5"
    using tick_within [OF assms(3)] by blast
  have "sw_id s \<noteq> i"
    if quiet: "\<forall>op \<in> set before \<union> set after. \<not> reports i op"
      and sel: "fst (select_and_reserve now model session
        (foldl registry_step reg (before @ expiry_tick (tick_at start k) # after))) = Some s"
    for before after now model session s
  proof -
    let ?reg = "foldl registry_step reg before"
    let ?final = "foldl registry_step reg (before @ expiry_tick (tick_at start k) # after)"
    have inv: "registry_inv ?reg" using assms(1) by (rule reg.safe_run)
    obtain w' where w': "worker_at ?reg i = Some w'" "wr_last_heartbeat w' = wr_last_heartbeat w"
      using silent_record [OF assms(1,2)] quiet by blast
    have late: "secs 15 < tick_at start k - wr_last_heartbeat w" using k(1) by linarith
    from w' have off: "is_offline i (registry_step ?reg (expiry_tick (tick_at start k)))"
      using late by (simp add: is_offline_def expiry_tick_def expire_at_def Let_def map_of_al_map expire_record_def)
    have inv': "registry_inv ?final" using assms(1) by (rule reg.safe_run)
    have "is_offline i ?final"
      using is_offline_run [OF reg.safe_next [OF inv] off] quiet by simp
    with inv' sel show ?thesis
      by (cases rule: select_and_reserve_cases [of ?final now model session]) (auto simp: is_offline_def eligible_def)
  qed
  with k(2) show ?thesis by (intro exI [of _ k]) (auto simp: secs_def)
qed

section \<open>A sample worker\<close>

definition demo_node :: "string \<Rightarrow> worker_runtime" where
  "demo_node address =
     new_runtime ''b'' ''m'' address 2
       \<lparr>mm_id = ''d'', mm_architecture = ''llama'', mm_revision = ''r'', mm_quantization = None, mm_files = []\<rparr>
       \<lparr>hw_architecture = ''arm64'', hw_total_memory_bytes = 1, hw_available_memory_bytes = 1, hw_acceleration = Cpu\<rparr>
       session_cache_config_default"

definition demo_turn :: turn_input where
  "demo_turn =
     \<lparr>ti_now = 5, ti_worker = demo_node ''http://c'', ti_delivery = Delivered, ti_between = [],
      ti_again_now = 6, ti_again_worker = demo_node ''http://c'', ti_again_delivery = Delivered\<rparr>"

lemma demo_turn_simps [simp]:
  "ti_worker demo_turn = demo_node ''http://c''" "ti_delivery demo_turn = Delivered" "ti_now demo_turn = 5"
  "ti_again_worker demo_turn = demo_node ''http://c''" "ti_again_delivery demo_turn = Delivered"
  "wk_node_id (demo_node a) = ''b''" "wk_address (demo_node a) = a" "wk_active (demo_node a) = 0"
  by (simp_all add: demo_turn_def demo_node_def new_runtime_def)

lemma demo_known:
  "\<exists>r. worker_at demo_registry ''b'' = Some r \<and> wr_address r = ''http://b'' \<and> wr_state r = Available \<and>
     wr_last_heartbeat r = 0"
proof -
  have "map_option (\<lambda>r. (wr_address r, wr_state r, wr_last_heartbeat r)) (worker_at demo_registry ''b'') =
      Some (''http://b'', Available, 0)"
    by code_simp
  then show ?thesis by auto
qed

text \<open>
  A reservation whose handler was dropped is gone after the next heartbeat.\<close>

theorem heartbeat_turn_correct_witness:
  "\<exists>r. worker_at (heartbeat_turn demo_turn (snd (select_and_reserve 1 ''m'' None demo_registry))) ''b'' = Some r \<and>
     wr_active_requests r = 0"
proof -
  let ?reg = "snd (select_and_reserve 1 ''m'' None demo_registry)"
  have inv: "registry_inv ?reg" using demo_registry_inv by (rule registry_inv_select)
  have "map_option wr_active_requests (worker_at ?reg ''b'') = Some 1" by code_simp
  then obtain r where "worker_at ?reg ''b'' = Some r" by auto
  with heartbeat_turn_correct [OF inv, of demo_turn] show ?thesis by (auto simp: up_to_date_def)
qed

theorem stale_address_witness:
  "\<exists>r. worker_at (fold heartbeat_turn [demo_turn, demo_turn]
      (first_registration 1 RequestLost (demo_node ''http://c'') demo_registry)) ''b'' = Some r \<and>
    wr_address r \<noteq> ''http://c''"
proof -
  obtain r where "worker_at demo_registry ''b'' = Some r" "wr_address r = ''http://b''" using demo_known by blast
  with stale_address [OF demo_registry_inv, of "demo_node ''http://c''" r "[demo_turn, demo_turn]" 1] show ?thesis by simp
qed

theorem reporting_worker_stays_witness:
  "\<exists>w. worker_at (foldl registry_step demo_registry
      [expiry_tick (secs 15), Heartbeat (secs 15) ''b'' \<lparr>hb_capabilities = demo_capabilities ''b'' 0 2 Metal\<rparr>,
       expiry_tick (secs 30)]) ''b'' = Some w \<and> wr_state w \<noteq> Offline"
proof -
  obtain r where "worker_at demo_registry ''b'' = Some r" "wr_state r = Available" "wr_last_heartbeat r = 0"
    using demo_known by blast
  then show ?thesis
    using reporting_worker_stays [OF demo_registry_inv, of "''b''" r
        "[expiry_tick (secs 15), Heartbeat (secs 15) ''b'' \<lparr>hb_capabilities = demo_capabilities ''b'' 0 2 Metal\<rparr>,
          expiry_tick (secs 30)]"]
    by (simp add: expiry_tick_def secs_def demo_capabilities_def)
qed

theorem silent_worker_expires_witness:
  "\<exists>k. tick_at 0 k \<le> secs 20 \<and> (\<forall>s. fst (select_and_reserve (secs 21) ''m'' None
     (foldl registry_step demo_registry [expiry_tick (tick_at 0 k)])) = Some s \<longrightarrow> sw_id s \<noteq> ''b'')"
proof -
  obtain r where r: "worker_at demo_registry ''b'' = Some r" "wr_last_heartbeat r = 0" using demo_known by blast
  have "0 \<le> wr_last_heartbeat r + secs 15" by simp
  from silent_worker_expires [OF demo_registry_inv r(1) this] obtain k where k: "tick_at 0 k \<le> secs 20"
    "\<forall>before after now model session s. (\<forall>op \<in> set before \<union> set after. \<not> reports ''b'' op) \<longrightarrow>
       fst (select_and_reserve now model session
         (foldl registry_step demo_registry (before @ expiry_tick (tick_at 0 k) # after))) = Some s \<longrightarrow> sw_id s \<noteq> ''b''"
    using r(2) by auto
  from k(2) [THEN spec [of _ "[]"], THEN spec [of _ "[]"]] have "\<forall>s. fst (select_and_reserve (secs 21) ''m'' None
     (foldl registry_step demo_registry [expiry_tick (tick_at 0 k)])) = Some s \<longrightarrow> sw_id s \<noteq> ''b''"
    by simp
  with k(1) show ?thesis by blast
qed

end
