(* ===== verification/Routes.thy ===== *)
theory Routes
  imports Cli Heartbeat
begin

text \<open>
  The routes of both servers, \<open>router\<close> in \<open>crates/coordinator/src/api.rs\<close> and
  \<open>crates/worker/src/api.rs\<close>, and the URLs the processes send their requests to. The URLs are texts put
  together with \<open>format!\<close>; reading them is the parameter \<open>parse\<close>, the URL parser behind reqwest, which gives the
  server and the path that a request goes to. Matching a path is axum's: a pattern is read segment by
  segment, \<open>{name}\<close> being any segment that is not empty, which the handler gets.
\<close>

section \<open>The tables\<close>

datatype http_method = Get | Post

datatype coordinator_endpoint = RegisterEndpoint | HeartbeatEndpoint | ListEndpoint | ModelsEndpoint | ChatEndpoint

datatype worker_endpoint =
  HealthEndpoint | CapabilitiesEndpoint | GenerateEndpoint | StreamEndpoint | CancelEndpoint | DrainEndpoint

type_synonym 'h routes = "(string \<times> http_method \<times> 'h) list"

definition coordinator_router :: "coordinator_endpoint routes" where
  "coordinator_router =
     [(''/workers/register'', Post, RegisterEndpoint),
      (''/workers/{id}/heartbeat'', Post, HeartbeatEndpoint),
      (''/workers'', Get, ListEndpoint),
      (''/v1/models'', Get, ModelsEndpoint),
      (''/v1/chat/completions'', Post, ChatEndpoint)]"

definition worker_router :: "worker_endpoint routes" where
  "worker_router =
     [(''/health'', Get, HealthEndpoint),
      (''/capabilities'', Get, CapabilitiesEndpoint),
      (''/generate'', Post, GenerateEndpoint),
      (''/generate/stream'', Post, StreamEndpoint),
      (''/requests/{id}/cancel'', Post, CancelEndpoint),
      (''/drain'', Post, DrainEndpoint)]"

section \<open>The URLs\<close>

definition register_url :: "string \<Rightarrow> string" where
  "register_url coordinator = trim_end_slashes coordinator @ ''/workers/register''"

definition heartbeat_url :: "string \<Rightarrow> string \<Rightarrow> string" where
  "heartbeat_url coordinator node_id = trim_end_slashes coordinator @ ''/workers/'' @ node_id @ ''/heartbeat''"

definition generate_url :: "selected_worker \<Rightarrow> string" where
  "generate_url worker = trim_end_slashes (sw_address worker) @ ''/generate''"

definition stream_url :: "selected_worker \<Rightarrow> string" where
  "stream_url worker = trim_end_slashes (sw_address worker) @ ''/generate/stream''"

definition models_url :: "string \<Rightarrow> string" where
  "models_url endpoint = trim_end_slashes endpoint @ ''/v1/models''"

definition chat_url :: "string \<Rightarrow> string" where
  "chat_url endpoint = trim_end_slashes endpoint @ ''/v1/chat/completions''"

section \<open>Matching\<close>

fun segments :: "string \<Rightarrow> string list" where
  "segments [] = [[]]"
| "segments (c # s) =
     (if c = CHR ''/'' then [] # segments s
      else (case segments s of [] \<Rightarrow> [[c]] | x # xs \<Rightarrow> (c # x) # xs))"

definition segment_fits :: "string \<Rightarrow> string \<Rightarrow> bool" where
  "segment_fits p s \<longleftrightarrow> (if starts_with ''{'' p then s \<noteq> [] else p = s)"

definition path_fits :: "string \<Rightarrow> string \<Rightarrow> bool" where
  "path_fits pattern path \<longleftrightarrow> list_all2 segment_fits (segments pattern) (segments path)"

text \<open>The segments that the names of a pattern stand for.\<close>

definition captured :: "string \<Rightarrow> string \<Rightarrow> string list" where
  "captured pattern path = map snd (filter (\<lambda>(p, _). starts_with ''{'' p) (zip (segments pattern) (segments path)))"

definition matched :: "'h routes \<Rightarrow> http_method \<Rightarrow> string \<Rightarrow> ('h \<times> string list) list" where
  "matched routes meth path =
     map (\<lambda>(pattern, _, h). (h, captured pattern path)) (filter (\<lambda>(pattern, m, _). m = meth \<and> path_fits pattern path) routes)"

text \<open>The handlers of the server \<open>origin\<close> for a request to a URL, with what they get from the path.\<close>

definition handlers ::
  "(string \<Rightarrow> ('o \<times> string) option) \<Rightarrow> 'h routes \<Rightarrow> 'o \<Rightarrow> http_method \<Rightarrow> string \<Rightarrow> ('h \<times> string list) list" where
  "handlers parse routes origin meth url =
     (case parse url of
        Some (o', path) \<Rightarrow> if o' = origin then matched routes meth path else []
      | None \<Rightarrow> [])"

section \<open>Plain URLs\<close>

text \<open>
  The characters RFC 3986 calls unreserved stand for themselves in a path; all others may be encoded, may end the
  path (\<open>?\<close> and \<open>#\<close>) or divide it. The segments \<open>.\<close> and \<open>..\<close> are removed with what they refer to.
\<close>

definition unreserved :: "char \<Rightarrow> bool" where
  "unreserved c \<longleftrightarrow> is_ascii_alphanumeric c \<or> c \<in> set ''-._~''"

definition plain_segment :: "string \<Rightarrow> bool" where
  "plain_segment s \<longleftrightarrow> s \<noteq> [] \<and> list_all unreserved s \<and> s \<noteq> ''.'' \<and> s \<noteq> ''..''"

definition plain_path :: "string list \<Rightarrow> string" where
  "plain_path segs = concat (map (\<lambda>s. CHR ''/'' # s) segs)"

text \<open>
  An address as the processes are given them: scheme, host and perhaps a port that the parser accepts, with or
  without slashes at the end. The law of the parser: plain segments after such an address are the path, as
  they are, and do not change the server.
\<close>

definition plain_base :: "string \<Rightarrow> bool" where
  "plain_base base \<longleftrightarrow>
     (\<exists>scheme host. scheme \<in> {''http'', ''https''} \<and> host \<noteq> [] \<and>
        list_all (\<lambda>c. unreserved c \<or> c \<in> set '':[]'') host \<and> base = scheme @ ''://'' @ host)"

definition url_law :: "(string \<Rightarrow> ('o \<times> string) option) \<Rightarrow> bool" where
  "url_law parse \<longleftrightarrow>
     (\<forall>base origin segs. plain_base base \<and> parse base = Some (origin, ''/'') \<and>
        segs \<noteq> [] \<and> list_all plain_segment segs \<longrightarrow>
        parse (base @ plain_path segs) = Some (origin, plain_path segs))"

definition server_at :: "(string \<Rightarrow> ('o \<times> string) option) \<Rightarrow> string \<Rightarrow> 'o \<Rightarrow> bool" where
  "server_at parse address origin \<longleftrightarrow>
     (\<exists>base n. plain_base base \<and> parse base = Some (origin, ''/'') \<and> address = base @ replicate n (CHR ''/''))"

lemma unreserved_slash [simp]: "\<not> unreserved (CHR ''/'')"
  by code_simp

lemma plain_segment_slash: "plain_segment s \<Longrightarrow> s \<noteq> [] \<and> CHR ''/'' \<notin> set s"
  by (auto simp: plain_segment_def list_all_iff)

lemma plain_base_parts:
  assumes "plain_base base"
  obtains scheme host where "scheme \<in> {''http'', ''https''}" "host \<noteq> []" "base = scheme @ ''://'' @ host"
    "CHR ''/'' \<notin> set host"
proof -
  from assms obtain scheme host where host: "scheme \<in> {''http'', ''https''}" "host \<noteq> []" "base = scheme @ ''://'' @ host"
    "list_all (\<lambda>c. unreserved c \<or> c \<in> set '':[]'') host"
    unfolding plain_base_def by blast
  moreover from host(4) have "CHR ''/'' \<notin> set host" by (auto simp: list_all_iff)
  ultimately show ?thesis by (intro that)
qed

lemma trim_plain_base:
  assumes "plain_base base"
  shows "trim_end_slashes (base @ replicate n (CHR ''/'')) = base"
proof -
  obtain scheme host where host: "host \<noteq> []" "base = scheme @ ''://'' @ host" "CHR ''/'' \<notin> set host"
    using assms by (rule plain_base_parts)
  then obtain front c where "base = front @ [c]" "c \<noteq> CHR ''/''" by (cases host rule: rev_cases) auto
  moreover have "dropWhile (\<lambda>c. c = CHR ''/'') (replicate n (CHR ''/'') @ xs) = dropWhile (\<lambda>c. c = CHR ''/'') xs" for xs
    by (induction n) simp_all
  ultimately show ?thesis by (simp add: trim_end_slashes_def)
qed

lemma server_at_url:
  assumes "url_law parse" and "server_at parse address origin" and "segs \<noteq> []" "list_all plain_segment segs"
  shows "parse (trim_end_slashes address @ plain_path segs) = Some (origin, plain_path segs)"
proof -
  from assms(2) obtain base n where base: "plain_base base" "parse base = Some (origin, ''/'')"
    "address = base @ replicate n (CHR ''/'')"
    by (auto simp: server_at_def)
  then have "trim_end_slashes address = base"
    by (simp add: trim_plain_base)
  with assms base show ?thesis by (simp add: url_law_def)
qed

section \<open>Every request finds its route\<close>

lemma segments_part [simp]: "CHR ''/'' \<notin> set a \<Longrightarrow> segments (a @ CHR ''/'' # s) = a # segments s"
  by (induction a) auto

lemma segments_single [simp]: "CHR ''/'' \<notin> set a \<Longrightarrow> segments a = [a]"
  by (induction a) auto

lemma length_segments: "length (segments s) = Suc (count_list s (CHR ''/''))"
  by (induction s) (auto split: list.split)

lemma starts_with_brace [simp]: "starts_with ''{'' (c # s) \<longleftrightarrow> c = CHR ''{''" "\<not> starts_with ''{'' []"
  by (auto simp: starts_with_iff)

text \<open>The patterns and paths, cut into segments once and for all.\<close>

lemma pattern_segments:
  "segments ''/workers/register'' = [[], ''workers'', ''register'']"
  "segments ''/workers/{id}/heartbeat'' = [[], ''workers'', ''{id}'', ''heartbeat'']"
  "segments ''/workers'' = [[], ''workers'']"
  "segments ''/v1/models'' = [[], ''v1'', ''models'']"
  "segments ''/v1/chat/completions'' = [[], ''v1'', ''chat'', ''completions'']"
  "segments ''/health'' = [[], ''health'']"
  "segments ''/capabilities'' = [[], ''capabilities'']"
  "segments ''/generate'' = [[], ''generate'']"
  "segments ''/generate/stream'' = [[], ''generate'', ''stream'']"
  "segments ''/requests/{id}/cancel'' = [[], ''requests'', ''{id}'', ''cancel'']"
  "segments ''/drain'' = [[], ''drain'']"
  by code_simp+

lemma filled_segments:
  assumes "plain_segment x"
  shows "segments (''/workers/'' @ x @ ''/heartbeat'') = [[], ''workers'', x, ''heartbeat'']"
    and "segments (''/requests/'' @ x @ ''/cancel'') = [[], ''requests'', x, ''cancel'']"
  using segments_part [of x] plain_segment_slash [OF assms] by simp_all

text \<open>The paths the processes ask for.\<close>

lemma plain_words:
  "plain_segment ''workers''" "plain_segment ''register''" "plain_segment ''heartbeat''" "plain_segment ''v1''"
  "plain_segment ''models''" "plain_segment ''chat''" "plain_segment ''completions''" "plain_segment ''generate''"
  "plain_segment ''stream''" "plain_segment ''requests''" "plain_segment ''cancel''"
  by code_simp+

lemma paths:
  "plain_path [''workers'', ''register''] = ''/workers/register''"
  "plain_path [''workers'', x, ''heartbeat''] = ''/workers/'' @ x @ ''/heartbeat''"
  "plain_path [''v1'', ''models''] = ''/v1/models''"
  "plain_path [''v1'', ''chat'', ''completions''] = ''/v1/chat/completions''"
  "plain_path [''generate''] = ''/generate''"
  "plain_path [''generate'', ''stream''] = ''/generate/stream''"
  "plain_path [''requests'', x, ''cancel''] = ''/requests/'' @ x @ ''/cancel''"
  by (simp_all add: plain_path_def)

lemma routed:
  assumes "url_law parse" and "server_at parse address origin"
    and "path = plain_path segs" "segs \<noteq> []" "list_all plain_segment segs"
  shows "handlers parse routes origin meth (trim_end_slashes address @ path) =
    matched routes meth path"
  by (simp add: handlers_def server_at_url [OF assms(1,2,4,5)] assms(3))

declare segments.simps [simp del]

lemma matched_paths:
  "matched coordinator_router Post ''/workers/register'' = [(RegisterEndpoint, [])]"
  "matched coordinator_router Get ''/v1/models'' = [(ModelsEndpoint, [])]"
  "matched coordinator_router Post ''/v1/chat/completions'' = [(ChatEndpoint, [])]"
  "matched worker_router Post ''/generate'' = [(GenerateEndpoint, [])]"
  "matched worker_router Post ''/generate/stream'' = [(StreamEndpoint, [])]"
  by code_simp+

lemma matched_ids:
  assumes "plain_segment x"
  shows "matched coordinator_router Post (''/workers/'' @ x @ ''/heartbeat'') = [(HeartbeatEndpoint, [x])]"
    and "matched worker_router Post (''/requests/'' @ x @ ''/cancel'') = [(CancelEndpoint, [x])]"
  using plain_segment_slash [OF assms]
  unfolding matched_def coordinator_router_def worker_router_def path_fits_def captured_def segment_fits_def
  by (simp_all add: pattern_segments filled_segments [OF assms] del: append_Cons)

text \<open>
  C31. Every request reaches the handler meant for it: of the URLs the worker, the coordinator, the desktop
  client and the command-line client build, each is answered by exactly one route of the server it is addressed to, the
  one meant, and the handlers of heartbeats and of cancellations get the worker's id and the request's id. The addresses
  are \<open>http\<close> or \<open>https\<close>, a host and perhaps a port, whether or not slashes follow; the worker's id
  and the text of the request's id are made of unreserved characters and are no dot segments.
\<close>

theorem requests_routed:
  assumes "url_law parse"
    and "server_at parse coordinator main_server" and "server_at parse endpoint main_server"
    and "server_at parse (cl_coordinator args) main_server" and "server_at parse (sw_address worker) worker_server"
    and "plain_segment node_id" and "plain_segment (h_show_uuid host request_id)"
  shows "handlers parse coordinator_router main_server Post (register_url coordinator) = [(RegisterEndpoint, [])] \<and>
    handlers parse coordinator_router main_server Post (heartbeat_url coordinator node_id) = [(HeartbeatEndpoint, [node_id])] \<and>
    handlers parse coordinator_router main_server Get (models_url endpoint) = [(ModelsEndpoint, [])] \<and>
    handlers parse coordinator_router main_server Post (chat_url endpoint) = [(ChatEndpoint, [])] \<and>
    handlers parse coordinator_router main_server Post (cli_url args) = [(ChatEndpoint, [])] \<and>
    handlers parse worker_router worker_server Post (generate_url worker) = [(GenerateEndpoint, [])] \<and>
    handlers parse worker_router worker_server Post (stream_url worker) = [(StreamEndpoint, [])] \<and>
    handlers parse worker_router worker_server Post (cancel_url host worker request_id) =
      [(CancelEndpoint, [h_show_uuid host request_id])]"
proof -
  let ?rid = "h_show_uuid host request_id"
  note to = routed [OF assms(1)]
  have words: "list_all plain_segment [''workers'', ''register'']" "list_all plain_segment [''workers'', node_id, ''heartbeat'']"
    "list_all plain_segment [''v1'', ''models'']" "list_all plain_segment [''v1'', ''chat'', ''completions'']"
    "list_all plain_segment [''generate'']" "list_all plain_segment [''generate'', ''stream'']"
    "list_all plain_segment [''requests'', ?rid, ''cancel'']"
    using assms(6,7) by (simp_all add: plain_words)
  note urls = to [OF assms(2) paths(1) [symmetric] _ words(1)] to [OF assms(2) paths(2) [symmetric] _ words(2)]
    to [OF assms(3) paths(3) [symmetric] _ words(3)] to [OF assms(3) paths(4) [symmetric] _ words(4)]
    to [OF assms(4) paths(4) [symmetric] _ words(4)] to [OF assms(5) paths(5) [symmetric] _ words(5)]
    to [OF assms(5) paths(6) [symmetric] _ words(6)] to [OF assms(5) paths(7) [symmetric] _ words(7)]
  show ?thesis
    unfolding register_url_def heartbeat_url_def models_url_def chat_url_def cli_url_def generate_url_def
      stream_url_def cancel_url_def urls [OF list.distinct(2)] matched_paths matched_ids(1) [OF assms(6)]
      matched_ids(2) [OF assms(7)]
    by (intro conjI refl)
qed

text \<open>
  A worker whose id has a slash in it sends its heartbeats to no route at all: each is answered 404,
  upon which the worker registers again.
\<close>

theorem heartbeat_unrouted:
  assumes "url_law parse" and "server_at parse coordinator origin"
    and "node_id = a @ CHR ''/'' # b" and "plain_segment a" "plain_segment b"
  shows "handlers parse coordinator_router origin Post (heartbeat_url coordinator node_id) = []"
proof -
  have "list_all plain_segment [''workers'', a, b, ''heartbeat'']" using assms(4,5) by (simp add: plain_words)
  moreover have "''/workers/'' @ node_id @ ''/heartbeat'' = plain_path [''workers'', a, b, ''heartbeat'']"
    by (simp add: plain_path_def assms(3))
  moreover have "segments (''/workers/'' @ node_id @ ''/heartbeat'') = [[], ''workers'', a, b, ''heartbeat'']"
    using segments_part [of a] segments_part [of b] plain_segment_slash [OF assms(4)] plain_segment_slash [OF assms(5)]
    by (simp add: assms(3) segments.simps)
  ultimately show ?thesis
    unfolding heartbeat_url_def
    by (subst routed [OF assms(1,2), of _ "[''workers'', a, b, ''heartbeat'']"])
      (simp_all add: matched_def coordinator_router_def path_fits_def segment_fits_def pattern_segments del: append_Cons)
qed

text \<open>A parser for plain URLs: the server is the text before the path.\<close>

definition demo_url :: "string \<Rightarrow> (string \<times> string) option" where
  "demo_url url =
     (let n = (if starts_with ''https://'' url then 8 else 7); rest = drop n url;
          path = dropWhile (\<lambda>c. c \<noteq> CHR ''/'') rest
      in Some (take n url @ takeWhile (\<lambda>c. c \<noteq> CHR ''/'') rest, if path = [] then ''/'' else path))"

lemma demo_url_parts:
  assumes "scheme \<in> {''http'', ''https''}" and "CHR ''/'' \<notin> set host" and "path = [] \<or> hd path = CHR ''/''"
  shows "demo_url (scheme @ ''://'' @ host @ path) = Some (scheme @ ''://'' @ host, if path = [] then ''/'' else path)"
proof -
  have cut: "starts_with ''https://'' (''http://'' @ x) = False" "drop 7 (''http://'' @ x) = x" "take 7 (''http://'' @ x) = ''http://''"
    "starts_with ''https://'' (''https://'' @ x) = True" "drop 8 (''https://'' @ x) = x" "take 8 (''https://'' @ x) = ''https://''" for x
    by (simp_all add: starts_with_def)
  have host: "takeWhile (\<lambda>c. c \<noteq> CHR ''/'') (host @ path) = host" "dropWhile (\<lambda>c. c \<noteq> CHR ''/'') (host @ path) = path"
    using assms(2,3) by (cases path; auto simp: takeWhile_append dropWhile_append)+
  from assms(1) consider "scheme @ ''://'' = ''http://''" | "scheme @ ''://'' = ''https://''" by auto
  then show ?thesis
    unfolding demo_url_def append.assoc [symmetric, of scheme]
    by cases (simp_all only: append.assoc cut Let_def if_False if_True host)
qed

lemma demo_url_law: "url_law demo_url"
proof -
  have "demo_url (base @ plain_path segs) = Some (origin, plain_path segs)"
    if base: "plain_base base" and origin: "demo_url base = Some (origin, ''/'')" and segs: "segs \<noteq> []" for base origin segs
  proof -
    obtain scheme host where host: "scheme \<in> {''http'', ''https''}" "host \<noteq> []" "base = scheme @ ''://'' @ host"
      "CHR ''/'' \<notin> set host"
      using base by (rule plain_base_parts)
    have "plain_path segs \<noteq> []" "hd (plain_path segs) = CHR ''/''"
      using segs by (cases segs; simp add: plain_path_def)+
    with demo_url_parts [OF host(1,4), of "plain_path segs"] demo_url_parts [OF host(1,4), of "[]"] origin show ?thesis
      unfolding host(3) append.assoc append_Nil2 by simp
  qed
  then show ?thesis by (simp add: url_law_def)
qed

theorem requests_routed_witness:
  "handlers demo_url coordinator_router ''http://c'' Post (heartbeat_url ''http://c/'' ''b'') = [(HeartbeatEndpoint, [''b''])]"
proof -
  have "plain_base ''http://c''"
    unfolding plain_base_def by (rule exI [of _ "''http''"], rule exI [of _ "''c''"]) code_simp
  then have server: "server_at demo_url ''http://c/'' ''http://c''"
    unfolding server_at_def by (intro exI [of _ "''http://c''"] exI [of _ 1]) (simp add: demo_url_def starts_with_iff)
  have "plain_segment ''b''" "plain_segment (h_show_uuid demo_host 7)"
    by code_simp+
  from requests_routed [OF demo_url_law server server, of "\<lparr>cl_coordinator = ''http://c/'', cl_model = [], cl_prompt = [],
      cl_max_tokens = 0\<rparr>" "\<lparr>sw_id = ''b'', sw_address = ''http://c/''\<rparr>" "''http://c''" "''b''" demo_host 7] server this
  show ?thesis by simp
qed

end
