(* ===== verification/Observability.thy ===== *)
theory Observability
  imports Gguf Models
begin

text \<open>
  \<open>crates/worker/src/observability.rs\<close>: whether logs and metrics are exported, and what the metrics
  read. The exporters are OpenTelemetry's; that they can be built is an argument. The second part
  follows the counters through the runtime.
\<close>

section \<open>Setting up\<close>

record observability =
  ob_logger_provider :: bool
  ob_meter_provider :: bool

text \<open>The instruments by name, each with the place it reads in a snapshot of the counters.\<close>

definition instruments :: "(string \<times> nat) list" where
  "instruments =
     [(''decompute.session_cache.hits'', 0), (''decompute.session_cache.misses'', 1),
      (''decompute.session_cache.evictions'', 2), (''decompute.session_cache.expirations'', 3),
      (''decompute.session_cache.invalidations'', 4)]"

definition observed :: "session_cache_stats \<Rightarrow> (string \<times> u64) list" where
  "observed stats = map (\<lambda>(name, i). (name, snapshot stats ! i)) instruments"

definition service_name :: "(string \<Rightarrow> string option) \<Rightarrow> string" where
  "service_name env = (case env ''OTEL_SERVICE_NAME'' of Some name \<Rightarrow> name | None \<Rightarrow> ''decompute-worker'')"

definition metric :: "string \<Rightarrow> session_cache_stats \<Rightarrow> u64 option" where
  "metric name stats = map_of (observed stats) (''decompute.session_cache.'' @ name)"

text \<open>\<open>env\<close>: the environment; the two results: building the log and the metric exporter.\<close>

definition observability_init ::
  "(string \<Rightarrow> string option) \<Rightarrow> anyhow + unit \<Rightarrow> anyhow + unit \<Rightarrow> anyhow + observability \<times> session_cache_stats" where
  "observability_init env log_exporter metric_exporter =
     (if env ''OTEL_EXPORTER_OTLP_ENDPOINT'' = None
      then Inr (\<lparr>ob_logger_provider = False, ob_meter_provider = False\<rparr>, session_cache_stats_default)
      else
        (case error_context ''build OTLP log exporter'' log_exporter of
           Inl e \<Rightarrow> Inl e
         | Inr _ \<Rightarrow>
             (case error_context ''build OTLP metric exporter'' metric_exporter of
                Inl e \<Rightarrow> Inl e
              | Inr _ \<Rightarrow>
                  Inr (\<lparr>ob_logger_provider = True, ob_meter_provider = True\<rparr>, session_cache_stats_default))))"

text \<open>Flushed when dropped, the metrics first.\<close>

definition shutdown :: "observability \<Rightarrow> string list" where
  "shutdown ob =
     (if ob_meter_provider ob then [''metrics''] else []) @ (if ob_logger_provider ob then [''logs''] else [])"

section \<open>What the counters count\<close>

definition lookups :: "session_cache_stats \<Rightarrow> u64" where
  "lookups st = ss_hits st + ss_misses st"

lemmas counter_defs =
  increment_hits_def increment_misses_def increment_evictions_def increment_expirations_def
  increment_invalidations_def lookups_def

lemma metrics_read:
  "metric ''hits'' st = Some (ss_hits st)" "metric ''misses'' st = Some (ss_misses st)"
  by (simp_all add: metric_def observed_def instruments_def snapshot_def)

lemma bump_lookups:
  "map_option lookups (map_option increment_evictions st) = map_option lookups st"
  "map_option lookups (map_option increment_invalidations st) = map_option lookups st"
  "map_option lookups (map_option increment_hits st) = map_option (\<lambda>st. lookups st + 1) st"
  "map_option lookups (map_option increment_misses st) = map_option (\<lambda>st. lookups st + 1) st"
  by (cases st; simp add: counter_defs)+

lemma evict_lookups: "map_option lookups (cs_stats (evict bytes s)) = map_option lookups (cs_stats s)"
proof (induction bytes s rule: evict.induct)
  case (1 bytes s)
  then show ?case by (subst evict.simps) (simp add: bump_lookups split: option.split)
qed

lemma expirations_lookups: "lookups (foldl (\<lambda>st _. increment_expirations st) st xs) = lookups st"
  by (induction xs arbitrary: st) (simp_all add: counter_defs)

lemma expire_lookups: "map_option lookups (cs_stats (expire_idle now s)) = map_option lookups (cs_stats s)"
  by (cases "cs_stats s") (simp_all add: expire_idle_def Let_def expirations_lookups)

lemma commit_lookups:
  "map_option lookups (cs_stats (snd (commit_context llama n now i tokens c s))) = map_option lookups (cs_stats s)"
  by (simp add: commit_context_def Let_def evict_lookups del: evict.simps split: sum.split)

lemma guard_lookups: "map_option lookups (cs_stats (reuse_guard r c s)) = map_option lookups (cs_stats s)"
  by (simp add: reuse_guard_def bump_lookups)

lemma take_lookups:
  "map_option lookups (cs_stats (snd (take_context llama sid tokens s))) =
     map_option (\<lambda>st. lookups st + (if prompt_is_cacheable (cs_config s) sid tokens then 1 else 0)) (cs_stats s)"
  by (cases "cs_stats s") (auto simp: take_context_def Let_def counter_defs ac_simps split: option.split)

lemma take_config: "cs_config (snd (take_context llama sid tokens s)) = cs_config s"
  by (simp add: take_context_def Let_def bump_def split: option.split)

text \<open>Whether a request gets as far as a lookup, or is known not to need one.\<close>

definition looks_up ::
  "('t, 'c, 'd) llama \<Rightarrow> u32 \<Rightarrow> string \<Rightarrow> uuid option \<Rightarrow> run \<Rightarrow> ('t, 'c) cache_state \<Rightarrow> bool" where
  "looks_up llama context_tokens prompt session_id r s =
     (case (fst (check_cancelled r), ll_str_to_token llama prompt) of
        (Inr _, Inr tokens) \<Rightarrow>
          tokens \<noteq> [] \<and>
          (prompt_is_cacheable (cs_config s) session_id tokens \<longrightarrow> length tokens < unat context_tokens)
      | _ \<Rightarrow> False)"

text \<open>After the lookup the rest of a generation does not touch the two counters.\<close>

lemma after_lookup:
  assumes "check_cancelled r = (Inr (), r1)" "ll_str_to_token llama prompt = Inr tokens" "tokens \<noteq> []"
    and "length tokens < unat context_tokens"
    and "take_context llama session_id tokens (expire_idle now
       (if prompt_is_cacheable (cs_config s) session_id tokens then s else bump increment_misses s)) = (sel, sx)"
  shows "map_option lookups (cs_stats (snd (snd (gguf_generate llama context_tokens now prompt session_id config r s)))) =
    map_option lookups (cs_stats sx)"
proof (cases sel)
  case (Inl e)
  with assms show ?thesis by (simp add: gguf_generate_def with_context_def Let_def)
next
  case (Inr cp)
  obtain c prefix where cp: "cp = (c, prefix)" by (cases cp)
  obtain out r2 where run: "run_prompt llama context_tokens config tokens prefix c r1 = (out, r2)" by fastforce
  show ?thesis
  proof (cases out)
    case (Inl e)
    with assms Inr cp run show ?thesis
      by (simp add: gguf_generate_def with_context_def Let_def guard_lookups)
  next
    case out: (Inr pc)
    obtain position c' where pc: "pc = (position, c')" by (cases pc)
    obtain committed sy where commit: "(if prompt_is_cacheable (cs_config s) session_id tokens
        then commit_context llama context_tokens now (the session_id) tokens c' sx else (Inr False, sx)) = (committed, sy)"
      by fastforce
    then have "map_option lookups (cs_stats sy) = map_option lookups (cs_stats sx)"
      using commit_lookups [of llama context_tokens now "the session_id" tokens c' sx] by (auto split: if_splits)
    with assms Inr cp run out pc commit show ?thesis
      by (cases committed) (simp_all add: gguf_generate_def with_context_def Let_def guard_lookups)
  qed
qed

text \<open>
  Hits and misses add up: a generation adds one to exactly one of these two metrics if it gets as far as
  the lookup or its prompt is not to be cached, and to neither if it was cancelled before, has
  no tokens or does not fit in the context; this holds however the generation goes on.
\<close>

theorem metrics_count_lookups:
  assumes "gguf_generate llama context_tokens now prompt session_id config r s = (result, r', s')"
    and "cs_stats s = Some st"
  shows "\<exists>st' hits misses hits' misses'. cs_stats s' = Some st' \<and>
    metric ''hits'' st = Some hits \<and> metric ''misses'' st = Some misses \<and>
    metric ''hits'' st' = Some hits' \<and> metric ''misses'' st' = Some misses' \<and>
    hits' + misses' = hits + misses + (if looks_up llama context_tokens prompt session_id r s then 1 else 0)"
proof -
  have s': "s' = snd (snd (gguf_generate llama context_tokens now prompt session_id config r s))"
    using assms(1) by simp
  obtain ch r1 where check: "check_cancelled r = (ch, r1)" by fastforce
  have "map_option lookups (cs_stats s') =
      map_option (\<lambda>st. lookups st + (if looks_up llama context_tokens prompt session_id r s then 1 else 0)) (cs_stats s)"
  proof (cases "ch = Inr () \<and> (\<exists>tokens. ll_str_to_token llama prompt = Inr tokens \<and> tokens \<noteq> [] \<and>
      length tokens < unat context_tokens)")
    case False
    with check assms(2) show ?thesis unfolding s'
      by (cases ch; cases "ll_str_to_token llama prompt")
        (auto simp: gguf_generate_def looks_up_def with_context_def Let_def not_less counter_defs)
  next
    case True
    then obtain tokens where tokens: "ch = Inr ()" "ll_str_to_token llama prompt = Inr tokens" "tokens \<noteq> []"
      "length tokens < unat context_tokens" by blast
    let ?s = "expire_idle now (if prompt_is_cacheable (cs_config s) session_id tokens then s else bump increment_misses s)"
    obtain sel sx where sel: "take_context llama session_id tokens ?s = (sel, sx)" by fastforce
    have "lookups (increment_misses st) = lookups st + 1" by (simp add: counter_defs)
    then have "map_option lookups (cs_stats sx) = map_option (\<lambda>st. lookups st + 1) (cs_stats s)"
      using take_lookups [of llama session_id tokens ?s] expire_lookups [of now s]
        expire_lookups [of now "bump increment_misses s"] sel assms(2)
      by (auto simp: bump_lookups split: if_splits)
    moreover have "looks_up llama context_tokens prompt session_id r s"
      using check tokens by (simp add: looks_up_def)
    ultimately show ?thesis
      unfolding s' using after_lookup [OF check [unfolded tokens(1)] tokens(2-4) sel] by simp
  qed
  then obtain st' where "cs_stats s' = Some st'"
    "lookups st' = lookups st + (if looks_up llama context_tokens prompt session_id r s then 1 else 0)"
    using assms(2) by (cases "cs_stats s'") auto
  then show ?thesis by (auto simp: metrics_read lookups_def)
qed

definition demo_counted :: "(nat, demo_context) cache_state" where
  "demo_counted = demo_empty\<lparr>cs_stats := Some session_cache_stats_default\<rparr>"

lemma demo_looks_up: "looks_up demo_llama 2048 ''abc'' None demo_run demo_counted"
  by (simp add: looks_up_def demo_counted_def demo_gguf_defs)

theorem metrics_count_lookups_witness:
  "\<exists>st' hits' misses'.
     cs_stats (snd (snd (gguf_generate demo_llama 2048 1 ''abc'' None demo_config demo_run demo_counted))) = Some st' \<and>
     metric ''hits'' st' = Some hits' \<and> metric ''misses'' st' = Some misses' \<and> hits' + misses' = 1"
proof -
  obtain result r' s' where run: "gguf_generate demo_llama 2048 1 ''abc'' None demo_config demo_run demo_counted = (result, r', s')"
    by (metis prod.collapse)
  have "cs_stats demo_counted = Some session_cache_stats_default" by (simp add: demo_counted_def)
  from metrics_count_lookups [OF run this] run show ?thesis
    using demo_looks_up by (auto simp: metrics_read session_cache_stats_default_def)
qed

end
