(* ===== verification/Gguf_Load.thy ===== *)
theory Gguf_Load
  imports Gguf Models
begin

text \<open>
  What happens before a GGUF model runs: \<open>crates/decompute-llama/src/lib.rs\<close> (metadata, source
  check, local manifest), the template registry of \<open>templates.rs\<close> and \<open>GgufModel::load\<close> of
  \<open>runtime.rs\<close>. The GGUF reader, llama.cpp, minijinja, SHA-256 and the file system are
  parameters.
\<close>

lemma error_context_Inr [simp]: "error_context message r = Inr x \<longleftrightarrow> r = Inr x"
  by (cases r) (simp_all add: error_context_def)

lemma error_context_ok [simp]: "error_context message (Inr x) = Inr x"
  by (simp add: error_context_def)

section \<open>Metadata\<close>

text \<open>A GGUF context as the binding gives it: a key has a negative index if it is absent.\<close>

record gguf_context =
  gx_find_key :: "string \<Rightarrow> int"
  gx_val_str :: "int \<Rightarrow> string option"
  gx_is_u32 :: "int \<Rightarrow> bool"
  gx_val_u32 :: "int \<Rightarrow> u32"
  gx_n_tensors :: int

record gguf_model_info =
  gi_path :: string
  gi_architecture :: string
  gi_trained_context_tokens :: u32
  gi_name :: "string option"
  gi_chat_template :: "string option"
  gi_tensor_count :: int

definition metadata :: "gguf_context \<Rightarrow> string \<Rightarrow> string option" where
  "metadata context key =
     (let index = gx_find_key context key in if 0 \<le> index then gx_val_str context index else None)"

definition inspect :: "(string \<Rightarrow> anyhow + gguf_context) \<Rightarrow> string \<Rightarrow> anyhow + gguf_model_info" where
  "inspect read_gguf path =
     (case error_context (''read GGUF metadata from '' @ path) (read_gguf path) of
        Inl e \<Rightarrow> Inl e
      | Inr context \<Rightarrow>
          (case (case metadata context ''general.architecture'' of
                   Some a \<Rightarrow> Some a | None \<Rightarrow> metadata context ''llama.architecture'') of
             None \<Rightarrow> Inl [''GGUF model has no general.architecture metadata'']
           | Some architecture \<Rightarrow>
               (let key = architecture @ ''.context_length''; index = gx_find_key context key in
                if index < 0 then Inl [''GGUF model has no '' @ key @ '' metadata'']
                else if \<not> gx_is_u32 context index
                then Inl [''GGUF metadata '' @ key @ '' must be an unsigned 32-bit integer'']
                else if gx_val_u32 context index = 0
                then Inl [''GGUF metadata '' @ key @ '' must be greater than zero'']
                else Inr \<lparr>gi_path = path, gi_architecture = architecture,
                          gi_trained_context_tokens = gx_val_u32 context index,
                          gi_name = metadata context ''general.name'',
                          gi_chat_template = metadata context ''tokenizer.chat_template'',
                          gi_tensor_count = gx_n_tensors context\<rparr>)))"

definition validate_source :: "(string \<Rightarrow> anyhow + gguf_context) \<Rightarrow> string \<Rightarrow> anyhow + unit" where
  "validate_source read_gguf path =
     (if path_extension path \<noteq> Some ''gguf'' then Inl [''expected a .gguf model file, got '' @ path]
      else map_sum id (\<lambda>_. ()) (inspect read_gguf path))"

definition local_manifest ::
  "(string \<Rightarrow> anyhow + gguf_context) \<Rightarrow> (string \<Rightarrow> anyhow + bytes) \<Rightarrow> (bytes \<Rightarrow> string) \<Rightarrow> string \<Rightarrow>
   anyhow + model_manifest" where
  "local_manifest read_gguf read_file sha256 path =
     (case inspect read_gguf path of
        Inl e \<Rightarrow> Inl e
      | Inr info \<Rightarrow>
          (case error_context (''read '' @ path) (read_file path) of
             Inl e \<Rightarrow> Inl e
           | Inr bytes \<Rightarrow>
               (let file = \<lparr>mf_path = (case path_file_name path of Some name \<Rightarrow> name | None \<Rightarrow> []),
                            mf_sha256 = sha256 bytes\<rparr>
                in Inr \<lparr>mm_id = ''sha256:'' @ sha256 (mf_path file @ mf_sha256 file),
                        mm_architecture = gi_architecture info, mm_revision = ''local'',
                        mm_quantization = None, mm_files = [file]\<rparr>)))"

section \<open>Templates\<close>

text \<open>The sidecar directory as the file system shows it: the entries of a directory in the order
  \<open>read_dir\<close> gives them, and what reading a file yields.\<close>

datatype dir_entry =
    BadEntry string
  | UnreadableDir string anyhow
  | SubDir string "dir_entry list"
  | PlainFile string "anyhow + string"

datatype sidecar = NoDirectory | Unreadable anyhow | Entries "dir_entry list"

text \<open>The templates of the minijinja environment by name, and the names that can be requested.\<close>

record template_registry =
  tr_environment :: "(string \<times> string) list"
  tr_names :: "string list"
  tr_qwen :: bool

type_synonym loading = "(string \<times> string) list \<times> string list"

definition path_file_stem :: "string \<Rightarrow> string" where
  "path_file_stem name =
     (if CHR ''.'' \<in> set (tl name) then rev (tl (dropWhile (\<lambda>c. c \<noteq> CHR ''.'') (rev name))) else name)"

text \<open>\<open>add_template_owned\<close>: a template that does not parse is refused, an older one of the same name
  is replaced.\<close>

definition add_template ::
  "(string \<Rightarrow> string \<Rightarrow> anyhow option) \<Rightarrow> string \<Rightarrow> string \<Rightarrow> loading \<Rightarrow> anyhow + loading" where
  "add_template parse name source l =
     (case parse name source of
        Some e \<Rightarrow> Inl e
      | None \<Rightarrow> Inr (AList.update name source (fst l), snd l))"

definition template_name :: "string list \<Rightarrow> string \<Rightarrow> string" where
  "template_name parents name =
     map (\<lambda>c. if c = CHR 0x5C then CHR ''/'' else c) (str_join ''/'' (parents @ [name]))"

fun load_directory ::
  "(string \<Rightarrow> string \<Rightarrow> anyhow option) \<Rightarrow> (string list \<Rightarrow> string) \<Rightarrow> string list \<Rightarrow> dir_entry list \<Rightarrow>
   loading \<Rightarrow> anyhow + loading" where
  "load_directory parse display parents [] l = Inr l"
| "load_directory parse display parents (BadEntry e # entries) l = Inl [e]"
| "load_directory parse display parents (UnreadableDir name e # entries) l =
     Inl ((''read '' @ display (parents @ [name])) # e)"
| "load_directory parse display parents (SubDir name inner # entries) l =
     (case load_directory parse display (parents @ [name]) inner l of
        Inl e \<Rightarrow> Inl e
      | Inr l \<Rightarrow> load_directory parse display parents entries l)"
| "load_directory parse display parents (PlainFile name read # entries) l =
     (if path_extension name \<noteq> Some ''jinja'' then load_directory parse display parents entries l
      else (case error_context (''read '' @ display (parents @ [name])) read of
              Inl e \<Rightarrow> Inl e
            | Inr source \<Rightarrow>
                (case add_template parse (template_name parents name) source l of
                   Inl e \<Rightarrow> Inl e
                 | Inr l \<Rightarrow>
                     if parents = []
                     then (case add_template parse (path_file_stem name) source l of
                             Inl e \<Rightarrow> Inl e
                           | Inr l \<Rightarrow> load_directory parse display parents entries
                                        (fst l, snd l @ [path_file_stem name]))
                     else load_directory parse display parents entries l)))"

definition sidecar_directory :: "string \<Rightarrow> string" where
  "sidecar_directory model_path = model_path @ ''.templates''"

text \<open>\<open>qwen_tools\<close> is the text of the built-in template.\<close>

definition load_templates ::
  "(string \<Rightarrow> string \<Rightarrow> anyhow option) \<Rightarrow> string \<Rightarrow> (string \<Rightarrow> sidecar) \<Rightarrow> string \<Rightarrow> string \<Rightarrow>
   anyhow + template_registry" where
  "load_templates parse qwen_tools directory model_path architecture =
     (case add_template parse ''qwen-tools'' qwen_tools ([], [''qwen-tools'']) of
        Inl e \<Rightarrow> Inl e
      | Inr l \<Rightarrow>
          (let root = sidecar_directory model_path in
           case (case directory root of
                   NoDirectory \<Rightarrow> Inr l
                 | Unreadable e \<Rightarrow> Inl ((''read '' @ root) # e)
                 | Entries entries \<Rightarrow>
                     load_directory parse (\<lambda>names. str_join ''/'' (root # names)) [] entries l) of
             Inl e \<Rightarrow> Inl e
           | Inr (environment, names) \<Rightarrow>
               Inr \<lparr>tr_environment = environment, tr_names = sort names, tr_qwen = is_qwen architecture\<rparr>))"

definition registry_select :: "template_registry \<Rightarrow> string option \<Rightarrow> bool \<Rightarrow> string + string option" where
  "registry_select r = select_template (tr_names r) (tr_qwen r)"

text \<open>\<open>render\<close>; \<open>run_template\<close> is the template engine.\<close>

definition render_template ::
  "(string \<Rightarrow> chat_message list \<Rightarrow> tool_definition list \<Rightarrow> string + string) \<Rightarrow> template_registry \<Rightarrow>
   string \<Rightarrow> chat_message list \<Rightarrow> tool_definition list \<Rightarrow> string + string" where
  "render_template run_template r name messages tools =
     (case map_of (tr_environment r) name of
        None \<Rightarrow> Inl (''load template '' @ str_debug name)
      | Some source \<Rightarrow>
          (case run_template source messages tools of
             Inl _ \<Rightarrow> Inl (''render template '' @ str_debug name)
           | Inr prompt \<Rightarrow> Inr prompt))"

section \<open>Every listed template exists\<close>

text \<open>The names a sidecar directory adds: the stems of the template files at its top.\<close>

definition entry_alias :: "dir_entry \<Rightarrow> string option" where
  "entry_alias e =
     (case e of
        PlainFile name _ \<Rightarrow> if path_extension name = Some ''jinja'' then Some (path_file_stem name) else None
      | _ \<Rightarrow> None)"

definition sidecar_aliases :: "sidecar \<Rightarrow> string list" where
  "sidecar_aliases d = (case d of Entries entries \<Rightarrow> List.map_filter entry_alias entries | _ \<Rightarrow> [])"

lemma entry_alias_simps [simp]:
  "entry_alias (BadEntry e) = None" "entry_alias (UnreadableDir name e') = None"
  "entry_alias (SubDir name inner) = None"
  "entry_alias (PlainFile name read) =
     (if path_extension name = Some ''jinja'' then Some (path_file_stem name) else None)"
  by (simp_all add: entry_alias_def)

lemma add_template_Inr:
  "add_template parse name source l = Inr l' \<Longrightarrow>
     dom (map_of (fst l')) = insert name (dom (map_of (fst l))) \<and> snd l' = snd l"
  by (auto simp: add_template_def update_conv' split: option.splits)

lemma load_directory_Inr:
  "load_directory parse display parents entries l = Inr l' \<Longrightarrow>
     dom (map_of (fst l)) \<subseteq> dom (map_of (fst l')) \<and>
     (if parents = []
      then snd l' = snd l @ List.map_filter entry_alias entries \<and>
           set (List.map_filter entry_alias entries) \<subseteq> dom (map_of (fst l'))
      else snd l' = snd l)"
proof (induction parse display parents entries l arbitrary: l' rule: load_directory.induct)
  case (4 parse display parents name inner entries l)
  from "4.prems" obtain l1 where inner: "load_directory parse display (parents @ [name]) inner l = Inr l1"
    and rest: "load_directory parse display parents entries l1 = Inr l'"
    by (auto split: sum.splits)
  from "4.IH"(1) [OF inner] "4.IH"(2) [OF inner rest] show ?case
    by (cases "parents = []") (simp_all add: map_filter_simps, blast+)
next
  case (5 parse display parents name read entries l)
  show ?case
  proof (cases "path_extension name = Some ''jinja''")
    case False
    with 5 show ?thesis by (simp add: map_filter_simps)
  next
    case True
    with "5.prems" obtain source l1 where source: "error_context (''read '' @ display (parents @ [name])) read = Inr source"
      and l1: "add_template parse (template_name parents name) source l = Inr l1"
      by (auto split: sum.splits)
    show ?thesis
    proof (cases "parents = []")
      case False
      with "5.prems" True source l1 have rest: "load_directory parse display parents entries l1 = Inr l'" by simp
      from "5.IH"(3) [OF _ source l1 False rest] True add_template_Inr [OF l1] False show ?thesis by auto
    next
      case root: True
      with "5.prems" True source l1 obtain l2 where l2: "add_template parse (path_file_stem name) source l1 = Inr l2"
        and rest: "load_directory parse display parents entries (fst l2, snd l2 @ [path_file_stem name]) = Inr l'"
        by (auto split: sum.splits)
      from "5.IH"(2) [OF _ source l1 root l2 rest] True add_template_Inr [OF l1] add_template_Inr [OF l2] root
      show ?thesis by (auto simp: map_filter_simps)
    qed
  qed
qed (simp_all add: List.map_filter_def)

lemma load_templates_names:
  assumes "load_templates parse qwen_tools directory model_path architecture = Inr r"
  shows "tr_names r = sort (''qwen-tools'' # sidecar_aliases (directory (sidecar_directory model_path)))"
    and "set (tr_names r) \<subseteq> dom (map_of (tr_environment r))"
    and "tr_qwen r = is_qwen architecture"
proof -
  obtain l where l: "add_template parse ''qwen-tools'' qwen_tools ([], [''qwen-tools'']) = Inr l"
    using assms by (auto simp: load_templates_def split: sum.splits)
  note builtin = add_template_Inr [OF l]
  let ?d = "directory (sidecar_directory model_path)"
  obtain l' where l': "dom (map_of (fst l)) \<subseteq> dom (map_of (fst l'))" "snd l' = snd l @ sidecar_aliases ?d"
      "set (sidecar_aliases ?d) \<subseteq> dom (map_of (fst l'))"
    and r: "r = \<lparr>tr_environment = fst l', tr_names = sort (snd l'), tr_qwen = is_qwen architecture\<rparr>"
  proof (cases ?d)
    case NoDirectory
    with assms l that [of l] show ?thesis by (simp add: load_templates_def sidecar_aliases_def case_prod_beta)
  next
    case (Unreadable e)
    with assms l show ?thesis by (simp add: load_templates_def Let_def)
  next
    case (Entries entries)
    with assms l obtain l' where load: "load_directory parse (\<lambda>names. str_join ''/'' (sidecar_directory model_path # names)) []
        entries l = Inr l'"
      and r: "r = \<lparr>tr_environment = fst l', tr_names = sort (snd l'), tr_qwen = is_qwen architecture\<rparr>"
      by (auto simp: load_templates_def Let_def split: sum.splits)
    from load_directory_Inr [OF load] Entries r show ?thesis by (intro that [of l']) (simp_all add: sidecar_aliases_def)
  qed
  show "tr_names r = sort (''qwen-tools'' # sidecar_aliases ?d)" using builtin l'(2) by (simp add: r)
  show "set (tr_names r) \<subseteq> dom (map_of (tr_environment r))"
  proof -
    have "set (tr_names r) = insert ''qwen-tools'' (set (sidecar_aliases ?d))" using builtin l'(2)
      by (simp add: r set_insort_key)
    moreover have "''qwen-tools'' \<in> dom (map_of (fst l'))" using builtin l'(1) by blast
    ultimately show ?thesis using l'(3) by (simp add: r)
  qed
  show "tr_qwen r = is_qwen architecture" by (simp add: r)
qed

text \<open>
  A template registry that loads lists the built-in template and the template files at the
  top of the sidecar directory, sorted; and whatever name is selected, requested or for tools, the
  environment has a template under it: rendering never fails for want of a template.
\<close>

theorem selected_template_exists:
  assumes "load_templates parse qwen_tools directory model_path architecture = Inr r"
  shows "tr_names r = sort (''qwen-tools'' # sidecar_aliases (directory (sidecar_directory model_path))) \<and>
    (case registry_select r requested has_tools of
       Inr (Some name) \<Rightarrow>
         (\<exists>source. map_of (tr_environment r) name = Some source \<and>
            render_template run_template r name messages tools =
              map_sum (\<lambda>_. ''render template '' @ str_debug name) id (run_template source messages tools))
     | Inr None \<Rightarrow> requested = None \<and> \<not> has_tools
     | Inl _ \<Rightarrow> (case requested of Some name \<Rightarrow> name \<notin> set (tr_names r)
                 | None \<Rightarrow> has_tools \<and> \<not> is_qwen architecture))"
proof -
  note names = load_templates_names [OF assms]
  have stored: "\<exists>source. map_of (tr_environment r) name = Some source \<and>
      render_template run_template r name messages tools =
        map_sum (\<lambda>_. ''render template '' @ str_debug name) id (run_template source messages tools)"
    if "name \<in> set (tr_names r)" for name
  proof -
    from that names(2) obtain source where "map_of (tr_environment r) name = Some source" by auto
    then show ?thesis by (auto simp: render_template_def split: sum.split)
  qed
  have builtin: "''qwen-tools'' \<in> set (tr_names r)" by (simp add: names(1) set_insort_key)
  show ?thesis
    using stored stored [OF builtin] names(1,3)
    by (auto simp: registry_select_def select_template_def simp flip: names(1) split: option.splits)
qed

definition demo_sidecar :: "string \<Rightarrow> sidecar" where
  "demo_sidecar path =
     (if path = ''m.gguf.templates''
      then Entries [SubDir ''parts'' [PlainFile ''head.jinja'' (Inr ''h'')], PlainFile ''short.jinja'' (Inr ''s''),
                    PlainFile ''notes.md'' (Inr ''n'')]
      else NoDirectory)"

theorem selected_template_exists_witness:
  "\<exists>r. load_templates (\<lambda>_ _. None) ''q'' demo_sidecar ''m.gguf'' ''qwen2'' = Inr r \<and>
     tr_names r = [''qwen-tools'', ''short''] \<and>
     (\<exists>source. map_of (tr_environment r) ''short'' = Some source)"
proof -
  let ?load = "load_templates (\<lambda>_ _. None) ''q'' demo_sidecar ''m.gguf'' ''qwen2''"
  have "map_sum id tr_names ?load = Inr [''qwen-tools'', ''short'']" by code_simp
  then obtain r where r: "?load = Inr r" "tr_names r = [''qwen-tools'', ''short'']" by (cases ?load) auto
  have "registry_select r (Some ''short'') False = Inr (Some ''short'')"
    by (simp add: registry_select_def select_template_def r(2))
  with selected_template_exists [OF r(1), where requested = "Some ''short''" and has_tools = False
      and run_template = "\<lambda>_ _ _. Inr []" and messages = "[]" and tools = "[]"] r show ?thesis
    by auto
qed

section \<open>Loading a model\<close>

record gguf_load_config =
  lc_context_tokens :: u32
  lc_gpu_layers :: "u32 option"
  lc_session_cache :: session_cache_config
  lc_session_cache_stats :: "session_cache_stats option"

text \<open>The native side: llama.cpp's backend and loader, and the libraries the model uses.\<close>

record 'n native =
  nv_backend :: "anyhow + unit"
  nv_load :: "string \<Rightarrow> u32 option \<Rightarrow> anyhow + 'n"
  nv_read_gguf :: "string \<Rightarrow> anyhow + gguf_context"
  nv_parse_template :: "string \<Rightarrow> string \<Rightarrow> anyhow option"
  nv_qwen_tools :: string
  nv_directory :: "string \<Rightarrow> sidecar"

record 'n loaded_model =
  lm_model :: 'n
  lm_path :: string
  lm_context_tokens :: u32
  lm_templates :: template_registry
  lm_qwen_tool_calls :: bool
  lm_session_cache_config :: session_cache_config
  lm_session_cache_stats :: "session_cache_stats option"

definition gguf_load :: "'n native \<Rightarrow> string \<Rightarrow> gguf_load_config \<Rightarrow> anyhow + 'n loaded_model" where
  "gguf_load nv path config =
     (if lc_context_tokens config = 0 then Inl [''GGUF context_tokens must be greater than zero'']
      else
        (case validate_source (nv_read_gguf nv) path of
           Inl e \<Rightarrow> Inl e
         | Inr _ \<Rightarrow>
             (case inspect (nv_read_gguf nv) path of
                Inl e \<Rightarrow> Inl e
              | Inr info \<Rightarrow>
                  (case nv_backend nv of
                     Inl e \<Rightarrow> Inl e
                   | Inr _ \<Rightarrow>
                       (case error_context (''load GGUF model '' @ path) (nv_load nv path (lc_gpu_layers config)) of
                          Inl e \<Rightarrow> Inl e
                        | Inr model \<Rightarrow>
                            (case load_templates (nv_parse_template nv) (nv_qwen_tools nv) (nv_directory nv) path
                                    (gi_architecture info) of
                               Inl e \<Rightarrow> Inl e
                             | Inr templates \<Rightarrow>
                                 Inr \<lparr>lm_model = model, lm_path = path,
                                      lm_context_tokens = lc_context_tokens config, lm_templates = templates,
                                      lm_qwen_tool_calls = is_qwen (gi_architecture info),
                                      lm_session_cache_config = lc_session_cache config,
                                      lm_session_cache_stats = lc_session_cache_stats config\<rparr>))))))"

lemma inspect_Inr:
  "inspect read_gguf path = Inr info \<Longrightarrow>
     gi_trained_context_tokens info \<noteq> 0 \<and> gi_path info = path \<and> (\<exists>context. read_gguf path = Inr context)"
  by (auto simp: inspect_def Let_def split: sum.splits option.splits if_splits)

lemma gguf_load_Inr:
  assumes "gguf_load nv path config = Inr m"
  shows "lm_context_tokens m = lc_context_tokens config" "lc_context_tokens config \<noteq> 0"
    and "path_extension path = Some ''gguf''" "nv_load nv path (lc_gpu_layers config) = Inr (lm_model m)"
    and "\<exists>info. inspect (nv_read_gguf nv) path = Inr info \<and>
           load_templates (nv_parse_template nv) (nv_qwen_tools nv) (nv_directory nv) path (gi_architecture info) =
             Inr (lm_templates m)"
    and "lm_qwen_tool_calls m = tr_qwen (lm_templates m)" "lm_path m = path"
    and "lm_session_cache_config m = lc_session_cache config"
  using assms load_templates_names(3)
  by (auto simp: gguf_load_def validate_source_def split: sum.splits if_splits)

end
