(* ===== verification/Worker_Main.thy ===== *)
theory Worker_Main
  imports Gguf_Load Sdk
begin

text \<open>
  The start of a worker, \<open>crates/worker/src/main.rs\<close>: the context size on the command line, the
  choice of a device with its fall back to the CPU, and the sequence from the catalog to a
  \<open>WorkerRuntime\<close> that may be advertised. Argument parsing by clap and the sockets are left out.
\<close>

section \<open>The context size\<close>

datatype context_tokens = ContextAuto | ContextExplicit u32

text \<open>\<open>str::parse::<NonZeroU32>\<close>: an optional plus sign and decimal digits of a number in range.\<close>

definition parse_nonzero_u32 :: "string \<Rightarrow> u32 option" where
  "parse_nonzero_u32 s =
     (let digits = (case strip_prefix ''+'' s of Some rest \<Rightarrow> rest | None \<Rightarrow> s) in
      if digits = [] \<or> \<not> list_all is_ascii_digit digits then None
      else if decimal_value digits = 0 \<or> 2 ^ 32 \<le> decimal_value digits then None
      else Some (of_nat (decimal_value digits)))"

definition context_tokens_from_str :: "string \<Rightarrow> string + context_tokens" where
  "context_tokens_from_str s =
     (if eq_ignore_ascii_case s ''auto'' then Inr ContextAuto
      else (case parse_nonzero_u32 s of
              Some n \<Rightarrow> Inr (ContextExplicit n)
            | None \<Rightarrow> Inl ''expected `auto` or a positive integer''))"

fun context_tokens_to_string :: "context_tokens \<Rightarrow> string" where
  "context_tokens_to_string ContextAuto = ''auto''"
| "context_tokens_to_string (ContextExplicit n) = show_nat (unat n)"

definition resolve_context_tokens :: "context_tokens \<Rightarrow> u32 \<Rightarrow> u32" where
  "resolve_context_tokens selection trained =
     (case selection of ContextAuto \<Rightarrow> trained | ContextExplicit n \<Rightarrow> n)"

lemma digit_not_letter: "is_ascii_digit c \<Longrightarrow> c \<noteq> CHR ''+'' \<and> to_ascii_lower c \<noteq> CHR ''a''"
  by (auto simp: is_ascii_digit_def in_range_def to_ascii_lower_def)

text \<open>
  The context size round-trips: the text of every setting, \<open>auto\<close> or a positive number of 32
  bits, parses back to it; and whatever parses is \<open>auto\<close> or positive.
\<close>

theorem context_tokens_roundtrip:
  "(selection \<noteq> ContextExplicit 0 \<longrightarrow>
      context_tokens_from_str (context_tokens_to_string selection) = Inr selection) \<and>
   context_tokens_from_str s \<noteq> Inr (ContextExplicit 0)"
proof
  show "selection \<noteq> ContextExplicit 0 \<longrightarrow>
      context_tokens_from_str (context_tokens_to_string selection) = Inr selection"
  proof (cases selection)
    case ContextAuto
    then show ?thesis by (simp add: context_tokens_from_str_def eq_ignore_ascii_case_def)
  next
    case (ContextExplicit n)
    let ?s = "show_nat (unat n)"
    note digits = show_nat_digits [of "unat n"]
    then obtain c cs where c: "?s = c # cs" "is_ascii_digit c" by (cases ?s) auto
    then have "strip_prefix ''+'' ?s = None" "\<not> eq_ignore_ascii_case ?s ''auto''"
      using digit_not_letter [OF c(2)]
      by (auto simp: eq_ignore_ascii_case_def to_ascii_lowercase_def to_ascii_lower_def in_range_def)
    moreover have "unat n < 2 ^ 32" using unsigned_less [of n] by simp
    ultimately show ?thesis
      using digits ContextExplicit by (auto simp: context_tokens_from_str_def parse_nonzero_u32_def unat_eq_0)
  qed
  have "parse_nonzero_u32 s \<noteq> Some 0"
  proof
    assume "parse_nonzero_u32 s = Some 0"
    then obtain n where n: "0 < n" "n < 2 ^ 32" "(of_nat n :: u32) = 0"
      by (auto simp: parse_nonzero_u32_def Let_def split: if_splits)
    from n(2) have "unat (of_nat n :: u32) = n" by (simp add: unat_of_nat)
    with n show False by simp
  qed
  then show "context_tokens_from_str s \<noteq> Inr (ContextExplicit 0)"
    by (auto simp: context_tokens_from_str_def split: option.splits)
qed

section \<open>Loading on a device\<close>

datatype device_choice = AutoDevice | CpuDevice | MetalDevice

text \<open>The libraries around a loaded model, and the model as its thread runs it.\<close>

record ('t, 'c, 'd) libraries =
  lb_run_template :: "string \<Rightarrow> chat_message list \<Rightarrow> tool_definition list \<Rightarrow> string + string"
  lb_render_embedded :: "('t, 'c, 'd) llama \<Rightarrow> chat_message list \<Rightarrow> string + string"
  lb_parse_json :: "string \<Rightarrow> string + json_value"
  lb_show_uuid :: "uuid \<Rightarrow> string"
  lb_as_f32 :: "nat \<Rightarrow> f32"

definition model_of ::
  "('t, 'c, 'd) libraries \<Rightarrow> ('t, 'c, 'd) llama loaded_model \<Rightarrow> ('t, 'c, 'd) gguf_model" where
  "model_of lb m =
     \<lparr>gm_chat =
        \<lparr>ch_names = tr_names (lm_templates m), ch_qwen = tr_qwen (lm_templates m),
         ch_render = render_template (lb_run_template lb) (lm_templates m),
         ch_render_embedded = lb_render_embedded lb (lm_model m), ch_parse_json = lb_parse_json lb,
         ch_show_uuid = lb_show_uuid lb\<rparr>,
      gm_llama = lm_model m, gm_context_tokens = lm_context_tokens m, gm_as_f32 = lb_as_f32 lb\<rparr>"

definition load_config ::
  "u32 \<Rightarrow> u32 option \<Rightarrow> session_cache_config \<Rightarrow> session_cache_stats option \<Rightarrow> gguf_load_config" where
  "load_config context_tokens gpu_layers session_cache stats =
     \<lparr>lc_context_tokens = context_tokens, lc_gpu_layers = gpu_layers, lc_session_cache = session_cache,
      lc_session_cache_stats = stats\<rparr>"

text \<open>The counters are shared with the caller, so they are returned also after a failure.\<close>

type_synonym ('t, 'c, 'd) handle = "('t, 'c, 'd) llama loaded_model \<times> ('t, 'c) cache_state \<times> acceleration"

definition load_and_verify ::
  "('t, 'c, 'd) llama native \<Rightarrow> ('t, 'c, 'd) libraries \<Rightarrow> instant \<Rightarrow> string \<Rightarrow> gguf_load_config \<Rightarrow> acceleration \<Rightarrow>
   (anyhow + ('t, 'c, 'd) handle) \<times> session_cache_stats option" where
  "load_and_verify nv lb now path config acceleration =
     (case error_context ''load local GGUF model'' (gguf_load nv path config) of
        Inl e \<Rightarrow> (Inl e, lc_session_cache_stats config)
      | Inr m \<Rightarrow>
          (let cache = loaded_cache (lm_session_cache_config m) (lm_session_cache_stats m) in
           case smoke_test (model_of lb m) now 0 cache of
             (Inl e, cache) \<Rightarrow> (Inl [e], cs_stats cache)
           | (Inr _, cache) \<Rightarrow> (Inr (m, cache, acceleration), cs_stats cache)))"

text \<open>\<open>metal\<close>: whether Metal support was compiled.\<close>

definition load_model ::
  "bool \<Rightarrow> ('t, 'c, 'd) llama native \<Rightarrow> ('t, 'c, 'd) libraries \<Rightarrow> instant \<Rightarrow> string \<Rightarrow> device_choice \<Rightarrow> u32 \<Rightarrow>
   session_cache_config \<Rightarrow> session_cache_stats option \<Rightarrow>
   (anyhow + ('t, 'c, 'd) handle) \<times> session_cache_stats option" where
  "load_model metal nv lb now path device context_tokens session_cache stats =
     (let on_cpu = (\<lambda>stats. load_and_verify nv lb now path
            (load_config context_tokens (Some 0) session_cache stats) Cpu);
          on_metal = load_and_verify nv lb now path
            (load_config context_tokens (Some (- 1)) session_cache stats) Metal in
      case device of
        CpuDevice \<Rightarrow> on_cpu stats
      | MetalDevice \<Rightarrow>
          if metal then on_metal
          else (Inl [''Metal support was not compiled; run with --features metal''], stats)
      | AutoDevice \<Rightarrow>
          if metal
          then (case on_metal of (Inr loaded, stats) \<Rightarrow> (Inr loaded, stats) | (Inl _, stats) \<Rightarrow> on_cpu stats)
          else on_cpu stats)"

section \<open>The start\<close>

record worker_args =
  wa_port :: nat
  wa_node_id :: string
  wa_coordinator :: string
  wa_model :: string
  wa_model_path :: "string option"
  wa_context_tokens :: context_tokens
  wa_bind :: string
  wa_advertise_address :: "string option"
  wa_max_requests :: usize
  wa_session_cache_capacity :: usize
  wa_session_cache_min_tokens :: usize
  wa_session_cache_max_bytes :: usize
  wa_session_cache_idle_ttl_secs :: u64
  wa_session_cache_slot_wait_secs :: u64
  wa_device :: device_choice

definition worker_address :: "worker_args \<Rightarrow> string" where
  "worker_address args =
     (case wa_advertise_address args of
        Some address \<Rightarrow> address
      | None \<Rightarrow> ''http://'' @ wa_bind args @ '':'' @ show_nat (wa_port args))"

definition session_cache_of :: "worker_args \<Rightarrow> session_cache_config" where
  "session_cache_of args =
     \<lparr>sc_min_tokens = wa_session_cache_min_tokens args, sc_max_entries = wa_session_cache_capacity args,
      sc_max_bytes = wa_session_cache_max_bytes args,
      sc_idle_ttl_ms = saturating_mul (wa_session_cache_idle_ttl_secs args) 1000,
      sc_slot_wait_timeout_ms = saturating_mul (wa_session_cache_slot_wait_secs args) 1000\<rparr>"

text \<open>What the machine tells: its name and memory (\<open>hardware_info\<close>).\<close>

record machine_info =
  mi_architecture :: string
  mi_total_memory :: u64
  mi_available_memory :: u64

definition hardware_info_of :: "machine_info \<Rightarrow> acceleration \<Rightarrow> hardware_info" where
  "hardware_info_of mi acceleration =
     \<lparr>hw_architecture = mi_architecture mi, hw_total_memory_bytes = mi_total_memory mi,
      hw_available_memory_bytes = mi_available_memory mi, hw_acceleration = acceleration\<rparr>"

record ('t, 'c, 'd) worker_host =
  wh_catalog :: "anyhow + model_catalog"
  wh_surroundings :: surroundings
  wh_metal :: bool
  wh_native :: "('t, 'c, 'd) llama native"
  wh_libraries :: "('t, 'c, 'd) libraries"
  wh_machine :: machine_info
  wh_now :: instant

text \<open>Everything \<open>main\<close> does before the first registration.\<close>

definition worker_startup ::
  "('t, 'c, 'd) worker_host \<Rightarrow> worker_args \<Rightarrow> anyhow + worker_runtime \<times> ('t, 'c, 'd) handle" where
  "worker_startup wh args =
     (case wh_catalog wh of
        Inl e \<Rightarrow> Inl e
      | Inr catalog \<Rightarrow>
     (case catalog_get catalog (wa_model args) of
        Inl e \<Rightarrow> Inl e
      | Inr entry \<Rightarrow>
     (case fst (resolve_with_progress (wh_surroundings wh) entry (wa_model_path args) None) of
        Inl e \<Rightarrow> Inl [resolve_error_to_string e]
      | Inr resolved \<Rightarrow>
     (case inspect (nv_read_gguf (wh_native wh)) (rm_path resolved) of
        Inl e \<Rightarrow> Inl e
      | Inr info \<Rightarrow>
     (let context_tokens =
            resolve_context_tokens (wa_context_tokens args) (gi_trained_context_tokens info) in
      case fst (load_model (wh_metal wh) (wh_native wh) (wh_libraries wh) (wh_now wh) (rm_path resolved)
             (wa_device args) context_tokens (session_cache_of args) (Some session_cache_stats_default)) of
        Inl e \<Rightarrow> Inl e
      | Inr (m, cache, acceleration) \<Rightarrow>
          Inr (new_runtime (wa_node_id args) (ct_id (rm_entry resolved)) (worker_address args)
                 (wa_max_requests args) (rm_manifest resolved)
                 (hardware_info_of (wh_machine wh) acceleration) (session_cache_of args),
               (m, cache, acceleration)))))))"

section \<open>What is advertised\<close>

text \<open>A model that was loaded for a device and passed its smoke test there.\<close>

definition runs_on ::
  "('t, 'c, 'd) llama native \<Rightarrow> ('t, 'c, 'd) libraries \<Rightarrow> instant \<Rightarrow> string \<Rightarrow> u32 \<Rightarrow> session_cache_config \<Rightarrow>
   acceleration \<Rightarrow> ('t, 'c, 'd) llama loaded_model \<Rightarrow> bool" where
  "runs_on nv lb now path context_tokens session_cache acceleration m \<longleftrightarrow>
     nv_load nv path (Some (if acceleration = Metal then - 1 else 0)) = Inr (lm_model m) \<and>
     lm_path m = path \<and> lm_context_tokens m = context_tokens \<and> context_tokens \<noteq> 0 \<and>
     lm_session_cache_config m = session_cache \<and>
     (\<exists>stats. fst (smoke_test (model_of lb m) now 0 (loaded_cache session_cache stats)) = Inr ())"

lemma load_and_verify_Inr:
  assumes "fst (load_and_verify nv lb now path (load_config context_tokens
      (Some (if acceleration = Metal then - 1 else 0)) session_cache stats) acceleration) = Inr (m, cache, acc)"
  shows "acc = acceleration \<and> runs_on nv lb now path context_tokens session_cache acceleration m"
proof -
  let ?config = "load_config context_tokens (Some (if acceleration = Metal then - 1 else 0)) session_cache stats"
  obtain m' where m': "gguf_load nv path ?config = Inr m'"
    using assms by (auto simp: load_and_verify_def split: sum.splits)
  let ?cache = "loaded_cache (lm_session_cache_config m') (lm_session_cache_stats m')"
  obtain r cache' where smoke: "smoke_test (model_of lb m') now 0 ?cache = (r, cache')"
    by (cases "smoke_test (model_of lb m') now 0 ?cache")
  have "r = Inr ()" "m = m'" "acc = acceleration"
    using assms m' smoke by (auto simp: load_and_verify_def Let_def split: sum.splits)
  with gguf_load_Inr [OF m'] smoke show ?thesis
    by (auto simp: runs_on_def load_config_def intro: exI [of _ "lm_session_cache_stats m'"])
qed

lemma load_model_Inr:
  assumes "fst (load_model metal nv lb now path device context_tokens session_cache stats) = Inr (m, cache, acc)"
  shows "runs_on nv lb now path context_tokens session_cache acc m"
    and "acc = Metal \<longrightarrow> metal" "device = CpuDevice \<longrightarrow> acc = Cpu" "device = MetalDevice \<longrightarrow> acc = Metal"
proof -
  let ?cpu = "\<lambda>stats. load_and_verify nv lb now path (load_config context_tokens (Some 0) session_cache stats) Cpu"
  let ?metal = "load_and_verify nv lb now path (load_config context_tokens (Some (- 1)) session_cache stats) Metal"
  have cpu: "acc = Cpu \<and> runs_on nv lb now path context_tokens session_cache Cpu m"
    if "fst (?cpu stats) = Inr (m, cache, acc)" for stats
    using load_and_verify_Inr [of nv lb now path context_tokens Cpu session_cache stats] that by simp
  have on_metal: "acc = Metal \<and> runs_on nv lb now path context_tokens session_cache Metal m"
    if "fst ?metal = Inr (m, cache, acc)"
    using load_and_verify_Inr [of nv lb now path context_tokens Metal session_cache stats] that by simp
  consider (cpu) stats' where "fst (?cpu stats') = Inr (m, cache, acc)" "device \<noteq> MetalDevice"
    | (metal) "fst ?metal = Inr (m, cache, acc)" metal "device \<noteq> CpuDevice"
    using assms by (cases ?metal; cases device; cases metal) (auto simp: load_model_def Let_def split: sum.splits)
  then have "acc = Cpu \<and> device \<noteq> MetalDevice \<and> runs_on nv lb now path context_tokens session_cache Cpu m \<or>
      acc = Metal \<and> metal \<and> device \<noteq> CpuDevice \<and> runs_on nv lb now path context_tokens session_cache Metal m"
    using cpu on_metal by (cases) blast+
  then show "runs_on nv lb now path context_tokens session_cache acc m"
    and "acc = Metal \<longrightarrow> metal" "device = CpuDevice \<longrightarrow> acc = Cpu" "device = MetalDevice \<longrightarrow> acc = Metal"
    by auto
qed

text \<open>
  C13. A worker advertises itself only with a model it can run: after a start that succeeds the
  advertised id is the requested one, an entry of the catalog; the file is one whose contents have
  the digest the catalog pins, and the manifest carries it; the context size is the requested one
  or, for \<open>auto\<close>, the trained one, and never zero; the model was loaded for the advertised device,
  which is the requested one unless that was left open, and has answered its smoke test; no
  request is active.
\<close>

theorem worker_startup_correct:
  assumes "worker_startup wh args = Inr (w, m, cache, acc)"
  shows "\<exists>catalog entry info.
    wh_catalog wh = Inr catalog \<and> entry \<in> set catalog \<and> ct_id entry = wa_model args \<and>
    wk_model_id w = wa_model args \<and> wk_node_id w = wa_node_id args \<and> wk_active w = 0 \<and> \<not> wk_draining w \<and>
    mm_id (wk_manifest w) = ''sha256:'' @ ct_sha256 entry \<and>
    (is_model_file (sr_sha256 (wh_surroundings wh)) (sr_files (wh_surroundings wh)) (lm_path m) entry \<or>
     is_model_file (sr_sha256 (wh_surroundings wh)) (sr_files_after (wh_surroundings wh)) (lm_path m) entry) \<and>
    inspect (nv_read_gguf (wh_native wh)) (lm_path m) = Inr info \<and>
    lm_context_tokens m =
      (case wa_context_tokens args of ContextAuto \<Rightarrow> gi_trained_context_tokens info | ContextExplicit n \<Rightarrow> n) \<and>
    runs_on (wh_native wh) (wh_libraries wh) (wh_now wh) (lm_path m) (lm_context_tokens m) (session_cache_of args) acc m \<and>
    hw_acceleration (wk_hardware w) = acc \<and>
    (case wa_device args of CpuDevice \<Rightarrow> acc = Cpu | MetalDevice \<Rightarrow> acc = Metal | AutoDevice \<Rightarrow> acc \<in> {Cpu, Metal}) \<and>
    (acc = Metal \<longrightarrow> wh_metal wh)"
proof -
  let ?sr = "wh_surroundings wh" and ?nv = "wh_native wh"
  obtain catalog entry resolved info where catalog: "wh_catalog wh = Inr catalog"
    and entry: "catalog_get catalog (wa_model args) = Inr entry"
    and resolved: "fst (resolve_with_progress ?sr entry (wa_model_path args) None) = Inr resolved"
    and info: "inspect (nv_read_gguf ?nv) (rm_path resolved) = Inr info"
    and load: "fst (load_model (wh_metal wh) ?nv (wh_libraries wh) (wh_now wh) (rm_path resolved) (wa_device args)
      (resolve_context_tokens (wa_context_tokens args) (gi_trained_context_tokens info)) (session_cache_of args)
      (Some session_cache_stats_default)) = Inr (m, cache, acc)"
    and w: "w = new_runtime (wa_node_id args) (ct_id (rm_entry resolved)) (worker_address args)
      (wa_max_requests args) (rm_manifest resolved) (hardware_info_of (wh_machine wh) acc) (session_cache_of args)"
    using assms by (auto simp: worker_startup_def Let_def split: sum.splits)
  note loaded = load_model_Inr [OF load]
  have found: "entry \<in> set catalog" "ct_id entry = wa_model args"
    using entry by (auto simp: catalog_get_def find_Some_iff split: option.splits)
  have path: "lm_path m = rm_path resolved" using loaded(1) by (simp add: runs_on_def)
  have "rm_entry resolved = entry \<and> rm_manifest resolved = manifest_for (rm_path resolved) entry \<and>
      (is_model_file (sr_sha256 ?sr) (sr_files ?sr) (rm_path resolved) entry \<or>
       is_model_file (sr_sha256 ?sr) (sr_files_after ?sr) (rm_path resolved) entry)"
    using settled_resolutions [of ?sr entry "wa_model_path args" None] resolved
    by (auto simp: settled_resolution_def resolved_model_for_def split: sum.splits option.splits)
  moreover have "acc \<in> {Cpu, Metal}" using loaded(1) load
    by (auto simp: load_model_def load_and_verify_def Let_def split: device_choice.splits sum.splits if_splits prod.splits)
  ultimately show ?thesis
    using catalog found info loaded path w
    by (intro exI [of _ catalog] exI [of _ entry] exI [of _ info])
      (auto simp: new_runtime_def hardware_info_of_def manifest_for_def resolve_context_tokens_def runs_on_def
        split: device_choice.splits context_tokens.splits)
qed

section \<open>A sample start\<close>

definition demo_gguf_file :: gguf_context where
  "demo_gguf_file =
     \<lparr>gx_find_key = (\<lambda>k. if k = ''general.architecture'' then 0 else if k = ''qwen2.context_length'' then 1 else - 1),
      gx_val_str = (\<lambda>_. Some ''qwen2''), gx_is_u32 = (\<lambda>_. True), gx_val_u32 = (\<lambda>_. 2048), gx_n_tensors = 1\<rparr>"

definition demo_native :: "(nat, demo_context, unit) llama native" where
  "demo_native =
     \<lparr>nv_backend = Inr (), nv_load = (\<lambda>_ _. Inr demo_llama), nv_read_gguf = (\<lambda>_. Inr demo_gguf_file),
      nv_parse_template = (\<lambda>_ _. None), nv_qwen_tools = ''q'', nv_directory = (\<lambda>_. NoDirectory)\<rparr>"

definition demo_libraries :: "(nat, demo_context, unit) libraries" where
  "demo_libraries =
     \<lparr>lb_run_template = (\<lambda>_ _ _. Inr ''abc''), lb_render_embedded = (\<lambda>_ _. Inr ''abc''),
      lb_parse_json = (\<lambda>_. Inl ''json''), lb_show_uuid = (\<lambda>_. ''r''), lb_as_f32 = (\<lambda>_. 0)\<rparr>"

definition demo_worker_host :: "(nat, demo_context, unit) worker_host" where
  "demo_worker_host =
     \<lparr>wh_catalog = Inr embedded_models,
      wh_surroundings = demo_surroundings\<lparr>sr_files := sr_files_after demo_surroundings\<rparr>, wh_metal = False,
      wh_native = demo_native, wh_libraries = demo_libraries,
      wh_machine = \<lparr>mi_architecture = ''aarch64'', mi_total_memory = 1, mi_available_memory = 1\<rparr>, wh_now = 1\<rparr>"

definition demo_args :: worker_args where
  "demo_args =
     \<lparr>wa_port = 9001, wa_node_id = ''a'', wa_coordinator = ''http://c'', wa_model = ct_id demo_model,
      wa_model_path = Some ''m.gguf'', wa_context_tokens = ContextAuto, wa_bind = ''h'',
      wa_advertise_address = None, wa_max_requests = 1, wa_session_cache_capacity = 1,
      wa_session_cache_min_tokens = 100, wa_session_cache_max_bytes = 0,
      wa_session_cache_idle_ttl_secs = 900, wa_session_cache_slot_wait_secs = 30, wa_device = AutoDevice\<rparr>"

lemma demo_found: "catalog_get embedded_models (ct_id demo_model) = Inr demo_model"
  by (simp add: catalog_get_def demo_model_def embedded_models_def)

lemma demo_resolved:
  "fst (resolve_with_progress (wh_surroundings demo_worker_host) demo_model (Some ''m.gguf'') None) =
     Inr (resolved_model_for demo_model ''m.gguf'' LocalOverride)"
proof -
  have "path_extension ''m.gguf'' = Some ''gguf''" "eq_ignore_ascii_case (ct_sha256 demo_model) (ct_sha256 demo_model)"
    by (code_simp, simp add: eq_ignore_ascii_case_def)
  then show ?thesis
    by (simp add: resolve_with_progress_def demo_model_valid verify_and_finish_def verify_file_with_progress_def
        sha256_file_def demo_worker_host_def demo_surroundings_def Let_def demo_model_def [symmetric])
qed

lemma demo_inspected:
  "inspect (\<lambda>_. Inr demo_gguf_file) path =
     Inr \<lparr>gi_path = path, gi_architecture = ''qwen2'', gi_trained_context_tokens = 2048, gi_name = None,
          gi_chat_template = None, gi_tensor_count = 1\<rparr>"
  by (simp add: inspect_def metadata_def demo_gguf_file_def Let_def)

lemma demo_templates:
  "load_templates (\<lambda>_ _. None) ''q'' (\<lambda>_. NoDirectory) path ''qwen2'' =
     Inr \<lparr>tr_environment = [(''qwen-tools'', ''q'')], tr_names = [''qwen-tools''], tr_qwen = is_qwen ''qwen2''\<rparr>"
  by (simp add: load_templates_def add_template_def Let_def)

definition demo_loaded_model :: "(nat, demo_context, unit) llama loaded_model" where
  "demo_loaded_model =
     \<lparr>lm_model = demo_llama, lm_path = ''m.gguf'', lm_context_tokens = 2048,
      lm_templates = \<lparr>tr_environment = [(''qwen-tools'', ''q'')], tr_names = [''qwen-tools''],
                      tr_qwen = is_qwen ''qwen2''\<rparr>,
      lm_qwen_tool_calls = is_qwen ''qwen2'', lm_session_cache_config = session_cache_of demo_args,
      lm_session_cache_stats = Some session_cache_stats_default\<rparr>"

lemma demo_gguf_load:
  "gguf_load demo_native ''m.gguf''
     (load_config 2048 (Some 0) (session_cache_of demo_args) (Some session_cache_stats_default)) =
     Inr demo_loaded_model"
proof -
  have "path_extension ''m.gguf'' = Some ''gguf''" by code_simp
  then show ?thesis
    by (simp add: gguf_load_def demo_native_def validate_source_def demo_inspected demo_templates load_config_def
        demo_loaded_model_def)
qed

lemma demo_smoke:
  "fst (smoke_test (model_of demo_libraries demo_loaded_model) 1 0
     (loaded_cache (session_cache_of demo_args) (Some session_cache_stats_default))) = Inr ()"
  by (simp add: smoke_test_def model_of_def demo_loaded_model_def demo_libraries_def session_cache_of_def demo_args_def
      demo_sdk_defs)

lemma demo_load_model:
  "\<exists>cache. fst (load_model False demo_native demo_libraries 1 ''m.gguf'' AutoDevice 2048 (session_cache_of demo_args)
     (Some session_cache_stats_default)) = Inr (demo_loaded_model, cache, Cpu)"
proof -
  let ?cache = "loaded_cache (session_cache_of demo_args) (Some session_cache_stats_default)"
  obtain cache where smoke: "smoke_test (model_of demo_libraries demo_loaded_model) 1 0 ?cache = (Inr (), cache)"
    using demo_smoke by (cases "smoke_test (model_of demo_libraries demo_loaded_model) 1 0 ?cache") simp
  have fields: "lm_session_cache_config demo_loaded_model = session_cache_of demo_args"
    "lm_session_cache_stats demo_loaded_model = Some session_cache_stats_default"
    by (simp_all add: demo_loaded_model_def)
  have "fst (load_model False demo_native demo_libraries 1 ''m.gguf'' AutoDevice 2048 (session_cache_of demo_args)
      (Some session_cache_stats_default)) = Inr (demo_loaded_model, cache, Cpu)"
    by (simp add: load_model_def load_and_verify_def demo_gguf_load fields smoke [unfolded One_nat_def] Let_def)
  then show ?thesis ..
qed

theorem worker_startup_correct_witness:
  "\<exists>w m cache. worker_startup demo_worker_host demo_args = Inr (w, m, cache, Cpu) \<and>
     wk_model_id w = ct_id demo_model \<and> hw_acceleration (wk_hardware w) = Cpu"
proof -
  have host: "wh_catalog demo_worker_host = Inr embedded_models" "wh_native demo_worker_host = demo_native"
    "wh_libraries demo_worker_host = demo_libraries" "wh_metal demo_worker_host = False" "wh_now demo_worker_host = 1"
    "nv_read_gguf demo_native = (\<lambda>_. Inr demo_gguf_file)"
    by (simp_all add: demo_worker_host_def demo_native_def)
  have args: "wa_model demo_args = ct_id demo_model" "wa_model_path demo_args = Some ''m.gguf''"
    "wa_context_tokens demo_args = ContextAuto" "wa_device demo_args = AutoDevice"
    by (simp_all add: demo_args_def)
  obtain cache where load: "fst (load_model False demo_native demo_libraries 1 ''m.gguf'' AutoDevice 2048
      (session_cache_of demo_args) (Some session_cache_stats_default)) = Inr (demo_loaded_model, cache, Cpu)"
    using demo_load_model by blast
  have path: "rm_path (resolved_model_for demo_model ''m.gguf'' LocalOverride) = ''m.gguf''"
    by (simp add: resolved_model_for_def)
  obtain w where "worker_startup demo_worker_host demo_args = Inr (w, demo_loaded_model, cache, Cpu)"
    by (simp add: worker_startup_def host args demo_found demo_resolved path demo_inspected resolve_context_tokens_def
        load [unfolded One_nat_def])
  with worker_startup_correct [OF this] show ?thesis by (auto simp: args(1))
qed

theorem context_tokens_roundtrip_witness:
  "context_tokens_from_str (context_tokens_to_string (ContextExplicit 8192)) = Inr (ContextExplicit 8192)"
  using context_tokens_roundtrip [of "ContextExplicit 8192" "[]"] by simp

end
