(* ===== verification/Example.thy ===== *)
theory Example
  imports Worker_Main
begin

text \<open>
  \<open>crates/inference-example/src/main.rs\<close>: the library without the network. A model is loaded with the
  default configuration, answers one question, and the text is printed.
\<close>

definition gguf_load_config_default :: gguf_load_config where
  "gguf_load_config_default =
     \<lparr>lc_context_tokens = 2048, lc_gpu_layers = None, lc_session_cache = session_cache_config_default,
      lc_session_cache_stats = None\<rparr>"

definition generation_config_default :: generation_config where
  "generation_config_default = \<lparr>gc_max_tokens = 100, gc_temperature = None\<rparr>"

definition example_request :: "uuid \<Rightarrow> token \<Rightarrow> chat_request" where
  "example_request new_id token =
     \<lparr>cq_request_id = new_id, cq_session_id = None,
      cq_messages = [\<lparr>cm_role = User, cm_content = ''Why is the sky blue?'', cm_tool_calls = [],
                      cm_tool_call_id = None\<rparr>],
      cq_template = None, cq_tools = [], cq_generation = generation_config_default, cq_cancellation = token\<rparr>"

text \<open>What is printed, or the error the process ends with.\<close>

definition inference_example ::
  "('t, 'c, 'd) llama native \<Rightarrow> ('t, 'c, 'd) libraries \<Rightarrow> job_run \<Rightarrow> uuid \<Rightarrow> token \<Rightarrow> anyhow + string" where
  "inference_example nv lb jr new_id token =
     (case error_context ''load local GGUF model''
             (gguf_load nv ''./models/tiny-model.gguf'' gguf_load_config_default) of
        Inl e \<Rightarrow> Inl e
      | Inr m \<Rightarrow>
          (case handle_generate (model_of lb m) jr
                  (loaded_cache (lm_session_cache_config m) (lm_session_cache_stats m)) (example_request new_id token) of
             Inl e \<Rightarrow> Inl [e]
           | Inr result \<Rightarrow> Inr (gt_text result)))"

text \<open>
  What the example prints is the library's answer to its question, on the model loaded from a readable
  GGUF file with 2048 tokens of context and an empty cache.
\<close>

theorem example_prints:
  assumes "inference_example nv lb jr new_id token = Inr printed"
  shows "validate_source (nv_read_gguf nv) ''./models/tiny-model.gguf'' = Inr () \<and>
    (\<exists>m result. gguf_load nv ''./models/tiny-model.gguf'' gguf_load_config_default = Inr m \<and>
       lm_context_tokens m = 2048 \<and> gt_text result = printed \<and>
       handle_generate (model_of lb m) jr (loaded_cache session_cache_config_default None)
         (example_request new_id token) = Inr result)"
  using assms
  by (auto simp: inference_example_def error_context_def gguf_load_def gguf_load_config_default_def
      split: sum.splits if_splits)

end
