(* ===== verification/Tests_Coordinator.thy ===== *)
theory Tests_Coordinator
  imports Coordinator_Api Wire_Public
begin

text \<open>
  The unit tests of \<open>decompute-core\<close>, \<open>protocol\<close> and the coordinator, on the model: each test of the
  sources is a closed proposition under its name there, with its fixtures, and the kernel evaluates it. They
  are a check that the definitions behave as the code was tested to.
\<close>

section \<open>\<open>chat.rs\<close>\<close>

definition tested_tool :: tool_definition where
  "tested_tool =
     \<lparr>td_kind = Function, td_function = \<lparr>fd_name = ''get_time'', fd_description = None,
        fd_parameters = JObject [(''type'', JString ''object'')]\<rparr>\<rparr>"

definition tested_call :: tool_call where
  "tested_call =
     \<lparr>tc_id = ''call-1'', tc_kind = Function,
      tc_function = \<lparr>fc_name = ''get_time'', fc_arguments = JObject [(''timezone'', JString ''UTC'')]\<rparr>\<rparr>"

definition accepts_complete_tool_round_trip :: bool where
  "accepts_complete_tool_round_trip \<longleftrightarrow>
     validate_tool_history
       [\<lparr>cm_role = User, cm_content = ''What time is it?'', cm_tool_calls = [], cm_tool_call_id = None\<rparr>,
        \<lparr>cm_role = Assistant, cm_content = [], cm_tool_calls = [tested_call], cm_tool_call_id = None\<rparr>,
        \<lparr>cm_role = Tool, cm_content = ''12:00 UTC'', cm_tool_calls = [], cm_tool_call_id = Some ''call-1''\<rparr>]
       [tested_tool] = Inr ()"

definition rejects_unmatched_tool_result :: bool where
  "rejects_unmatched_tool_result \<longleftrightarrow>
     validate_tool_history
       [\<lparr>cm_role = Tool, cm_content = ''12:00 UTC'', cm_tool_calls = [], cm_tool_call_id = Some ''missing''\<rparr>]
       [tested_tool] = Inl (UnknownToolCallId ''missing'')"

definition rejects_tool_results_out_of_order :: bool where
  "rejects_tool_results_out_of_order \<longleftrightarrow>
     validate_tool_history
       [\<lparr>cm_role = Assistant, cm_content = [], cm_tool_calls = [tested_call, tested_call\<lparr>tc_id := ''call-2''\<rparr>],
         cm_tool_call_id = None\<rparr>,
        \<lparr>cm_role = Tool, cm_content = ''second'', cm_tool_calls = [], cm_tool_call_id = Some ''call-2''\<rparr>]
       [tested_tool] = Inl (ToolResultOutOfOrder ''call-1'' ''call-2'')"

definition rejects_unresolved_tool_call :: bool where
  "rejects_unresolved_tool_call \<longleftrightarrow>
     validate_tool_history
       [\<lparr>cm_role = Assistant, cm_content = [], cm_tool_calls = [tested_call], cm_tool_call_id = None\<rparr>]
       [tested_tool] = Inl UnresolvedToolCalls"

lemma chat_tests:
  "accepts_complete_tool_round_trip" "rejects_unmatched_tool_result" "rejects_tool_results_out_of_order"
  "rejects_unresolved_tool_call"
  by code_simp+

section \<open>\<open>requests.rs\<close>\<close>

definition hello_message :: chat_message where
  "hello_message = \<lparr>cm_role = User, cm_content = ''hello'', cm_tool_calls = [], cm_tool_call_id = None\<rparr>"

definition prompt_normalizes_to_one_user_message :: bool where
  "prompt_normalizes_to_one_user_message \<longleftrightarrow> normalize_messages (Some ''hello'') None = Inr [hello_message]"

definition requires_exactly_one_input_shape :: bool where
  "requires_exactly_one_input_shape \<longleftrightarrow>
     normalize_messages None None = Inl ExactlyOneOfPromptOrMessages \<and>
     normalize_messages (Some ''hello'') (Some [hello_message]) = Inl ExactlyOneOfPromptOrMessages \<and>
     normalize_messages None (Some []) = Inl EmptyMessages"

definition validates_tool_definitions :: bool where
  "validates_tool_definitions \<longleftrightarrow>
     (let tool = tested_tool\<lparr>td_function := (td_function tested_tool)\<lparr>fd_name := ''get-time''\<rparr>\<rparr>
      in validate_tools [tool] = Inr () \<and> validate_tools [tool, tool] = Inl DuplicateToolName)"

definition validates_tool_history_before_worker_inference :: bool where
  "validates_tool_history_before_worker_inference \<longleftrightarrow>
     (case request_validate_tool_history
        \<lparr>gr_request_id = 0, gr_session_id = None, gr_model = ''model'', gr_prompt = None,
         gr_messages = Some [\<lparr>cm_role = Tool, cm_content = ''result'', cm_tool_calls = [],
           cm_tool_call_id = Some ''unknown''\<rparr>],
         gr_template = None, gr_tools = [], gr_max_tokens = 8\<rparr> of
        Inl (InvalidToolHistory _) \<Rightarrow> True | _ \<Rightarrow> False)"

lemma requests_tests:
  "prompt_normalizes_to_one_user_message" "requires_exactly_one_input_shape" "validates_tool_definitions"
  "validates_tool_history_before_worker_inference"
  by code_simp+

section \<open>\<open>scheduler.rs\<close>\<close>

definition tested_worker :: "string \<Rightarrow> usize \<Rightarrow> worker_state \<Rightarrow> string \<Rightarrow> worker_record" where
  "tested_worker i active state model =
     \<lparr>wr_id = i, wr_address = ''http://x'',
      wr_models = [\<lparr>mc_id = model, mc_status = Loaded, mc_manifest_sha256 = None\<rparr>],
      wr_active_requests = active, wr_max_requests = 2, wr_last_heartbeat = 0, wr_state = state,
      wr_hardware = \<lparr>hw_architecture = ''arm64'', hw_total_memory_bytes = 0, hw_available_memory_bytes = 0,
        hw_acceleration = Cpu\<rparr>\<rparr>"

definition on_metal :: "worker_record \<Rightarrow> worker_record" where
  "on_metal w = w\<lparr>wr_hardware := (wr_hardware w)\<lparr>hw_acceleration := Metal\<rparr>\<rparr>"

definition chooses_least_active_eligible_worker :: bool where
  "chooses_least_active_eligible_worker \<longleftrightarrow>
     map_option wr_id (select_worker
       [tested_worker ''a'' 1 Available ''tiny-model'', tested_worker ''b'' 0 Available ''tiny-model'',
        tested_worker ''c'' 0 Draining ''tiny-model''] ''tiny-model'') = Some ''b''"

definition prefers_accelerated_worker_over_idle_cpu_worker :: bool where
  "prefers_accelerated_worker_over_idle_cpu_worker \<longleftrightarrow>
     map_option wr_id (select_worker
       [tested_worker ''cpu'' 0 Available ''tiny-model'',
        on_metal (tested_worker ''metal'' 1 Available ''tiny-model'')] ''tiny-model'') = Some ''metal''"

definition falls_back_to_cpu_when_accelerated_worker_is_busy :: bool where
  "falls_back_to_cpu_when_accelerated_worker_is_busy \<longleftrightarrow>
     map_option wr_id (select_worker
       [on_metal (tested_worker ''metal'' 2 Busy ''tiny-model''),
        tested_worker ''cpu'' 0 Available ''tiny-model''] ''tiny-model'') = Some ''cpu''"

definition breaks_equal_ties_by_worker_id :: bool where
  "breaks_equal_ties_by_worker_id \<longleftrightarrow>
     map_option wr_id (select_worker
       [tested_worker ''b'' 0 Available ''tiny-model'', tested_worker ''a'' 0 Available ''tiny-model''] ''tiny-model'') =
     Some ''a''"

definition requires_exact_loaded_model :: bool where
  "requires_exact_loaded_model \<longleftrightarrow> select_worker [tested_worker ''a'' 0 Available ''other''] ''tiny-model'' = None"

lemma scheduler_tests:
  "chooses_least_active_eligible_worker" "prefers_accelerated_worker_over_idle_cpu_worker"
  "falls_back_to_cpu_when_accelerated_worker_is_busy" "breaks_equal_ties_by_worker_id" "requires_exact_loaded_model"
  by code_simp+

section \<open>\<open>registry.rs\<close>\<close>

text \<open>The clock of a test stands still; \<open>session\<close> is the UUID it draws.\<close>

definition tested_registration :: "string \<Rightarrow> string \<Rightarrow> register_worker_request" where
  "tested_registration i model =
     \<lparr>rw_address = ''http://worker'',
      rw_capabilities =
        \<lparr>wc_node_id = i, wc_models = [\<lparr>mc_id = model, mc_status = Loaded, mc_manifest_sha256 = None\<rparr>],
         wc_active_requests = 0, wc_max_requests = 1, wc_state = Available,
         wc_hardware = \<lparr>hw_architecture = ''arm64'', hw_total_memory_bytes = 1, hw_available_memory_bytes = 1,
           hw_acceleration = Cpu\<rparr>\<rparr>\<rparr>"

definition registered :: "(string \<times> string) list \<Rightarrow> registry" where
  "registered workers = foldl (\<lambda>reg (i, model). register 0 (tested_registration i model) reg) registry_default workers"

definition bound_to :: "uuid \<Rightarrow> registry \<Rightarrow> string option" where
  "bound_to session reg = map_option ab_worker_id (map_of (reg_affinity reg) (session, ''tiny-model''))"

definition expiration_marks_worker_offline :: bool where
  "expiration_marks_worker_offline \<longleftrightarrow>
     map wr_state (al_values (reg_workers (expire_at 16000000000 15000000000 (registered [(''a'', ''tiny-model'')])))) =
     [Offline]"

definition affinity_prefers_bound_worker_and_rebinds_when_busy :: "uuid \<Rightarrow> bool" where
  "affinity_prefers_bound_worker_and_rebinds_when_busy session \<longleftrightarrow>
     (let reg = registered [(''a'', ''tiny-model''), (''b'', ''tiny-model'')];
          (first, reg) = select_and_reserve 0 ''tiny-model'' (Some session) reg;
          (second, reg) = select_and_reserve 0 ''tiny-model'' (Some session) reg
      in map_option sw_id first = Some ''a'' \<and> map_option sw_id second = Some ''b'' \<and> bound_to session reg = Some ''b'')"

definition offline_worker_binding_is_removed_and_falls_back :: "uuid \<Rightarrow> bool" where
  "offline_worker_binding_is_removed_and_falls_back session \<longleftrightarrow>
     (let reg = registered [(''a'', ''tiny-model''), (''b'', ''tiny-model'')];
          (first, reg) = select_and_reserve 0 ''tiny-model'' (Some session) reg;
          reg = mark_offline ''a'' (release ''a'' reg);
          (fallback, reg) = select_and_reserve 0 ''tiny-model'' (Some session) reg
      in map_option sw_id first = Some ''a'' \<and> map_option sw_id fallback = Some ''b'' \<and> bound_to session reg = Some ''b'')"

definition affinity_requires_the_bound_model :: "uuid \<Rightarrow> bool" where
  "affinity_requires_the_bound_model session \<longleftrightarrow>
     map_option sw_id (fst (select_and_reserve 0 ''tiny-model'' (Some session)
       (registered [(''a'', ''other-model''), (''b'', ''tiny-model'')]))) = Some ''b''"

lemmas registry_eval = registered_def register_def tested_registration_def registry_default_def
  select_and_reserve_def choose_worker_def preferred_worker_def affinity_ttl_def bound_to_def Let_def
  select_worker_def has_loaded_model_def eligible_def reserve_record_def al_modify_def worker_key_def
  acceleration_rank_def less_eq_selection_key_def selection_key_le_def less_eq_char_def less_char_def
  release_def release_record_def saturating_sub_def mark_offline_def mark_offline_workers_def
  mark_offline_affinity_def al_retain_def expire_at_def expire_record_def al_map_def

lemma registry_tests:
  "expiration_marks_worker_offline" "affinity_prefers_bound_worker_and_rebinds_when_busy session"
  "offline_worker_binding_is_removed_and_falls_back session" "affinity_requires_the_bound_model session"
  by (simp_all add: registry_eval expiration_marks_worker_offline_def
      affinity_prefers_bound_worker_and_rebinds_when_busy_def offline_worker_binding_is_removed_and_falls_back_def
      affinity_requires_the_bound_model_def)

section \<open>\<open>openai.rs\<close>\<close>

text \<open>\<open>{"timezone":"UTC"}\<close>, and serde_json on the two texts of the tests.\<close>

definition timezone_text :: string where
  "timezone_text =
     ''{'' @ [CHR 0x22] @ ''timezone'' @ [CHR 0x22] @ '':'' @ [CHR 0x22] @ ''UTC'' @ [CHR 0x22] @ ''}''"

definition timezone_json :: json_value where
  "timezone_json = JObject [(''timezone'', JString ''UTC'')]"

definition tested_parse :: "string \<Rightarrow> json_value option" where
  "tested_parse s =
     (if s = timezone_text then Some timezone_json else if s = ''{}'' then Some (JObject []) else None)"

definition tested_print :: "json_value \<Rightarrow> string" where
  "tested_print v = (if v = timezone_json then timezone_text else ''{}'')"

definition openai_call :: "string \<Rightarrow> string \<Rightarrow> string \<Rightarrow> json_value" where
  "openai_call i name arguments =
     JObject [(''id'', JString i), (''type'', JString ''function''),
              (''function'', JObject [(''name'', JString name), (''arguments'', JString arguments)])]"

definition openai_result :: "string \<Rightarrow> string \<Rightarrow> json_value" where
  "openai_result i content =
     JObject [(''role'', JString ''tool''), (''tool_call_id'', JString i), (''content'', JString content)]"

definition openai_function :: "string \<Rightarrow> json_value" where
  "openai_function name =
     JObject [(''type'', JString ''function''),
              (''function'', JObject [(''name'', JString name),
                                      (''parameters'', JObject [(''type'', JString ''object'')])])]"

definition openai_history :: "json_value list \<Rightarrow> json_value list \<Rightarrow> json_value list \<Rightarrow> json_value" where
  "openai_history calls results tools =
     JObject [(''model'', JString ''tiny-model''),
              (''messages'', JArray (JObject [(''role'', JString ''assistant''), (''content'', JNull),
                                              (''tool_calls'', JArray calls)] # results)),
              (''tools'', JArray tools)]"

definition translates_openai_tool_history :: bool where
  "translates_openai_tool_history \<longleftrightarrow>
     (case dec_completion_request (openai_history [openai_call ''call-1'' ''get_time'' timezone_text]
             [openai_result ''call-1'' ''12:00''] [openai_function ''get_time'']) of
        None \<Rightarrow> False
      | Some request \<Rightarrow>
          (case try_from_request tested_parse 0 request of
             Inr r \<Rightarrow>
               (case gr_messages r of
                  Some (m # _) \<Rightarrow>
                    (case cm_tool_calls m of
                       c # _ \<Rightarrow> json_get ''timezone'' (fc_arguments (tc_function c)) = Some (JString ''UTC'')
                     | [] \<Rightarrow> False)
                | _ \<Rightarrow> False)
           | Inl _ \<Rightarrow> False))"

definition rejects_out_of_order_openai_tool_history :: bool where
  "rejects_out_of_order_openai_tool_history \<longleftrightarrow>
     (case dec_completion_request (openai_history
             [openai_call ''call-1'' ''first'' ''{}'', openai_call ''call-2'' ''second'' ''{}'']
             [openai_result ''call-2'' ''second'', openai_result ''call-1'' ''first'']
             [openai_function ''first'', openai_function ''second'']) of
        None \<Rightarrow> False
      | Some request \<Rightarrow>
          (case try_from_request tested_parse 0 request of Inl (Validation _) \<Rightarrow> True | _ \<Rightarrow> False))"

definition serializes_tool_completion :: bool where
  "serializes_tool_completion \<longleftrightarrow>
     map (map (of_arguments \<circ> ot_function) \<circ> am_tool_calls \<circ> cc_message)
       (cp_choices (from_generate tested_print (\<lambda>_. ''nil'') 0 ''tiny-model''
          \<lparr>gp_request_id = 0, gp_worker_id = ''worker-a'', gp_model = ''tiny-model'', gp_text = [], gp_input_tokens = 3,
           gp_output_tokens = 4, gp_tool_calls = [tested_call], gp_finish_reason = ToolCalls\<rparr>)) =
     [[timezone_text]]"

lemma openai_tests:
  "translates_openai_tool_history" "rejects_out_of_order_openai_tool_history" "serializes_tool_completion"
  by code_simp+

section \<open>\<open>api.rs\<close>\<close>

definition delta_payload :: string where
  "delta_payload =
     ''{'' @ [CHR 0x22] @ ''type'' @ [CHR 0x22] @ '':'' @ [CHR 0x22] @ ''text_delta'' @ [CHR 0x22] @ '','' @
     [CHR 0x22] @ ''text'' @ [CHR 0x22] @ '':'' @ [CHR 0x22] @ ''hi'' @ [CHR 0x22] @ ''}''"

definition parses_worker_sse_frames_split_across_chunks :: bool where
  "parses_worker_sse_frames_split_across_chunks \<longleftrightarrow>
     (let first = ''data: '' @ delta_payload; bytes = first @ [LF, LF]
      in sse_frame_end first = None \<and>
         (case sse_frame_end bytes of
            Some n \<Rightarrow> sse_data (\<lambda>_. []) (take n bytes) = Inr (Some delta_payload) | None \<Rightarrow> False))"

text \<open>\<open>Uuid::parse_str\<close> and the text of the UUID the test draws.\<close>

definition accepts_only_uuid_session_headers :: bool where
  "accepts_only_uuid_session_headers \<longleftrightarrow>
     (let parse = (\<lambda>s. if s = ''67e55044-10b1-426f-9247-bb680e5fe0c8'' then Some 7 else None)
      in parse_session_id parse None = Inr None \<and>
         (case parse_session_id parse (Some ''not-a-session'') of Inl _ \<Rightarrow> True | Inr _ \<Rightarrow> False) \<and>
         parse_session_id parse (Some ''67e55044-10b1-426f-9247-bb680e5fe0c8'') = Inr (Some 7))"

definition cancellation_reaches_the_worker_and_releases_its_reservation :: "host \<Rightarrow> uuid \<Rightarrow> string \<Rightarrow> bool" where
  "cancellation_reaches_the_worker_and_releases_its_reservation host request_id address \<longleftrightarrow>
     (let registration = tested_registration ''worker-a'' ''tiny-model'';
          c = rw_capabilities registration;
          reg = register 0 (registration\<lparr>rw_address := address,
            rw_capabilities := c\<lparr>wc_hardware := (wc_hardware c)\<lparr>hw_acceleration := Metal\<rparr>\<rparr>\<rparr>) registry_default
      in case select_and_reserve 0 ''tiny-model'' None reg of
           (None, _) \<Rightarrow> False
         | (Some worker, reg) \<Rightarrow>
             (let effects = cancel_and_release host True worker request_id
              in TokenCancelled \<in> set effects \<and> PostedCancel (cancel_url host worker request_id) \<in> set effects \<and>
                 map (\<lambda>w. (wr_active_requests w, wr_state w)) (list_workers (run_effects reg effects)) = [(0, Available)]))"

lemma api_tests:
  "parses_worker_sse_frames_split_across_chunks" "accepts_only_uuid_session_headers"
  by code_simp+

lemma cancellation_test: "cancellation_reaches_the_worker_and_releases_its_reservation host request_id address"
  by (simp add: cancellation_reaches_the_worker_and_releases_its_reservation_def registry_eval cancel_and_release_def
      cancel_worker_request_def run_effects_def list_workers_def)

end
