(* ===== verification/Tests_Worker.thy ===== *)
theory Tests_Worker
  imports Worker_Main Gguf Tool_Calls
begin

text \<open>
  The unit tests of the session cache, the worker, the model runtime and the model catalog, on the
  model: each test of the sources is a closed proposition under its name there, and the kernel evaluates it.
\<close>

section \<open>\<open>cache.rs\<close>\<close>

definition defaults_are_conservative_and_privacy_safe :: bool where
  "defaults_are_conservative_and_privacy_safe \<longleftrightarrow>
     (let config = session_cache_config_default
      in sc_min_tokens config = 100 \<and> sc_max_entries config = 1 \<and> idle_ttl config div 1000000000 = 900 \<and>
         slot_wait_timeout config div 1000000000 = 30 \<and> miss_as_str MissPrefixMismatch = ''prefix_mismatch'')"

definition stats_are_cumulative :: bool where
  "stats_are_cumulative \<longleftrightarrow>
     snapshot (increment_evictions (increment_hits session_cache_stats_default)) = [1, 0, 1, 0, 0]"

lemma cache_tests: "defaults_are_conservative_and_privacy_safe" "stats_are_cumulative"
  by (simp_all add: defaults_are_conservative_and_privacy_safe_def session_cache_config_default_def idle_ttl_def
      slot_wait_timeout_def stats_are_cumulative_def snapshot_def increment_evictions_def increment_hits_def
      session_cache_stats_default_def)

section \<open>\<open>state.rs\<close>\<close>

text \<open>A wait that times out is one whose answer is not known yet.\<close>

definition cancellation_waits_for_request_completion :: "worker_runtime \<Rightarrow> uuid \<Rightarrow> bool" where
  "cancellation_waits_for_request_completion start i \<longleftrightarrow>
     (case begin_request i start of
        (None, _) \<Rightarrow> False
      | (Some cancellation, w) \<Rightarrow>
          (case cancel_start i w of
             (None, _) \<Rightarrow> False
           | (Some waiter, w) \<Rightarrow>
               cancel_wait waiter w = None \<and> cancellation \<in> set (wk_cancelled w) \<and>
               (let w = finish_control i w in cancel_wait waiter w = Some True \<and> fst (cancel_start i w) = None)))"

definition same_session_waits_for_the_previous_request_then_releases :: "worker_runtime \<Rightarrow> uuid \<Rightarrow> bool" where
  "same_session_waits_for_the_previous_request_then_releases start i \<longleftrightarrow>
     (let (first, w) = acquire (Some i) 0 [0] start;
          (second, w) = acquire (Some i) 1000000 [0, 1000000] w;
          (third, w) = acquire (Some i) 0 [0] (drop_lease i w)
      in first \<and> \<not> second \<and> third)"

lemma state_tests:
  assumes "wk_requests w = []" "wk_completed w = []" "wk_leases w = []"
  shows "cancellation_waits_for_request_completion w i" "same_session_waits_for_the_previous_request_then_releases w i"
  using assms
  by (simp_all add: cancellation_waits_for_request_completion_def begin_request_def cancel_start_def cancel_wait_def
      finish_control_def same_session_waits_for_the_previous_request_then_releases_def lease_attempt_def drop_lease_def Let_def)

section \<open>\<open>main.rs\<close> of the worker\<close>

text \<open>clap gives an option its default text when it is not given, and refuses what \<open>FromStr\<close> refuses.\<close>

definition context_tokens_defaults_to_auto_and_uses_model_metadata :: "session_cache_stats \<Rightarrow> bool" where
  "context_tokens_defaults_to_auto_and_uses_model_metadata stats \<longleftrightarrow>
     (case context_tokens_from_str ''auto'' of
        Inr selection \<Rightarrow>
          selection = ContextAuto \<and> resolve_context_tokens selection 32768 = 32768 \<and>
          list_all (\<lambda>gpu_layers.
            lc_context_tokens (load_config (resolve_context_tokens selection 32768) (Some gpu_layers)
              session_cache_config_default (Some stats)) = 32768) [0, - 1]
      | Inl _ \<Rightarrow> False)"

definition context_tokens_accept_explicit_non_zero_values_and_reject_invalid_values :: bool where
  "context_tokens_accept_explicit_non_zero_values_and_reject_invalid_values \<longleftrightarrow>
     context_tokens_from_str ''8192'' = Inr (ContextExplicit 8192) \<and>
     resolve_context_tokens (ContextExplicit 8192) 32768 = 8192 \<and>
     (case context_tokens_from_str ''0'' of Inl _ \<Rightarrow> True | Inr _ \<Rightarrow> False) \<and>
     (case context_tokens_from_str ''not-a-context'' of Inl _ \<Rightarrow> True | Inr _ \<Rightarrow> False)"

lemma auto_text: "context_tokens_from_str ''auto'' = Inr ContextAuto"
  by code_simp

lemma main_tests:
  "context_tokens_defaults_to_auto_and_uses_model_metadata stats"
  "context_tokens_accept_explicit_non_zero_values_and_reject_invalid_values"
proof -
  show "context_tokens_defaults_to_auto_and_uses_model_metadata stats"
    by (simp add: context_tokens_defaults_to_auto_and_uses_model_metadata_def auto_text resolve_context_tokens_def load_config_def)
  have "\<not> eq_ignore_ascii_case ''8192'' ''auto''" "\<not> eq_ignore_ascii_case ''0'' ''auto''"
    "\<not> eq_ignore_ascii_case ''not-a-context'' ''auto''"
    by code_simp+
  then show "context_tokens_accept_explicit_non_zero_values_and_reject_invalid_values"
    by (simp add: context_tokens_accept_explicit_non_zero_values_and_reject_invalid_values_def context_tokens_from_str_def
        parse_nonzero_u32_def resolve_context_tokens_def is_ascii_digit_def in_range_def decimal_value_def digit_value_def)
qed

section \<open>\<open>runtime.rs\<close>\<close>

definition cancelled_token_stops_generation_at_the_next_safe_boundary :: "run \<Rightarrow> bool" where
  "cancelled_token_stops_generation_at_the_next_safe_boundary r \<longleftrightarrow>
     fst (check_cancelled (r\<lparr>rn_checks := None\<rparr>)) = Inr () \<and>
     (case fst (check_cancelled (r\<lparr>rn_checks := Some 0\<rparr>)) of Inl _ \<Rightarrow> True | Inr _ \<Rightarrow> False)"

definition prompt_replay_includes_the_last_cached_token :: bool where
  "prompt_replay_includes_the_last_cached_token \<longleftrightarrow>
     prompt_replay_start 0 = 0 \<and> prompt_replay_start 1 = 0 \<and> prompt_replay_start 128 = 127"

definition failed_cache_reuse_is_invalidated_but_committed_reuse_is_not :: "(nat, nat) cache_state \<Rightarrow> bool" where
  "failed_cache_reuse_is_invalidated_but_committed_reuse_is_not start \<longleftrightarrow>
     (let s = reuse_guard True False (start\<lparr>cs_stats := Some session_cache_stats_default\<rparr>)
      in map_option (\<lambda>stats. snapshot stats ! 4) (cs_stats s) = Some 1 \<and>
         map_option (\<lambda>stats. snapshot stats ! 4) (cs_stats (reuse_guard True True s)) = Some 1)"

lemma runtime_tests:
  "cancelled_token_stops_generation_at_the_next_safe_boundary r" "prompt_replay_includes_the_last_cached_token"
  "failed_cache_reuse_is_invalidated_but_committed_reuse_is_not s"
  by (simp_all add: cancelled_token_stops_generation_at_the_next_safe_boundary_def check_cancelled_def
      prompt_replay_includes_the_last_cached_token_def prompt_replay_start_def
      failed_cache_reuse_is_invalidated_but_committed_reuse_is_not_def reuse_guard_def bump_def snapshot_def
      increment_invalidations_def session_cache_stats_default_def Let_def)

section \<open>\<open>tool_calls.rs\<close>\<close>

text \<open>The texts of the tests and what serde_json reads in them.\<close>

definition quoted :: "string \<Rightarrow> string" where
  "quoted s = [CHR 0x22] @ s @ [CHR 0x22]"

definition get_time_tools :: "tool_definition list" where
  "get_time_tools =
     [\<lparr>td_kind = Function, td_function = \<lparr>fd_name = ''get_time'', fd_description = None,
        fd_parameters = JObject [(''type'', JString ''object'')]\<rparr>\<rparr>]"

definition zone_object :: "string \<Rightarrow> string" where
  "zone_object key = ''{'' @ quoted key @ '':'' @ quoted ''UTC'' @ ''}''"

definition call_text :: "string \<Rightarrow> string" where
  "call_text arguments =
     ''{'' @ quoted ''name'' @ '':'' @ quoted ''get_time'' @ '','' @ quoted ''arguments'' @ '':'' @ arguments @ ''}''"

definition call_value :: "json_value \<Rightarrow> json_value" where
  "call_value arguments = JObject [(''name'', JString ''get_time''), (''arguments'', arguments)]"

definition escaped_zone :: string where
  "escaped_zone = [CHR 0x22] @ ''{'' @ [CHR 0x5C, CHR 0x22] @ ''timezone'' @ [CHR 0x5C, CHR 0x22] @ '':'' @
     [CHR 0x5C, CHR 0x22] @ ''UTC'' @ [CHR 0x5C, CHR 0x22] @ ''}'' @ [CHR 0x22]"

definition same_id_text :: string where
  "same_id_text =
     ''{'' @ quoted ''id'' @ '':'' @ quoted ''same'' @ '','' @ quoted ''name'' @ '':'' @ quoted ''get_time'' @ '','' @
     quoted ''arguments'' @ '':'' @ ''{}'' @ ''}''"

definition tested_values :: "(string \<times> json_value) list" where
  "tested_values =
     [(call_text (zone_object ''timezone''), call_value (JObject [(''timezone'', JString ''UTC'')])),
      (call_text ''{}'', call_value (JObject [])),
      (call_text (zone_object ''tz''), call_value (JObject [(''tz'', JString ''UTC'')])),
      (call_text escaped_zone, call_value (JString (zone_object ''timezone''))),
      (zone_object ''timezone'', JObject [(''timezone'', JString ''UTC'')]),
      (same_id_text, JObject [(''id'', JString ''same''), (''name'', JString ''get_time''), (''arguments'', JObject [])])]"

definition tested_json :: "string \<Rightarrow> string + json_value" where
  "tested_json s = (case map_of tested_values s of Some v \<Rightarrow> Inr v | None \<Rightarrow> Inl ''expected value'')"

definition nil_text :: string where
  "nil_text = ''00000000-0000-0000-0000-000000000000''"

abbreviation zone_of :: "tool_call \<Rightarrow> json_value option" where
  "zone_of call \<equiv> json_get ''timezone'' (fc_arguments (tc_function call))"

definition extracts_qwen_tool_call_and_visible_text :: bool where
  "extracts_qwen_tool_call_and_visible_text \<longleftrightarrow>
     (case parse_tool_calls tested_json
        (''<tool_call>'' @ [CHR 0x0A] @ call_text (zone_object ''timezone'') @ [CHR 0x0A] @ ''</tool_call>'')
        get_time_tools nil_text of
        Inr (visible, [call]) \<Rightarrow>
          visible = [] \<and> fc_name (tc_function call) = ''get_time'' \<and> zone_of call = Some (JString ''UTC'')
      | _ \<Rightarrow> False)"

definition extracts_multiple_calls_and_preserves_visible_text :: bool where
  "extracts_multiple_calls_and_preserves_visible_text \<longleftrightarrow>
     (case parse_tool_calls tested_json
        (''before'' @ [CHR 0x0A] @ ''<tool_call>'' @ call_text ''{}'' @ ''</tool_call>'' @ [CHR 0x0A] @
         ''between'' @ [CHR 0x0A] @ ''<tool_call>'' @ call_text (zone_object ''tz'') @ ''</tool_call>'' @ [CHR 0x0A] @
         ''after'') get_time_tools nil_text of
        Inr (visible, [first, second]) \<Rightarrow>
          visible = ''before'' @ [CHR 0x0A, CHR 0x0A] @ ''between'' @ [CHR 0x0A, CHR 0x0A] @ ''after'' \<and>
          tc_id first \<noteq> tc_id second
      | _ \<Rightarrow> False)"

definition accepts_string_encoded_arguments :: bool where
  "accepts_string_encoded_arguments \<longleftrightarrow>
     (case parse_tool_calls tested_json (''<tool_call>'' @ call_text escaped_zone @ ''</tool_call>'')
        get_time_tools nil_text of
        Inr (_, call # _) \<Rightarrow> zone_of call = Some (JString ''UTC'') | _ \<Rightarrow> False)"

definition rejects_duplicate_explicit_ids :: bool where
  "rejects_duplicate_explicit_ids \<longleftrightarrow>
     (case parse_tool_calls tested_json
        (''<tool_call>'' @ same_id_text @ ''</tool_call><tool_call>'' @ same_id_text @ ''</tool_call>'')
        get_time_tools nil_text of
        Inl _ \<Rightarrow> True | Inr _ \<Rightarrow> False)"

lemma tool_call_tests:
  "extracts_qwen_tool_call_and_visible_text" "extracts_multiple_calls_and_preserves_visible_text"
  "accepts_string_encoded_arguments" "rejects_duplicate_explicit_ids"
  by code_simp+

section \<open>\<open>lib.rs\<close> of the catalog\<close>

text \<open>A change of the catalog's text is the change of what the TOML parser reads.\<close>

definition accepts_catalog :: "model_catalog \<Rightarrow> bool" where
  "accepts_catalog catalog \<longleftrightarrow>
     (case catalog_from_toml (\<lambda>_. Inr catalog) [] of Inr _ \<Rightarrow> True | Inl _ \<Rightarrow> False)"

definition first_changed :: "(catalog_model \<Rightarrow> catalog_model) \<Rightarrow> model_catalog" where
  "first_changed f = (case embedded_models of m # ms \<Rightarrow> f m # ms | [] \<Rightarrow> [])"

definition embedded_catalog_is_valid_and_contains_qwen :: bool where
  "embedded_catalog_is_valid_and_contains_qwen \<longleftrightarrow>
     accepts_catalog embedded_models \<and> length (filter ct_recommended embedded_models) = 1 \<and>
     list_all (\<lambda>m. 0 < ct_download_size_bytes m) embedded_models \<and>
     map_sum id ct_repository (catalog_get embedded_models ''qwen2.5-0.5b-instruct-q4-k-m'') =
       Inr ''Qwen/Qwen2.5-0.5B-Instruct-GGUF'' \<and>
     map_sum id ct_revision (catalog_get embedded_models ''qwen2.5-1.5b-instruct-q4-k-m'') =
       Inr ''91cad51170dc346986eccefdc2dd33a9da36ead9''"

definition invalid_catalog_digest_is_rejected :: bool where
  "invalid_catalog_digest_is_rejected \<longleftrightarrow> \<not> accepts_catalog (first_changed (ct_sha256_update (\<lambda>_. ''not-a-digest'')))"

definition catalog_rejects_missing_provenance_fields_and_malformed_repositories :: bool where
  "catalog_rejects_missing_provenance_fields_and_malformed_repositories \<longleftrightarrow>
     list_all (\<lambda>f. \<not> accepts_catalog (first_changed f))
       [ct_revision_update (\<lambda>_. []), ct_architecture_update (\<lambda>_. []), ct_display_name_update (\<lambda>_. []),
        ct_repository_update (\<lambda>_. ''Qwen/invalid/extra''),
        ct_filename_update (\<lambda>_. ''qwen2.5-0.5b-instruct-q4_k_m.bin'')]"

definition catalog_rejects_duplicate_ids :: bool where
  "catalog_rejects_duplicate_ids \<longleftrightarrow>
     \<not> accepts_catalog (map (ct_id_update (\<lambda>_. ''qwen2.5-0.5b-instruct-q4-k-m'')) embedded_models)"

definition catalog_requires_exactly_one_recommended_model :: bool where
  "catalog_requires_exactly_one_recommended_model \<longleftrightarrow>
     \<not> accepts_catalog (map (ct_recommended_update (\<lambda>_. False)) embedded_models) \<and>
     \<not> accepts_catalog (map (ct_recommended_update (\<lambda>_. True)) embedded_models)"

lemma catalog_tests:
  "embedded_catalog_is_valid_and_contains_qwen" "invalid_catalog_digest_is_rejected"
  "catalog_rejects_missing_provenance_fields_and_malformed_repositories" "catalog_rejects_duplicate_ids"
  "catalog_requires_exactly_one_recommended_model"
  by code_simp+

text \<open>A file with the given bytes; the digest is what \<open>sha256\<close> makes of them.\<close>

definition written_file :: "bytes \<Rightarrow> file_state" where
  "written_file bytes =
     \<lparr>fs_is_file = True, fs_length = Some (of_nat (length bytes)), fs_open = Inr (), fs_reads = [Inr bytes, Inr []]\<rparr>"

definition cancelled_local_resolution_never_reports_ready :: "surroundings \<Rightarrow> bool" where
  "cancelled_local_resolution_never_reports_ready sr \<longleftrightarrow>
     (let model = demo_model\<lparr>ct_sha256 := sr_sha256 sr ''verified test model''\<rparr>;
          (result, stages) =
            resolve_with_progress (sr\<lparr>sr_files := (\<lambda>_. written_file ''verified test model'')\<rparr>) model
              (Some ''model.gguf'') (Some 0)
      in result = Inl Cancelled \<and> \<not> list_ex (\<lambda>stage. stage = Ready) stages)"

definition local_override_must_match_catalog_digest :: "(bytes \<Rightarrow> string) \<Rightarrow> bool" where
  "local_override_must_match_catalog_digest sha256 \<longleftrightarrow>
     (case fst (verify_file_with_progress sha256 ''model.gguf'' (written_file ''not a model'') demo_model None) of
        Inl _ \<Rightarrow> True | Inr _ \<Rightarrow> False)"

definition verified_local_file_uses_deterministic_manifest_identity :: "(bytes \<Rightarrow> string) \<Rightarrow> bool" where
  "verified_local_file_uses_deterministic_manifest_identity sha256 \<longleftrightarrow>
     (let model = demo_model\<lparr>ct_sha256 := sha256 ''verified test model''\<rparr>
      in fst (verify_file_with_progress sha256 ''model.gguf'' (written_file ''verified test model'') model None) = Inr () \<and>
         mm_id (manifest_for ''model.gguf'' model) = ''sha256:'' @ ct_sha256 model)"

lemma gguf_extension: "path_extension ''model.gguf'' = Some ''gguf''"
  by code_simp

lemma validate_other_digest:
  "is_sha256 digest \<Longrightarrow> validate_model (demo_model\<lparr>ct_sha256 := digest\<rparr>) = Inr ()"
  using demo_model_valid by (auto simp: validate_model_def required_fields_def bad_repository_def split: sum.splits if_splits option.splits)

lemma file_tests:
  assumes "is_sha256 (sr_sha256 sr ''verified test model'')"
    and "\<not> eq_ignore_ascii_case (sha256 ''not a model'') (ct_sha256 demo_model)"
  shows "cancelled_local_resolution_never_reports_ready sr" "local_override_must_match_catalog_digest sha256"
    "verified_local_file_uses_deterministic_manifest_identity sha256"
  using assms
  by (simp_all add: cancelled_local_resolution_never_reports_ready_def resolve_with_progress_def validate_other_digest Let_def
      local_override_must_match_catalog_digest_def verified_local_file_uses_deterministic_manifest_identity_def
      verify_file_with_progress_def written_file_def gguf_extension sha256_file_def manifest_for_def eq_ignore_ascii_case_def)

end
