(* ===== verification/Tests_Harness.thy ===== *)
theory Tests_Harness
  imports Harness_Frame Widgets
begin

text \<open>
  The unit tests of the desktop client on the model: each test of \<open>crates/harness/src/main.rs\<close> is a
  closed proposition under its name there, and the kernel evaluates it. The last one drives the whole
  window, one \<open>update_frame\<close> for each step of its test harness. UUIDs the tests draw are small numbers.
\<close>

section \<open>Fixtures\<close>

definition tested_conversation :: "uuid \<Rightarrow> string \<Rightarrow> conversation" where
  "tested_conversation i title =
     \<lparr>cv_id = i, cv_title = title, cv_system_enabled = False, cv_system_harness = [], cv_messages = []\<rparr>"

definition test_app :: "conversation list \<Rightarrow> uuid option \<Rightarrow> harness_app" where
  "test_app cs sel =
     \<lparr>ha_state = \<lparr>sv_settings = settings_default, sv_conversations = cs, sv_selected = sel\<rparr>,
      ha_draft = [], ha_models = [], ha_status = ''Connected'', ha_connected = True, ha_active = None,
      ha_pending_delete = None, ha_show_settings = False\<rparr>"

text \<open>A question with its empty answer, and the app while it is generated.\<close>

definition active_chat :: conversation where
  "active_chat = (tested_conversation 1 ''Active'')
     \<lparr>cv_messages := [\<lparr>hm_id = 2, hm_role = UserRole, hm_content = ''hello''\<rparr>,
                      \<lparr>hm_id = 3, hm_role = AssistantRole, hm_content = []\<rparr>]\<rparr>"

definition active_app :: harness_app where
  "active_app = (test_app [active_chat] (Some 1))
     \<lparr>ha_active := Some \<lparr>ac_conversation = 1, ac_user_message = 2, ac_assistant_message = 3, ac_cancelled = False\<rparr>\<rparr>"

definition is_cancelled :: "harness_app \<Rightarrow> bool" where
  "is_cancelled app \<longleftrightarrow> map_option ac_cancelled (ha_active app) = Some True"

definition hello_conversation :: conversation where
  "hello_conversation =
     (conversation_new 1)\<lparr>cv_messages := [\<lparr>hm_id = 0, hm_role = UserRole, hm_content = ''hello''\<rparr>]\<rparr>"

section \<open>Requests\<close>

definition request_has_no_system_message_by_default :: bool where
  "request_has_no_system_message_by_default \<longleftrightarrow>
     map ap_role (rq_messages (from_conversation settings_default hello_conversation)) = [''user'']"

definition enabled_system_harness_is_visible_leading_message :: bool where
  "enabled_system_harness_is_visible_leading_message \<longleftrightarrow>
     (case rq_messages (from_conversation settings_default
        (hello_conversation\<lparr>cv_system_enabled := True, cv_system_harness := ''Answer in haiku.''\<rparr>)) of
        m # _ \<Rightarrow> ap_role m = ''system'' \<and> ap_text m = ''Answer in haiku.''
      | [] \<Rightarrow> False)"

definition token_estimate_rounds_up :: bool where
  "token_estimate_rounds_up \<longleftrightarrow>
     approximate_tokens 0 = 0 \<and> approximate_tokens 1 = 1 \<and> approximate_tokens 4 = 1 \<and> approximate_tokens 5 = 2"

definition discovery_replaces_a_stale_model_and_preserves_an_available_one :: bool where
  "discovery_replaces_a_stale_model_and_preserves_an_available_one \<longleftrightarrow>
     (let models = [''qwen2.5-0.5b-instruct-q4-k-m'', ''qwen2.5-1.5b-instruct-q4-k-m'']
      in selected_discovered_model ''tiny-model'' models = ''qwen2.5-0.5b-instruct-q4-k-m'' \<and>
         selected_discovered_model ''qwen2.5-1.5b-instruct-q4-k-m'' models = ''qwen2.5-1.5b-instruct-q4-k-m'')"

text \<open>The panel of a window of 1400 points has the given width.\<close>

definition conversation_column_is_centered_and_never_exceeds_its_maximum_width :: "(rat \<Rightarrow> rat) \<Rightarrow> rat \<Rightarrow> bool" where
  "conversation_column_is_centered_and_never_exceeds_its_maximum_width rnd panel \<longleftrightarrow>
     (let (gap, width) = conversation_column rnd panel
      in width \<le> 980 + 1 \<and> \<bar>(gap + width / 2) - panel / 2\<bar> \<le> 1)"

lemma request_tests:
  "request_has_no_system_message_by_default" "enabled_system_harness_is_visible_leading_message"
  "discovery_replaces_a_stale_model_and_preserves_an_available_one"
  by code_simp+

lemma estimate_test: "token_estimate_rounds_up"
  by (simp add: token_estimate_rounds_up_def approximate_tokens_def)

lemma column_test:
  assumes "rounds rnd {panel - min panel 980, (panel - min panel 980) / 2}"
  shows "conversation_column_is_centered_and_never_exceeds_its_maximum_width rnd panel"
proof -
  obtain gap width where column: "conversation_column rnd panel = (gap, width)" by fastforce
  then have "width = min panel 980" by (auto simp: conversation_column_def Let_def)
  with column_centred [OF _ column] assms have "gap + width + gap = panel" by simp
  then have "gap + width / 2 = panel / 2" by (simp add: field_simps)
  then show ?thesis
    using column_fits(1) [OF column]
    by (simp add: conversation_column_is_centered_and_never_exceeds_its_maximum_width_def column)
qed

section \<open>Deleting\<close>

definition deleting_selected_chat_selects_the_next_chat :: bool where
  "deleting_selected_chat_selects_the_next_chat \<longleftrightarrow>
     (let app = remove_conversation 9 2 (test_app
            [tested_conversation 1 ''First'', tested_conversation 2 ''Second'', tested_conversation 3 ''Third''] (Some 2))
      in sv_selected (ha_state app) = Some 3 \<and> length (conversations app) = 2 \<and>
         list_all (\<lambda>chat. cv_id chat \<noteq> 2) (conversations app))"

definition deleting_the_last_selected_chat_selects_the_previous_chat :: bool where
  "deleting_the_last_selected_chat_selects_the_previous_chat \<longleftrightarrow>
     (let app = remove_conversation 9 2 (test_app
            [tested_conversation 1 ''First'', tested_conversation 2 ''Second''] (Some 2))
      in sv_selected (ha_state app) = Some 1 \<and> length (conversations app) = 1)"

definition deleting_final_chat_creates_a_fresh_selected_chat :: bool where
  "deleting_final_chat_creates_a_fresh_selected_chat \<longleftrightarrow>
     (let app = remove_conversation 9 1 (test_app [tested_conversation 1 ''Only''] (Some 1))
      in case conversations app of
           [chat] \<Rightarrow> sv_selected (ha_state app) = Some (cv_id chat) \<and> cv_messages chat = [] \<and>
             cv_title chat = ''New conversation''
         | _ \<Rightarrow> False)"

definition deleting_an_active_chat_cancels_then_ignores_late_events :: bool where
  "deleting_an_active_chat_cancels_then_ignores_late_events \<longleftrightarrow>
     (let app = remove_conversation 9 1 active_app;
          later = process_events [(10, DeltaEvent 1 3 ''late output''), (11, CancelledEvent 1)] app
      in is_cancelled app \<and> ha_active later = None \<and> ha_status later = ''Generation cancelled'' \<and>
         list_all (\<lambda>c. cv_id c \<noteq> 1) (conversations later))"

definition clearing_or_deleting_the_active_message_cancels_generation :: bool where
  "clearing_or_deleting_the_active_message_cancels_generation \<longleftrightarrow>
     is_cancelled (remove_selected_message 3 active_app) \<and>
     (let app = clear_selected_conversation active_app
      in is_cancelled app \<and> map_option cv_messages (selected app) = Some [])"

lemma deleting_tests:
  "deleting_selected_chat_selects_the_next_chat" "deleting_the_last_selected_chat_selects_the_previous_chat"
  "deleting_final_chat_creates_a_fresh_selected_chat" "deleting_an_active_chat_cancels_then_ignores_late_events"
  "clearing_or_deleting_the_active_message_cancels_generation"
  by code_simp+

section \<open>The window\<close>

definition no_input :: frame_input where
  "no_input =
     \<lparr>fi_settings = False, fi_new_chat = None, fi_select = (\<lambda>_. False), fi_delete = (\<lambda>_. False), fi_model = None,
      fi_draft = None, fi_enter = False, fi_send = False, fi_question = 20, fi_answer = 21, fi_stop = False,
      fi_clear = False, fi_remove = (\<lambda>_. False), fi_cancel = False, fi_confirm = False, fi_replacement = 22,
      fi_dismiss = False, fi_endpoint = None, fi_refresh = False, fi_budget = None, fi_max_tokens = None,
      fi_system_enabled = None, fi_system_harness = None, fi_close = False\<rparr>"

text \<open>The widgets of the test by their labels, as far as they are on the screen.\<close>

definition click_delete_row :: "string \<Rightarrow> harness_app \<Rightarrow> frame_input" where
  "click_delete_row label app =
     no_input\<lparr>fi_delete := (\<lambda>i. \<exists>item \<in> set (sidebar (\<lambda>c. c) True app).
       ni_conversation item = i \<and> delete_label item = label)\<rparr>"

definition step_window :: "frame_input \<Rightarrow> harness_app \<Rightarrow> harness_app" where
  "step_window i app = fst (update_frame i [] app)"

definition sidebar_delete_control_requires_confirmation :: bool where
  "sidebar_delete_control_requires_confirmation \<longleftrightarrow>
     (let start = test_app [tested_conversation 1 ''Delete me''] (Some 1);
          asked = step_window (click_delete_row ''Delete chat: Delete me'' start) start;
          kept = step_window (no_input\<lparr>fi_cancel := True\<rparr>) asked;
          again = step_window (click_delete_row ''Delete chat: Delete me'' kept) kept;
          deleted = step_window (no_input\<lparr>fi_confirm := True\<rparr>) again
      in ha_pending_delete asked = Some 1 \<and> delete_dialog asked \<noteq> None \<and>
         ha_pending_delete kept = None \<and> length (conversations kept) = 1 \<and>
         ha_pending_delete deleted = None \<and> map cv_title (conversations deleted) = [''New conversation''])"

lemma window_test: "sidebar_delete_control_requires_confirmation"
  by code_simp

end
