(* ===== verification/Spec2Isabelle.thy ===== *)
theory Spec2Isabelle
  imports Coordinator_Api Worker_Progress Lease_Wait Sdk Backend_Init Models Text_Typing Harness_Frame Widgets Routes Observability Example Heartbeat
    Tests_Coordinator Tests_Worker Tests_Harness
begin

text \<open>
  Decompute distributes language-model inference over several machines. A coordinator offers an
  OpenAI-compatible HTTP API; workers register with it, send heartbeats and run one GGUF model
  each through llama.cpp; a desktop client talks to the coordinator. A chat request goes from the
  client (\<open>crates/harness\<close>) to the coordinator (\<open>crates/coordinator\<close>), which checks it, picks and
  reserves a worker and sends it on; the worker (\<open>crates/worker\<close>) takes a slot and the session's
  lease and gives the job to the thread that owns the model (\<open>crates/decompute-sdk\<close>,
  \<open>crates/decompute-llama\<close>), whose session cache keeps the contexts of conversations. The answer
  comes back as one JSON document or as server-sent events. The theories follow the crates:

  \<^item> \<open>Prelude\<close>, \<open>Rust_Str\<close>, \<open>Interfaces\<close>: machine integers and association lists, Rust's string
    and UTF-8 functions, and the locales the components share: transition systems with an
    invariant, and pools of request slots.
  \<^item> \<open>Core_Types\<close>, \<open>Tool_History\<close>, \<open>Protocol\<close>: \<open>decompute-core\<close> and \<open>protocol\<close>, the records on
    the wire and their validation. A history is accepted exactly if it answers its calls in order.
  \<^item> \<open>Scheduler\<close>, \<open>Registry\<close>: \<open>scheduler.rs\<close> and \<open>registry.rs\<close>. The two hash maps are association
    lists with distinct keys; every operation is one function on both tables, as the code holds
    its locks for the whole operation. Lemmas: the invariant, what is selected, affinity, expiry.
  \<^item> \<open>Sse\<close>, \<open>Openai\<close>, \<open>Coordinator_Api\<close>: \<open>openai.rs\<close> and \<open>api.rs\<close>. A handler is a function from
    what the outside does (the \<open>exchange\<close>: replies, cancellation, how long the client listens) to a
    trace of registry operations, requests and sent events. \<open>Sse\<close> has the locale of frame
    formats, in which the network's cuts do not matter. Lemmas: reservations are given back,
    except that of a stream handler dropped before the worker answers, and streams are forwarded unchanged.
  \<^item> \<open>Worker_Runtime\<close>, \<open>Worker_Api\<close>: \<open>state.rs\<close> and \<open>api.rs\<close> of the worker. The operations are
    functions on \<open>worker_runtime\<close>; interleavings of requests are the step relation
    \<open>worker_step\<close>, whose grain is one access to the shared counter or one lock. Lemmas: the counter
    is exact, ids and leases are exclusive, dropped handlers lose slots. \<open>Worker_Progress\<close> counts
    the steps of the requests: each comes to an end. \<open>Lease_Wait\<close> is the loop of
    \<open>SessionLeases::acquire\<close> at the grain of the lock and of the notification: no wake-up is lost.
  \<^item> \<open>Tool_Calls\<close>, \<open>Session_Cache\<close>, \<open>Gguf\<close>, \<open>Sdk\<close>: \<open>tool_calls.rs\<close>, \<open>runtime.rs\<close>, \<open>cache.rs\<close> and
    \<open>gguf.rs\<close>. llama.cpp is the record \<open>llama\<close>, with its documented behaviour on KV caches as
    \<open>kv_laws\<close>. Lemmas: token bounds, markup is never streamed, eviction, and that
    with the cache every token is still sampled from a context of exactly its own prompt and answer. That equal
    contexts give equal logits is not assumed: llama.cpp does not promise it. \<open>Backend_Init\<close> is \<open>backend()\<close> with its two looks at the cell, called by
    any number of threads.
  \<^item> \<open>Models\<close>: \<open>decompute-models\<close>, the catalog and the resolution of a model file with
    its digest. \<open>Gguf_Load\<close>: metadata, templates and loading. \<open>Worker_Main\<close>: the start of a
    worker up to the point where it advertises a model. \<open>Example\<close>: \<open>crates/inference-example\<close>.
    \<open>Observability\<close>: the exported metrics and what the counters count. \<open>Heartbeat\<close>: the worker's loop against
    the coordinator's handlers and its ticker.
  \<^item> \<open>Harness_Stream\<close>, \<open>Harness\<close>, \<open>Harness_Run\<close>, \<open>Harness_Service\<close>: the desktop client. Its network
    task is a function to the events it sends, its operations are functions on \<open>harness_app\<close>, the
    controls of its window are \<open>ui_action\<close>s, and \<open>harness_step\<close> interleaves user, tasks and event
    queue. Lemmas: the saved state stays consistent, messages do not mix, the client's requests are
    accepted and the worker's text is what it shows. \<open>Harness_View\<close> is what the window shows, as a
    value: what is on the screen is what is sent. \<open>Harness_Frame\<close> is \<open>update\<close> as a whole, from what
    the widgets of one frame report: a frame is a run of enabled actions. \<open>Widgets\<close> is the look of
    the client, \<open>components.rs\<close> and \<open>theme.rs\<close>: the colours, strokes and frames of each widget, the
    areas of a sidebar row and the column of a conversation.
  \<^item> \<open>Utf8\<close>, \<open>Text_Typing\<close>: Rust's \<open>String\<close> is a byte list that is UTF-8. That the texts of the
    model are such lists is a theorem about it: of the client's state in every reachable state, and
    of the slices of \<open>parse_tool_calls\<close>, which cut between characters.
  \<^item> \<open>Wire\<close>, \<open>Wire_Public\<close>, \<open>Wire_Service\<close>: the JSON between the processes. For each type an encoder
    and a decoder say what serde makes of its attributes (names, flattened and defaulted members,
    members left out, tagged variants) in \<open>decompute-core\<close>, \<open>protocol\<close>, \<open>openai.rs\<close> and the
    client. Lemmas: what one process writes the other reads. \<open>Cli\<close>: \<open>crates/client\<close>.
    \<open>Routes\<close>: both routers and every URL the processes build; each reaches its handler.
  \<^item> \<open>Tests_Coordinator\<close>, \<open>Tests_Worker\<close>, \<open>Tests_Harness\<close>: the repository's own unit tests, under
    their names, evaluated on the model. They show that the definitions give what the code was
    tested to give.

  This theory holds what spans several processes: requests keep their validity on the way, no
  worker is overcommitted, a streamed answer is the plain one, the text the model generates is
  the text on the user's screen, and a question from the command line gets the model's answer.

  Bounds and recursion. Rust's \<open>usize\<close> and \<open>u64\<close> are words of 64 bits and saturate or wrap as
  the code does; instants are natural numbers of nanoseconds. The generation loop runs at most
  \<open>max_tokens\<close> rounds in the code, and this count is its recursion argument. The loops over frames,
  tool calls, characters and cache entries are functions with a measure. A retry loop gets the list
  of what it sees in each round, its end being a lost race or an expired timeout as in the code.

  Parameters. What is not in the repository is an argument: HTTP and the network, the text of JSON
  values (a printer and a parser, related by \<open>json_text\<close> where a theorem needs it; the theories
  below \<open>Wire_Service\<close> take the parsers and printers of whole types as arguments), UUIDs, the clocks, SHA-256,
  the Hugging Face client, the file system, llama.cpp, the GGUF reader, minijinja, the URL parser (with its law for plain
  URLs), the matching of paths,
  egui's multiplication of colours, the rounding of \<open>f32\<close>, and Unicode's table of upper-case letters.

  Not modelled. Painting and the placing of texts (egui's), the text of log output, argument
  parsing beyond the values the code parses itself, and the unit tests that need minijinja, egui's
  layout or the JSON files of the examples. Poisoned locks and panics of the runtime
  are left out. The decoders leave out two notations that serde also reads and no process here
  writes: a struct as an array and a unit variant as an object.
\<close>

section \<open>From the coordinator to the worker\<close>

lemma try_from_request_valid:
  assumes "try_from_request parse_json new_id public = Inr r"
  shows "gr_prompt r = None \<and> (\<exists>ms. gr_messages r = Some ms \<and> ms \<noteq> [] \<and> validate_tool_history ms (gr_tools r) = Inr ()) \<and>
    validate_tools (gr_tools r) = Inr ()"
  using assms by (auto simp: try_from_request_def collect_results_Inr_iff split: if_splits sum.splits)

lemma prepared_valid:
  assumes "prepare_request host new_id header public = Inr r"
  shows "gr_prompt r = None \<and> (\<exists>ms. gr_messages r = Some ms \<and> ms \<noteq> [] \<and> validate_tool_history ms (gr_tools r) = Inr ()) \<and>
    validate_tools (gr_tools r) = Inr ()"
proof -
  from assms obtain q sid where q: "try_from_request (h_parse_json host) new_id public = Inr q"
    and r: "r = q\<lparr>gr_session_id := sid\<rparr>"
    by (auto simp: prepare_request_def split: sum.splits)
  then show ?thesis using try_from_request_valid [OF q] by auto
qed

lemma normalize_valid:
  assumes "gr_prompt r = None" "gr_messages r = Some ms" "ms \<noteq> []"
    and "validate_tool_history ms (gr_tools r) = Inr ()" "validate_tools (gr_tools r) = Inr ()"
  shows "normalize_request r = Inr r"
  using assms by (simp add: normalize_request_def request_validate_tools_def normalized_messages_def
      normalize_messages_def validate_tool_history_messages_def)

text \<open>
  Every request the coordinator accepts passes the worker's own validation unchanged: a worker
  never answers 400 to a request the coordinator forwards.
\<close>

theorem accepted_request_passes:
  assumes "prepare_request host new_id header public = Inr r"
  shows "normalize_request r = Inr r"
  using prepared_valid [OF assms] by (auto intro: normalize_valid)

lemma demo_prepared:
  "prepare_request demo_host 7 None (demo_public streaming) =
     Inr \<lparr>gr_request_id = 7, gr_session_id = None, gr_model = ''m'', gr_prompt = None,
          gr_messages = Some [\<lparr>cm_role = User, cm_content = ''hi'', cm_tool_calls = [], cm_tool_call_id = None\<rparr>],
          gr_template = None, gr_tools = [], gr_max_tokens = 100\<rparr>"
  by code_simp

theorem accepted_request_passes_witness:
  "\<exists>r. prepare_request demo_host 7 None (demo_public True) = Inr r \<and> normalize_request r = Inr r"
  using accepted_request_passes [OF demo_prepared] demo_prepared by blast

text \<open>
  C16. Every question reaches the model. The request the desktop client sends, as JSON, is read by the
  coordinator, which accepts it whatever the conversation holds and writes the worker's request;
  the worker reads that one and accepts it unchanged: its prompt is the conversation's system
  message, if it is enabled and not blank, the questions and the answers that are not empty, in
  order, and the draft as the last message; error messages and empty answers are left out, and
  the conversation is the session. The text of the two JSON values and of the two UUIDs is relied on.
\<close>

theorem client_request_reaches_worker:
  assumes "saved_ok (ha_state app)" and "selected app = Some c"
    and "send user assistant app = (app', Some (SpawnChat endpoint request conversation message))"
    and "uuid_text (h_show_uuid host) (h_parse_uuid host \<circ> str_trim) (cv_id c)"
    and "list_all visible_ascii (h_show_uuid host (cv_id c))"
    and "\<forall>i \<in> {new_id, cv_id c}. uuid_text (h_show_uuid host) (h_parse_uuid host) i"
    and "r = \<lparr>gr_request_id = new_id, gr_session_id = Some (cv_id c),
              gr_model = se_model (sv_settings (ha_state app)), gr_prompt = None,
              gr_messages = Some (prompt_messages c @
                [\<lparr>cm_role = User, cm_content = ha_draft app, cm_tool_calls = [], cm_tool_call_id = None\<rparr>]),
              gr_template = None, gr_tools = [],
              gr_max_tokens = se_max_tokens (sv_settings (ha_state app))\<rparr>"
    and "\<forall>v \<in> {enc_api_request request, enc_generate_request (h_show_uuid host) r}. parse (print v) = Some v"
  shows "(\<exists>public. Option.bind (parse (print (enc_api_request request))) dec_completion_request = Some public \<and>
      prepare_request host new_id (Some (h_show_uuid host conversation)) public = Inr r) \<and>
    Option.bind (parse (print (enc_generate_request (h_show_uuid host) r)))
      (dec_generate_request (h_parse_uuid host)) = Some r \<and>
    normalize_request r = Inr r \<and> conversation = cv_id c \<and> message = assistant \<and> ha_draft app' = []"
proof -
  have "h_parse_uuid host (str_trim (h_show_uuid host (cv_id c))) = Some (cv_id c)"
    using assms(4) by (simp add: uuid_text_def)
  note accepted = client_request_accepted [OF assms(1-3) this assms(5), of new_id]
  then obtain public where public: "received_request request = Some public"
    "prepare_request host new_id (Some (h_show_uuid host conversation)) public = Inr r"
    unfolding assms(7) by auto
  have "normalize_request r = Inr r" using prepared_valid [OF public(2)] by (auto intro: normalize_valid)
  moreover have "dec_generate_request (h_parse_uuid host) (enc_generate_request (h_show_uuid host) r) = Some r"
    by (rule dec_generate_request_encoded) (use assms(6,7) in auto)
  ultimately show ?thesis
    using public accepted assms(8) by (auto simp: dec_api_request)
qed

definition sample_uuid_host :: host where
  "sample_uuid_host = demo_host\<lparr>h_show_uuid := (\<lambda>i. if i = 2 then ''two'' else ''nine''),
     h_parse_uuid := (\<lambda>s. if s = ''two'' then Some 2 else if s = ''nine'' then Some 9 else None)\<rparr>"

definition sample_api_request :: api_request where
  "sample_api_request = from_conversation settings_default (push_question 3 4 ''d'' (demo_conversation 2))"

definition sample_private_request :: generate_request where
  "sample_private_request =
     \<lparr>gr_request_id = 9, gr_session_id = Some (cv_id (demo_conversation 2)), gr_model = se_model (sv_settings (ha_state demo_app)),
      gr_prompt = None,
      gr_messages = Some (prompt_messages (demo_conversation 2) @
        [\<lparr>cm_role = User, cm_content = ha_draft demo_app, cm_tool_calls = [], cm_tool_call_id = None\<rparr>]),
      gr_template = None, gr_tools = [], gr_max_tokens = se_max_tokens (sv_settings (ha_state demo_app))\<rparr>"

definition sample_request_values :: "json_value list" where
  "sample_request_values =
     [enc_api_request sample_api_request, enc_generate_request (h_show_uuid sample_uuid_host) sample_private_request]"

theorem client_request_reaches_worker_witness:
  "Option.bind (demo_parse sample_request_values
       (sample_json (enc_generate_request (h_show_uuid sample_uuid_host) sample_private_request)))
     (dec_generate_request (h_parse_uuid sample_uuid_host)) = Some sample_private_request \<and>
   normalize_request sample_private_request = Inr sample_private_request"
proof -
  have sel: "selected demo_app = Some (demo_conversation 2)" and id: "cv_id (demo_conversation 2) = 2"
    by (simp_all add: selected_def find_conversation_def demo_app_def harness_new_def refresh_models_def
        demo_conversation_def conversation_new_def)
  have sent: "send 3 4 demo_app = (fst (send 3 4 demo_app), Some (SpawnChat (se_endpoint settings_default)
      sample_api_request 2 4))"
    using sel by (simp add: send_def demo_app_def harness_new_def refresh_models_def demo_draft Let_def selected_def
        find_conversation_def demo_conversation_def conversation_new_def sample_api_request_def)
  have trimmed: "str_trim ''two'' = ''two''" and visible: "list_all visible_ascii ''two''" by code_simp+
  have texts: "\<forall>v \<in> {enc_api_request sample_api_request,
        enc_generate_request (h_show_uuid sample_uuid_host) sample_private_request}.
      demo_parse sample_request_values (sample_json v) = Some v"
    by code_simp
  show ?thesis
    using client_request_reaches_worker [where host = sample_uuid_host and parse = "demo_parse sample_request_values" and
        print = sample_json, OF demo_app_ok(2) sel sent _ _ _ sample_private_request_def texts] trimmed visible
    by (simp add: id uuid_text_def sample_uuid_host_def)
qed

section \<open>The coordinator's view of its workers\<close>

text \<open>The reports a coordinator receives are what reachable workers say of themselves, whatever
  the order in which they arrive.\<close>

fun from_worker :: "registry_op \<Rightarrow> bool" where
  "from_worker (Register now request) \<longleftrightarrow>
     (\<exists>s w ts. worker_start s \<and> (worker_step True)\<^sup>*\<^sup>* s (w, ts) \<and> rw_capabilities request = capabilities w)"
| "from_worker (Heartbeat now i request) \<longleftrightarrow>
     (\<exists>s w ts. worker_start s \<and> (worker_step True)\<^sup>*\<^sup>* s (w, ts) \<and> hb_capabilities request = capabilities w)"
| "from_worker _ \<longleftrightarrow> True"

lemma reachable_report:
  assumes "worker_start s" "(worker_step drops)\<^sup>*\<^sup>* s (w, ts)"
  shows "wc_active_requests (capabilities w) \<le> wc_max_requests (capabilities w)"
  using worker.invariant_reachable [OF assms] by (simp add: worker_inv_def slots_inv_def capabilities_def)

lemma from_worker_sound: "from_worker op \<Longrightarrow> sound_report op"
  by (cases op) (auto intro: reachable_report)

text \<open>
  C6. In a cluster whose workers run the worker's code no record of the coordinator ever
  shows more active requests than the worker's maximum, in whatever order registrations,
  heartbeats, reservations, releases, failures and expirations arrive.
\<close>

theorem cluster_within_capacity:
  assumes "\<forall>op \<in> set ops. from_worker op"
  shows "within_capacity (foldl registry_step registry_default ops)"
  using registry_within_capacity from_worker_sound assms by blast

theorem cluster_within_capacity_witness:
  "within_capacity (foldl registry_step registry_default
     [Register 0 \<lparr>rw_address = ''http://a'', rw_capabilities = capabilities (demo_runtime 2)\<rparr>,
      SelectAndReserve 1 ''m'' None])"
proof (rule cluster_within_capacity)
  have "worker_start (demo_runtime 2, [])" by (rule demo_start)
  then show "\<forall>op \<in> set [Register 0 \<lparr>rw_address = ''http://a'', rw_capabilities = capabilities (demo_runtime 2)\<rparr>,
      SelectAndReserve 1 ''m'' None]. from_worker op"
    by auto
qed

section \<open>One answer, streamed or not\<close>

text \<open>The chunks among the events put on a client's channel.\<close>

definition sent_chunks :: "effect list \<Rightarrow> chat_completion_chunk list" where
  "sent_chunks effects =
     List.map_filter (\<lambda>e. case e of Sent (ChunkEvent c) \<Rightarrow> Some c | _ \<Rightarrow> None) effects"

lemma map_filter_append: "List.map_filter f (xs @ ys) = List.map_filter f xs @ List.map_filter f ys"
  by (simp add: List.map_filter_def)

lemma sent_chunks_simps [simp]:
  "sent_chunks [] = []"
  "sent_chunks (Sent (ChunkEvent c) # es) = c # sent_chunks es"
  "sent_chunks (Sent DoneEvent # es) = sent_chunks es"
  "sent_chunks (Sent (ErrorEvent m) # es) = sent_chunks es"
  "sent_chunks (RegistryOp r # es) = sent_chunks es"
  by (simp_all add: sent_chunks_def List.map_filter_def)

lemma sent_chunks_append: "sent_chunks (xs @ ys) = sent_chunks xs @ sent_chunks ys"
  by (simp add: sent_chunks_def map_filter_append)

lemma sent_chunks_map: "sent_chunks (map (Sent \<circ> ChunkEvent \<circ> f) xs) = map f xs"
  by (induction xs) simp_all

lemma pump_all: "pump_events None events = (map stream_event_of events, False)"
  by (induction events) simp_all

text \<open>A request whose plain generation succeeds, streamed instead: deltas that make up the text
  of the answer, then the completion with its other parts.\<close>

lemma streamed_answer:
  assumes "generate (handle_generate model jr s) w request token leased = Inr answer"
    and "jb_client jr = None"
  obtains pieces where "fst (stream (handle_stream model jr s) w request token leased None) =
      map TextDelta pieces @ [Completed (gp_input_tokens answer) (gp_output_tokens answer)
        (gp_tool_calls answer) (gp_finish_reason answer)]"
    and "concat pieces = gp_text answer" and "gp_request_id answer = gr_request_id request"
proof -
  from assms(1) obtain chat g where chat: "chat_request_of request token
      (cache_session_id (wk_cache_enabled w) (gr_session_id request) leased) = Inr chat"
    and g: "handle_generate model jr s chat = Inr g"
    and answer: "answer = \<lparr>gp_request_id = gr_request_id request, gp_worker_id = wk_node_id w,
      gp_model = gr_model request, gp_text = gt_text g, gp_input_tokens = gt_input_tokens g,
      gp_output_tokens = gt_output_tokens g, gp_tool_calls = gt_tool_calls g,
      gp_finish_reason = gt_finish_reason g\<rparr>"
    by (auto simp: generate_def split: sum.splits)
  obtain pieces where pieces: "handle_stream model jr s chat = Inr (map EventTextDelta pieces @ [EventCompleted g])"
    "concat pieces = gt_text g"
    using run_stream_job [of "jr\<lparr>jb_job := StreamJob chat\<rparr>" chat model s] assms(2) g
    by (auto simp: handle_stream_def handle_generate_def final_event_def)
  show ?thesis
    by (rule that [of pieces]) (simp_all add: stream_def chat pieces pump_all answer)
qed

text \<open>
  C3. A client gets the same answer from a worker whether it asks for a stream or not. Take a
  request whose plain generation succeeds on a worker's model. Streamed instead on the same
  model, in the same state and with the same token, the worker sends text deltas and a
  completion; however the network cuts them into chunks, the coordinator passes them on to a
  client that stays: the text, the tool calls, the finish reason, the usage and the id that the
  client puts together from the chunks are those of the plain response, the stream ends with
  the end marker, and the slot is given back.
\<close>

theorem streaming_agrees_with_plain:
  assumes plain: "generate (handle_generate model jr s) w request token leased = Inr answer"
    and stays: "jb_client jr = None"
    and events: "events = fst (stream (handle_stream model jr s) w request token leased None)"
    and printed: "prints_events host print_event events"
    and body: "concat chunks = worker_body print_event events"
    and task: "st_context task = stream_context_new (h_show_uuid host) created public_model (gr_request_id request)"
  shows "let trace = fw_trace (forward_worker_stream host task None (map Inr chunks));
             sent = sent_chunks trace;
             response = from_generate (h_print_json host) (h_show_uuid host) created public_model answer;
             message = cc_message (hd (cp_choices response))
         in streamed_text sent = (case am_content message of None \<Rightarrow> [] | Some t \<Rightarrow> t) \<and>
            map ct_call (streamed_calls sent) = am_tool_calls message \<and>
            streamed_finish sent = [cc_finish_reason (hd (cp_choices response))] \<and>
            List.map_filter ck_usage sent = [cp_usage response] \<and>
            set (map ck_id sent) = {cp_id response} \<and>
            (\<exists>sends. trace = map Sent (sends @ [DoneEvent]) @ [RegistryOp (Release (sw_id (st_worker task)))])"
proof -
  obtain pieces where events': "events = map TextDelta pieces @ [Completed (gp_input_tokens answer)
      (gp_output_tokens answer) (gp_tool_calls answer) (gp_finish_reason answer)]"
    and pieces: "concat pieces = gp_text answer" and id: "gp_request_id answer = gr_request_id request"
    using streamed_answer [OF plain stays] events by metis
  let ?ctx = "st_context task"
  define cks where "cks = role_chunk ?ctx # map (text_chunk ?ctx) pieces @ completed_chunks (h_print_json host)
      ?ctx (gp_input_tokens answer) (gp_output_tokens answer) (gp_tool_calls answer) (gp_finish_reason answer)"
  have trace: "fw_trace (forward_worker_stream host task None (map Inr chunks)) =
      map Sent (map ChunkEvent cks @ [DoneEvent]) @ [RegistryOp (Release (sw_id (st_worker task)))]"
    using forwarded_completely [OF printed [unfolded events'] body [unfolded events'], of task]
    by (simp add: cks_def public_stream_def)
  have sent: "sent_chunks (fw_trace (forward_worker_stream host task None (map Inr chunks))) = cks"
    unfolding trace map_append sent_chunks_append
    using sent_chunks_map [of id cks] by (simp add: sent_chunks_append o_def)
  have split: "cks = [role_chunk ?ctx] @ map (text_chunk ?ctx) pieces @ completed_chunks (h_print_json host) ?ctx
      (gp_input_tokens answer) (gp_output_tokens answer) (gp_tool_calls answer) (gp_finish_reason answer)"
    by (simp add: cks_def)
  have words: "streamed_text cks = gp_text answer"
    and calls: "map ct_call (streamed_calls cks) = tool_calls_response (h_print_json host) (gp_tool_calls answer)"
    and finish: "streamed_finish cks = [gp_finish_reason answer]"
    unfolding split streamed_append
    by (simp_all add: streamed_role streamed_deltas streamed_completed pieces)
  have ids: "set (map ck_id cks) = {''chatcmpl-'' @ h_show_uuid host (gr_request_id request)}"
    by (auto simp: cks_def task chunk_defs stream_context_new_def)
  have used: "List.map_filter ck_usage cks = [usage (gp_input_tokens answer) (gp_output_tokens answer)]"
    unfolding cks_def by (rule usage_of_chunks)
  show ?thesis
    unfolding Let_def sent words calls finish ids used unfolding trace from_generate_def
    by (auto simp: id intro!: exI [of _ "map ChunkEvent cks"])
qed

text \<open>A request of the sample worker, on the sample model; the printed form of an event is a
  letter and its text.\<close>

definition demo_answer :: generate_response where
  "demo_answer =
     \<lparr>gp_request_id = 1, gp_worker_id = ''b'', gp_model = ''m'', gp_text = ''34'', gp_input_tokens = 3,
      gp_output_tokens = 2, gp_tool_calls = [], gp_finish_reason = Stop\<rparr>"

definition demo_wire :: host where
  "demo_wire = demo_host\<lparr>h_parse_event := (\<lambda>payload.
     if payload = ''C'' then Inr (Completed 3 2 [] Stop) else Inr (TextDelta (tl payload)))\<rparr>"

lemma demo_plain:
  "generate (handle_generate demo_gguf_model (demo_job (GenerateJob demo_chat)) demo_loaded) (demo_runtime 1)
     (demo_request 1) 0 True = Inr demo_answer"
  by (simp add: generate_def chat_request_of_def normalized_messages_def normalize_messages_def handle_generate_def
      demo_request_def demo_runtime_def new_runtime_def cache_session_id_def demo_answer_def demo_sdk_defs)

lemma demo_streamed:
  "fst (stream (handle_stream demo_gguf_model (demo_job (GenerateJob demo_chat)) demo_loaded) (demo_runtime 1)
     (demo_request 1) 0 True None) = [TextDelta ''3'', TextDelta ''4'', Completed 3 2 [] Stop]"
  by (simp add: stream_def chat_request_of_def normalized_messages_def normalize_messages_def handle_stream_def
      demo_request_def demo_runtime_def new_runtime_def cache_session_id_def pump_all demo_sdk_defs)

lemma demo_wire_prints: "prints_events demo_wire demo_print_event [TextDelta ''3'', TextDelta ''4'', Completed 3 2 [] Stop]"
  by code_simp

theorem streaming_agrees_with_plain_witness:
  "streamed_text (sent_chunks (fw_trace (forward_worker_stream demo_wire
     (demo_task\<lparr>st_context := stream_context_new (h_show_uuid demo_wire) 0 ''m'' (gr_request_id (demo_request 1))\<rparr>) None
     (map Inr [worker_body demo_print_event [TextDelta ''3'', TextDelta ''4'', Completed 3 2 [] Stop]])))) = ''34''"
proof -
  let ?events = "[TextDelta ''3'', TextDelta ''4'', Completed 3 2 [] Stop]"
  let ?task = "demo_task\<lparr>st_context := stream_context_new (h_show_uuid demo_wire) 0 ''m'' (gr_request_id (demo_request 1))\<rparr>"
  have stays: "jb_client (demo_job (GenerateJob demo_chat)) = None" by (simp add: demo_job_def)
  have body: "concat [worker_body demo_print_event ?events] = worker_body demo_print_event ?events" by simp
  have task: "st_context ?task = stream_context_new (h_show_uuid demo_wire) 0 ''m'' (gr_request_id (demo_request 1))"
    by simp
  show ?thesis
    using streaming_agrees_with_plain [OF demo_plain stays demo_streamed [symmetric] demo_wire_prints body task]
    by (simp add: Let_def from_generate_def demo_answer_def)
qed

section \<open>From the model to the screen\<close>

lemma model_answer_shown:
  assumes "generate (handle_generate model jr s) w request token leased = Inr answer"
    and "jb_client jr = None"
    and "events = fst (stream (handle_stream model jr s) w request token leased None)"
    and "prints_events host print_event events"
    and "concat chunks = worker_body print_event events"
    and "public = sent_events (fw_trace (forward_worker_stream host task None (map Inr chunks)))"
    and "prints_public parse_json print_chunk print_error public"
    and "concat chunks' = concat (map (public_frame print_chunk print_error) public)"
    and "ha_active app = Some a" and "message_text app (ac_conversation a) m = Some x"
    and "shown_events = stream_chat parse_json (ac_conversation a) m
           (ReplyBody (map (BodyTurn \<circ> Inr) chunks' @ turns))"
    and "length ids = length shown_events"
  shows "message_text (process_events (zip ids shown_events) app) (ac_conversation a) m =
      Some (x @ gp_text answer) \<and>
    ha_active (process_events (zip ids shown_events) app) = None"
proof -
  obtain pieces where pieces: "events = map TextDelta pieces @ [Completed (gp_input_tokens answer)
      (gp_output_tokens answer) (gp_tool_calls answer) (gp_finish_reason answer)]"
    "concat pieces = gp_text answer"
    using streamed_answer [OF assms(1,2)] assms(3) by metis
  note shown = answer_shown [OF assms(4) [unfolded pieces(1)] assms(5) [unfolded pieces(1)] assms(6-9) refl assms(10),
      of _ turns, folded assms(11), unfolded Let_def]
  obtain ids' :: "uuid list" where "length ids' = Suc (length pieces)" using Ex_list_of_length by blast
  then have "shown_events = map (DeltaEvent (ac_conversation a) m) pieces @ [CompletedEvent (ac_conversation a)]"
    using shown [of ids'] by blast
  with assms(12) have "length ids = Suc (length pieces)" by simp
  from shown [OF this] show ?thesis unfolding pieces(2) by blast
qed

lemma public_stream_choices: "ChunkEvent c \<in> set (public_stream host ctx ts i n calls fr) \<Longrightarrow> ck_choices c \<noteq> []"
  by (auto simp: public_stream_def chunk_defs split: if_splits)

text \<open>
  C2. What the model says is what the user reads. Take a request whose plain generation succeeds on
  a worker's model. Streamed instead, through the model thread, the worker's events as JSON, the
  network in any cuts, the coordinator's parser and forwarding task, its chunks as JSON, the network
  again and the client's task, the answer under generation grows by exactly the text of the plain
  answer, and the generation is over. Of serde_json only this is relied on: each of these JSON values
  is printed on one line, an object from its brace on, and parsed to itself.
\<close>

theorem model_answer_on_screen:
  assumes "generate (handle_generate model jr s) w request token leased = Inr answer"
    and "jb_client jr = None"
    and "events = fst (stream (handle_stream model jr s) w request token leased None)"
    and "h_parse_event host = parse_event_with parse error"
    and "\<forall>e \<in> set events. json_text print parse (enc_stream_event e)"
    and "concat chunks = worker_body (print \<circ> enc_stream_event) events"
    and "public = sent_events (fw_trace (forward_worker_stream host task None (map Inr chunks)))"
    and "\<forall>e \<in> set public. case public_value e of Some v \<Rightarrow> json_text print parse v | None \<Rightarrow> True"
    and "concat chunks' =
      concat (map (public_frame (print \<circ> enc_completion_chunk) (print \<circ> enc_stream_error)) public)"
    and "ha_active app = Some a" and "message_text app (ac_conversation a) m = Some x"
    and "shown_events = stream_chat (parse_value_with parse error) (ac_conversation a) m
           (ReplyBody (map (BodyTurn \<circ> Inr) chunks' @ turns))"
    and "length ids = length shown_events"
  shows "message_text (process_events (zip ids shown_events) app) (ac_conversation a) m =
      Some (x @ gp_text answer) \<and>
    ha_active (process_events (zip ids shown_events) app) = None"
proof -
  note printed = prints_events_wire [OF assms(4,5)]
  obtain pieces where pieces: "events = map TextDelta pieces @ [Completed (gp_input_tokens answer)
      (gp_output_tokens answer) (gp_tool_calls answer) (gp_finish_reason answer)]"
    using streamed_answer [OF assms(1,2)] assms(3) by metis
  have "public = public_stream host (st_context task) pieces (gp_input_tokens answer)
      (gp_output_tokens answer) (gp_tool_calls answer) (gp_finish_reason answer)"
    unfolding assms(7) using forwarded_completely [OF printed [unfolded pieces] assms(6) [unfolded pieces], of task]
    by (simp add: sent_events_append sent_events_map)
  then have "\<forall>c. ChunkEvent c \<in> set public \<longrightarrow> ck_choices c \<noteq> []" using public_stream_choices by blast
  moreover have "\<forall>e \<in> set public. \<forall>v. public_value e = Some v \<longrightarrow> json_text print parse v"
    using assms(8) by auto
  ultimately have "prints_public (parse_value_with parse error) (print \<circ> enc_completion_chunk)
      (print \<circ> enc_stream_error) public" by (intro prints_public_wire)
  from model_answer_shown [OF assms(1-3) printed assms(6,7) this assms(9-13)] show ?thesis .
qed

text \<open>Every JSON value of the sample request's answer, and a host that parses them.\<close>

definition demo_screen_events :: "public_event list" where
  "demo_screen_events = public_stream demo_host (st_context demo_task) [''3'', ''4''] 3 2 [] Stop"

definition demo_values :: "json_value list" where
  "demo_values = map enc_stream_event [TextDelta ''3'', TextDelta ''4'', Completed 3 2 [] Stop] @
     List.map_filter public_value demo_screen_events"

definition demo_json_host :: host where
  "demo_json_host = demo_host\<lparr>h_parse_event := parse_event_with (demo_parse demo_values) (\<lambda>_. [])\<rparr>"

definition demo_screen_body :: bytes where
  "demo_screen_body =
     concat (map (public_frame (sample_json \<circ> enc_completion_chunk) (sample_json \<circ> enc_stream_error)) demo_screen_events)"

lemma demo_values_text: "list_all (json_text sample_json (demo_parse demo_values)) demo_values"
  by code_simp

lemma demo_events_text:
  "\<forall>e \<in> set (map TextDelta [''3'', ''4''] @ [Completed 3 2 [] Stop]).
     json_text sample_json (demo_parse demo_values) (enc_stream_event e)"
  using demo_values_text by (simp add: demo_values_def)

lemma demo_screen_sent:
  "demo_screen_events = sent_events (fw_trace (forward_worker_stream demo_json_host demo_task None
     (map Inr [worker_body (sample_json \<circ> enc_stream_event) [TextDelta ''3'', TextDelta ''4'', Completed 3 2 [] Stop]])))"
proof -
  have "h_parse_event demo_json_host = parse_event_with (demo_parse demo_values) (\<lambda>_. [])"
    by (simp add: demo_json_host_def)
  note printed = prints_events_wire [OF this demo_events_text]
  have body: "concat [worker_body (sample_json \<circ> enc_stream_event) [TextDelta ''3'', TextDelta ''4'', Completed 3 2 [] Stop]] =
      worker_body (sample_json \<circ> enc_stream_event) (map TextDelta [''3'', ''4''] @ [Completed 3 2 [] Stop])"
    by simp
  show ?thesis
    by (simp only: forwarded_completely [OF printed body] sent_events_append sent_events_map)
      (simp add: demo_screen_events_def public_stream_def demo_json_host_def demo_host_def)
qed

theorem model_answer_on_screen_witness:
  "\<exists>shown_events.
     shown_events = stream_chat (parse_value_with (demo_parse demo_values) (\<lambda>_. [])) 1 3
       (ReplyBody (map (BodyTurn \<circ> Inr) [demo_screen_body] @ [])) \<and>
     message_text (process_events (zip (replicate (length shown_events) 9) shown_events) (hs_app demo_sent)) 1 3 =
       Some ''34''"
proof -
  let ?events = "[TextDelta ''3'', TextDelta ''4'', Completed 3 2 [] Stop]"
  have stays: "jb_client (demo_job (GenerateJob demo_chat)) = None" by (simp add: demo_job_def)
  have parser: "h_parse_event demo_json_host = parse_event_with (demo_parse demo_values) (\<lambda>_. [])"
    by (simp add: demo_json_host_def)
  have events: "\<forall>e \<in> set ?events. json_text sample_json (demo_parse demo_values) (enc_stream_event e)"
    using demo_events_text by simp
  have public: "\<forall>e \<in> set demo_screen_events.
      case public_value e of Some v \<Rightarrow> json_text sample_json (demo_parse demo_values) v | None \<Rightarrow> True"
    using demo_values_text by (auto simp: demo_values_def list_all_iff map_filter_simps List.map_filter_def image_iff split: option.split)
  have body: "concat [worker_body (sample_json \<circ> enc_stream_event) ?events] = worker_body (sample_json \<circ> enc_stream_event) ?events"
    by simp
  obtain a where a: "ha_active (hs_app demo_sent) = Some a" "ac_conversation a = 1"
    using demo_sent_app(2) by auto
  have chunks: "concat [demo_screen_body] = concat (map (public_frame (sample_json \<circ> enc_completion_chunk)
      (sample_json \<circ> enc_stream_error)) demo_screen_events)"
    by (simp add: demo_screen_body_def)
  have empty: "message_text (hs_app demo_sent) (ac_conversation a) 3 = Some []" using demo_sent_app(1) a(2) by simp
  show ?thesis
    using model_answer_on_screen [OF demo_plain stays demo_streamed [symmetric] parser events body
        demo_screen_sent public chunks a(1) empty refl length_replicate, of "[]" 9]
    by (simp add: a(2) demo_answer_def del: process_event.simps process_events_simps)
qed

section \<open>A question from the command line\<close>

text \<open>
  C4. A question asked on the command line is answered by the model, in full. When the coordinator finds a
  worker for it and the worker's handler answers it, then over all four JSON documents
  between the three processes: the coordinator replies with a completion, the client prints this
  document, and its text is what the model generated for a chat that consists of the prompt alone,
  under the client's token limit.
\<close>

theorem question_answered:
  assumes "fst (select_and_reserve (ex_now ex) (cl_model args) None reg) = Some worker"
    and "generate_handler (handle_generate model jr s) env (cli_request args (ex_new_id ex)) w = (ResponseBody answer, w')"
    and "ex_generate_reply ex = Replied 200 (parse_response_with parse (h_parse_uuid host) error
      (print (enc_generate_response (h_show_uuid host) answer)))"
    and "ex_cancelled ex = None" and "uuid_text (h_show_uuid host) (h_parse_uuid host) (ex_new_id ex)"
    and "response = from_generate (h_print_json host) (h_show_uuid host) (ex_created ex) (cl_model args) answer"
    and "\<forall>v \<in> {cli_body args, enc_generate_request (h_show_uuid host) (cli_request args (ex_new_id ex)),
        enc_generate_response (h_show_uuid host) answer, enc_completion_response response}. parse (print v) = Some v"
  shows "(\<exists>public. Option.bind (parse (print (cli_body args))) dec_completion_request = Some public \<and>
      fst (chat_completions host ex None public reg) = Some (CompletionReply response)) \<and>
    Option.bind (parse (print (enc_generate_request (h_show_uuid host) (cli_request args (ex_new_id ex)))))
      (dec_generate_request (h_parse_uuid host)) = Some (cli_request args (ex_new_id ex)) \<and>
    cli_output parse error pretty (Inr (print (enc_completion_response response))) =
      Inr (pretty (enc_completion_response response)) \<and>
    (\<exists>chat g. handle_generate model jr s chat = Inr g \<and>
       cq_messages chat = [\<lparr>cm_role = User, cm_content = cl_prompt args, cm_tool_calls = [], cm_tool_call_id = None\<rparr>] \<and>
       gc_max_tokens (cq_generation chat) = cl_max_tokens args \<and>
       am_content (cc_message (hd (cp_choices response))) = (if gt_text g = [] then None else Some (gt_text g)))"
proof -
  let ?r = "cli_request args (ex_new_id ex)"
  obtain public where public: "dec_completion_request (cli_body args) = Some public" "\<not> cr_stream public"
    "cr_model public = cl_model args" "prepare_request host (ex_new_id ex) None public = Inr ?r"
    using cli_served [of args host "ex_new_id ex"] by blast
  have same: "normalize_request ?r = Inr ?r" using prepared_valid [OF public(4)] by (auto intro: normalize_valid)
  obtain w2 token leased where "generate (handle_generate model jr s) w2 ?r token leased = Inr answer"
    using handler_answer [OF assms(2)] same by (metis sum.inject(2))
  then obtain chat g where chat: "chat_request_of ?r token (cache_session_id (wk_cache_enabled w2) None leased) = Inr chat"
    and g: "handle_generate model jr s chat = Inr g" and "gp_text answer = gt_text g" "gp_request_id answer = ex_new_id ex"
    by (auto simp: generate_def cli_request_def split: sum.splits)
  moreover from chat have "cq_messages chat = [\<lparr>cm_role = User, cm_content = cl_prompt args, cm_tool_calls = [],
      cm_tool_call_id = None\<rparr>]" "gc_max_tokens (cq_generation chat) = cl_max_tokens args"
    by (auto simp: chat_request_of_def cli_request_def normalized_messages_def normalize_messages_def)
  moreover have "dec_generate_request (h_parse_uuid host) (enc_generate_request (h_show_uuid host) ?r) = Some ?r"
    by (rule dec_generate_request_encoded) (use assms(5) in \<open>auto simp: cli_request_def\<close>)
  moreover have "ex_generate_reply ex = Replied 200 (Inr answer)"
    using assms(3,5,7) calculation(4) by (simp add: parse_response_with_def dec_generate_response_encoded)
  then have "fst (chat_completions host ex None public reg) = Some (CompletionReply response)"
    using assms(1,4,6) public
    by (simp add: chat_completions_def route_request_def forward_worker_request_def request_future_def is_success_def
        cli_request_def)
  ultimately show ?thesis
    using public(1) assms(6,7) by (auto simp: cli_output_def from_generate_def)
qed

definition sample_args :: cli_args where
  "sample_args = \<lparr>cl_coordinator = ''http://c'', cl_model = ''m'', cl_prompt = ''hi'', cl_max_tokens = 100\<rparr>"

definition sample_answer :: generate_response where
  "sample_answer = demo_answer\<lparr>gp_request_id := 7\<rparr>"

definition sample_completion :: chat_completion_response where
  "sample_completion = from_generate (h_print_json demo_host) (h_show_uuid demo_host) 0 ''m'' sample_answer"

definition sample_documents :: "json_value list" where
  "sample_documents =
     [cli_body sample_args, enc_generate_request (h_show_uuid demo_host) (cli_request sample_args 7),
      enc_generate_response (h_show_uuid demo_host) sample_answer, enc_completion_response sample_completion]"

definition sample_exchange :: exchange where
  "sample_exchange = (demo_exchange None)\<lparr>ex_generate_reply := Replied 200 (parse_response_with
     (demo_parse sample_documents) (h_parse_uuid demo_host) (\<lambda>_. [])
     (sample_json (enc_generate_response (h_show_uuid demo_host) sample_answer)))\<rparr>"

lemma sample_normalized: "normalize_request (cli_request sample_args 7) = Inr (cli_request sample_args 7)"
  using cli_served [of sample_args demo_host 7] prepared_valid [of demo_host 7 None] by (auto intro: normalize_valid)

lemma sample_generated:
  "generate (handle_generate demo_gguf_model (demo_job (GenerateJob demo_chat)) demo_loaded)
     ((demo_runtime 1)\<lparr>wk_active := 1, wk_requests := [(7, 0)], wk_next_token := 1\<rparr>)
     (cli_request sample_args 7) 0 False = Inr sample_answer"
  by (simp add: generate_def chat_request_of_def normalized_messages_def normalize_messages_def handle_generate_def
      cli_request_def sample_args_def demo_runtime_def new_runtime_def cache_session_id_def sample_answer_def
      demo_answer_def demo_sdk_defs)

lemma sample_handled:
  "fst (generate_handler (handle_generate demo_gguf_model (demo_job (GenerateJob demo_chat)) demo_loaded)
     \<lparr>rq_spurious = [], rq_rounds = [], rq_client = None\<rparr> (cli_request sample_args 7) (demo_runtime 1)) =
     ResponseBody sample_answer"
proof -
  let ?r = "cli_request sample_args 7"
  let ?w1 = "(demo_runtime 1)\<lparr>wk_active := 1\<rparr>"
  let ?w2 = "(demo_runtime 1)\<lparr>wk_active := 1, wk_requests := [(7, 0)], wk_next_token := 1\<rparr>"
  have request: "gr_model ?r = ''m''" "gr_request_id ?r = 7" "gr_session_id ?r = None"
    by (simp_all add: cli_request_def sample_args_def)
  have "try_reserve ''m'' [] (demo_runtime 1) = (Inr (), ?w1)"
    by (simp add: try_reserve_result demo_worker_defs)
  moreover have "begin_request 7 ?w1 = (Some 0, ?w2)"
    by (simp add: begin_request_def demo_worker_defs)
  moreover have "acquire_if_enabled env ?r ?w2 = (False, ?w2)" for env
    by (simp add: acquire_if_enabled_def request)
  ultimately show ?thesis
    using sample_generated by (simp add: generate_handler_def admit_def sample_normalized request Let_def)
qed

lemma sample_exchange_simps:
  "ex_new_id sample_exchange = 7" "ex_now sample_exchange = 1" "cl_model sample_args = ''m''"
  by (simp_all add: sample_exchange_def demo_exchange_def sample_args_def)

lemma sample_texts: "list_all (\<lambda>v. demo_parse sample_documents (sample_json v) = Some v) sample_documents"
  by code_simp

lemma sample_documents_set:
  "set sample_documents = {cli_body sample_args, enc_generate_request (h_show_uuid demo_host) (cli_request sample_args 7),
     enc_generate_response (h_show_uuid demo_host) sample_answer, enc_completion_response sample_completion}"
  by (simp only: sample_documents_def list.set)

lemma sample_worker:
  "fst (select_and_reserve 1 ''m'' None demo_registry) = Some \<lparr>sw_id = ''b'', sw_address = ''http://b''\<rparr>"
  by code_simp

theorem question_answered_witness:
  "\<exists>public. fst (chat_completions demo_host sample_exchange None public demo_registry) =
     Some (CompletionReply sample_completion) \<and>
     am_content (cc_message (hd (cp_choices sample_completion))) = Some ''34''"
proof -
  have worker: "fst (select_and_reserve (ex_now sample_exchange) (cl_model sample_args) None demo_registry) =
      Some \<lparr>sw_id = ''b'', sw_address = ''http://b''\<rparr>"
    by (simp only: sample_exchange_simps sample_worker)
  obtain w' where handled: "generate_handler (handle_generate demo_gguf_model (demo_job (GenerateJob demo_chat)) demo_loaded)
      \<lparr>rq_spurious = [], rq_rounds = [], rq_client = None\<rparr> (cli_request sample_args (ex_new_id sample_exchange)) (demo_runtime 1) =
      (ResponseBody sample_answer, w')"
    using sample_handled by (metis prod.collapse sample_exchange_simps(1))
  have reply: "ex_generate_reply sample_exchange = Replied 200 (parse_response_with (demo_parse sample_documents)
      (h_parse_uuid demo_host) (\<lambda>_. []) (sample_json (enc_generate_response (h_show_uuid demo_host) sample_answer)))"
    and stays: "ex_cancelled sample_exchange = None"
    by (simp_all add: sample_exchange_def demo_exchange_def)
  have uuid: "uuid_text (h_show_uuid demo_host) (h_parse_uuid demo_host) (ex_new_id sample_exchange)"
    by (simp add: uuid_text_def sample_exchange_def demo_exchange_def demo_host_def)
  have completion: "sample_completion = from_generate (h_print_json demo_host) (h_show_uuid demo_host)
      (ex_created sample_exchange) (cl_model sample_args) sample_answer"
    by (simp add: sample_completion_def sample_exchange_def demo_exchange_def sample_args_def)
  have "am_content (cc_message (hd (cp_choices sample_completion))) = Some ''34''"
    by (simp add: sample_completion_def from_generate_def sample_answer_def demo_answer_def)
  moreover have "\<forall>v \<in> {cli_body sample_args,
      enc_generate_request (h_show_uuid demo_host) (cli_request sample_args (ex_new_id sample_exchange)),
      enc_generate_response (h_show_uuid demo_host) sample_answer, enc_completion_response sample_completion}.
      demo_parse sample_documents (sample_json v) = Some v"
    using sample_texts unfolding sample_exchange_simps list_all_iff by (simp only: sample_documents_set)
  ultimately show ?thesis
    using question_answered [where print = sample_json and parse = "demo_parse sample_documents" and error = "\<lambda>_. []",
        OF worker handled reply stays uuid completion] by blast
qed

end
